(* ===== verification/Prelude.thy ===== *)
theory Prelude
  imports Main "HOL-Library.Word" "HOL-Library.Multiset"
begin

text \<open>
  The shared base of the development.

  \<^item> Machine integers: Go's \<open>int\<close>, \<open>int64\<close> and \<open>time.Duration\<close> are mathematical integers
    whose arithmetic is wrapped to 64 bits where the code computes (\<open>wrap64\<close>); atomic
    counters are \<open>64 word\<close>s. A \<open>time.Time\<close> is an \<open>int\<close>, the nanoseconds since Go's zero
    time, so \<open>IsZero\<close> is equality with 0.
  \<^item> Maps: a Go map is a finite partial function. Go iterates a map in an unspecified order,
    so a loop over a map takes the list of keys in the order the runtime chose;
    \<open>map_order\<close> says what such a list is.
  \<^item> \<open>sort.Slice\<close>: \<open>sort_slice\<close>, with the contract of its comparison function as the
    locale \<open>slice_order\<close>.
  \<^item> First-occurrence deduplication, which several components write as a loop with a
    \<open>seen\<close> set.
\<close>

named_theorems go_simps \<open>equations of the Go library functions used by simp\<close>
named_theorems go_intros \<open>introduction rules of the Go library functions\<close>

section \<open>64-bit signed arithmetic\<close>

type_synonym time = int
type_synonym duration = int
type_synonym u64 = "64 word"

definition wrap64 :: "int \<Rightarrow> int" where
  "wrap64 x = signed_take_bit 63 x"

definition in_int64 :: "int \<Rightarrow> bool" where
  "in_int64 x \<longleftrightarrow> - (2 ^ 63) \<le> x \<and> x < 2 ^ 63"

abbreviation MaxInt64 :: int where
  "MaxInt64 \<equiv> 2 ^ 63 - 1"

lemma wrap64_as_word: "wrap64 x = sint (word_of_int x :: 64 word)"
  by (simp add: wrap64_def sint_sbintrunc')

lemma wrap64_id [go_simps]: "in_int64 x \<Longrightarrow> wrap64 x = x"
  by (simp add: wrap64_def in_int64_def signed_take_bit_int_eq_self_iff)

lemma wrap64_in_int64 [go_intros]: "in_int64 (wrap64 x)"
  using signed_take_bit_int_less_exp [of 63 x] signed_take_bit_int_greater_eq_minus_exp [of 63 x]
  by (simp add: wrap64_def in_int64_def)

section \<open>Go maps and the order in which they are iterated\<close>

definition map_order :: "('k \<rightharpoonup> 'v) \<Rightarrow> 'k list \<Rightarrow> bool" where
  "map_order m ks \<longleftrightarrow> distinct ks \<and> set ks = dom m"

definition map_values :: "('k \<rightharpoonup> 'v) \<Rightarrow> 'k list \<Rightarrow> 'v list" where
  "map_values m ks = List.map_filter m ks"

lemma map_values_Nil [simp]: "map_values m [] = []"
  by (simp add: map_values_def List.map_filter_def)

lemma map_values_Cons [simp]:
  "map_values m (k # ks) = (case m k of None \<Rightarrow> map_values m ks | Some v \<Rightarrow> v # map_values m ks)"
  by (simp add: map_values_def List.map_filter_def split: option.splits)

lemma set_map_values: "set (map_values m ks) = {v. \<exists>k \<in> set ks. m k = Some v}"
  by (induction ks) (auto split: option.splits)

lemma set_map_values_order: "map_order m ks \<Longrightarrow> set (map_values m ks) = ran m"
  by (auto simp: set_map_values map_order_def ran_def dom_def)

lemma length_map_values: "set ks \<subseteq> dom m \<Longrightarrow> length (map_values m ks) = length ks"
  by (induction ks) (auto split: option.splits)

lemma map_order_unique:
  assumes "map_order m ks" and "map_order m ks'"
  shows "mset ks = mset ks'"
  using assms by (simp add: map_order_def set_eq_iff_mset_eq_distinct [symmetric])

lemma mset_map_values: "mset (map_values m ks) = mset (map (the \<circ> m) (filter (\<lambda>k. m k \<noteq> None) ks))"
  by (induction ks) (auto split: option.splits)

lemma mset_map_values_cong: "mset ks = mset ks' \<Longrightarrow> mset (map_values m ks) = mset (map_values m ks')"
  by (simp add: mset_map_values)

lemma mset_map_values_order:
  "map_order m ks \<Longrightarrow> map_order m ks' \<Longrightarrow> mset (map_values m ks) = mset (map_values m ks')"
  by (rule mset_map_values_cong) (rule map_order_unique)

lemma map_order_finite: "map_order m ks \<Longrightarrow> finite (dom m)"
  by (metis List.finite_set map_order_def)

lemma map_order_exists: "finite (dom m) \<Longrightarrow> \<exists>ks. map_order m ks"
  using finite_distinct_list [of "dom m"] by (auto simp: map_order_def)

lemma map_order_card: "map_order m ks \<Longrightarrow> length ks = card (dom m)"
  by (metis distinct_card map_order_def)

section \<open>sort.Slice\<close>

text \<open>
  \<open>sort.Slice\<close> is not stable: elements that compare equal come out in an unspecified order.
  The slices the program sorts are filled by a loop over a map, whose order is unspecified
  too, so a stable insertion sort of the list in iteration order ranges over every result
  that \<open>sort.Slice\<close> can produce as the iteration order varies.
\<close>

fun insert_slice :: "('a \<Rightarrow> 'a \<Rightarrow> bool) \<Rightarrow> 'a \<Rightarrow> 'a list \<Rightarrow> 'a list" where
  "insert_slice lt x [] = [x]"
| "insert_slice lt x (y # ys) = (if lt y x then y # insert_slice lt x ys else x # y # ys)"

definition sort_slice :: "('a \<Rightarrow> 'a \<Rightarrow> bool) \<Rightarrow> 'a list \<Rightarrow> 'a list" where
  "sort_slice lt xs = foldr (insert_slice lt) xs []"

lemma sort_slice_Nil [simp]: "sort_slice lt [] = []"
  by (simp add: sort_slice_def)

lemma sort_slice_Cons [simp]: "sort_slice lt (x # xs) = insert_slice lt x (sort_slice lt xs)"
  by (simp add: sort_slice_def)

lemma mset_insert_slice [simp]: "mset (insert_slice lt x xs) = add_mset x (mset xs)"
  by (induction xs) auto

lemma mset_sort_slice [simp]: "mset (sort_slice lt xs) = mset xs"
  by (induction xs) auto

lemma set_sort_slice [simp]: "set (sort_slice lt xs) = set xs"
  by (metis mset_sort_slice set_mset_mset)

lemma length_sort_slice [simp]: "length (sort_slice lt xs) = length xs"
  by (metis mset_sort_slice size_mset)

lemma distinct_sort_slice [simp]: "distinct (sort_slice lt xs) = distinct xs"
  by (metis mset_sort_slice mset_eq_imp_distinct_iff)

text \<open>
  The contract of the comparison function: a strict weak order. Under it the result is sorted
  (no element is less than an earlier one), and taking a prefix keeps the least elements.
\<close>

locale slice_order =
  fixes lt :: "'a \<Rightarrow> 'a \<Rightarrow> bool"
  assumes asym: "lt x y \<Longrightarrow> \<not> lt y x"
    and neg_trans: "\<not> lt x y \<Longrightarrow> \<not> lt y z \<Longrightarrow> \<not> lt x z"
begin

lemma set_insert_slice: "set (insert_slice lt x xs) = insert x (set xs)"
  by (induction xs) auto

lemma sorted_insert_slice:
  "sorted_wrt (\<lambda>a b. \<not> lt b a) xs \<Longrightarrow> sorted_wrt (\<lambda>a b. \<not> lt b a) (insert_slice lt x xs)"
proof (induction xs)
  case (Cons y ys)
  then show ?case
    by (auto simp: set_insert_slice dest: asym neg_trans)
qed simp

lemma sorted_sort_slice: "sorted_wrt (\<lambda>a b. \<not> lt b a) (sort_slice lt xs)"
  by (induction xs) (auto intro: sorted_insert_slice)

lemma take_sort_slice_least:
  assumes "x \<in> set (take n (sort_slice lt xs))"
    and "y \<in> set (drop n (sort_slice lt xs))"
  shows "\<not> lt y x"
proof -
  have "sorted_wrt (\<lambda>a b. \<not> lt b a) (take n (sort_slice lt xs) @ drop n (sort_slice lt xs))"
    by (simp add: sorted_sort_slice)
  then show ?thesis
    using assms by (simp only: sorted_wrt_append) blast
qed

end

text \<open>Every comparison of the program compares a key of a linear order.\<close>

lemma slice_order_key: "slice_order (\<lambda>a b. (f a :: 'b :: linorder) < f b)"
  by unfold_locales auto

lemma slice_order_key_desc: "slice_order (\<lambda>a b. (f b :: 'b :: linorder) < f a)"
  by unfold_locales auto

section \<open>First-occurrence deduplication\<close>

fun dedup :: "'a list \<Rightarrow> 'a list \<Rightarrow> 'a list" where
  "dedup seen [] = []"
| "dedup seen (x # xs) = (if x \<in> set seen then dedup seen xs else x # dedup (x # seen) xs)"

lemma set_dedup [simp]: "set (dedup seen xs) = set xs - set seen"
  by (induction seen xs rule: dedup.induct) auto

lemma distinct_dedup [simp]: "distinct (dedup seen xs)"
  by (induction seen xs rule: dedup.induct) auto

lemma dedup_eq_Nil [simp]: "dedup [] xs = [] \<longleftrightarrow> xs = []"
  by (cases xs) auto

lemma dedup_append: "dedup seen (xs @ ys) = dedup seen xs @ dedup (rev (dedup seen xs) @ seen) ys"
proof (induction seen xs rule: dedup.induct)
  case (2 seen x xs)
  then show ?case by simp
qed simp

lemma dedup_id: "distinct xs \<Longrightarrow> set xs \<inter> set seen = {} \<Longrightarrow> dedup seen xs = xs"
  by (induction seen xs rule: dedup.induct) auto

lemma dedup_cong: "set seen = set seen' \<Longrightarrow> dedup seen xs = dedup seen' xs"
proof (induction seen xs arbitrary: seen' rule: dedup.induct)
  case (2 seen x xs)
  have "dedup (x # seen) xs = dedup (x # seen') xs" if "x \<notin> set seen"
    using that 2 by (auto intro: "2.IH")
  moreover have "dedup seen xs = dedup seen' xs" if "x \<in> set seen"
    using that 2 by auto
  ultimately show ?case using 2 by simp
qed simp

end
