(* ===== verification/Go_Strings.thy ===== *)
theory Go_Strings
  imports Prelude
begin

text \<open>
  The string functions of the Go standard library that the program uses. A Go string is a
  sequence of bytes, and so is \<open>string\<close> here: a \<open>char\<close> is one byte, and text beyond ASCII is
  its UTF-8 encoding.

  The Unicode case tables and a few renderings (quoting with \<open>%q\<close>, a duration, a timestamp,
  the SHA-256 digest in hex, the whole seconds of a duration taken
  through floating point) are parameters, the fields of \<open>golib\<close>. What is computed from them,
  the UTF-8 decoding in \<open>strings.Map\<close> included, is modelled.
\<close>

section \<open>Library parameters\<close>

record golib =
  unicode_ToLower :: "int \<Rightarrow> int"
  unicode_ToUpper :: "int \<Rightarrow> int"
  strconv_Quote :: "string \<Rightarrow> string"
  Duration_String :: "duration \<Rightarrow> string"
  Format_RFC3339 :: "time \<Rightarrow> string"
  sha256_hex :: "string \<Rightarrow> string"
  Seconds_uint64 :: "duration \<Rightarrow> u64"

text \<open>An instance for evaluation: ASCII only, with a digest that keeps its input.\<close>

definition ascii_golib :: golib where
  "ascii_golib = \<lparr>unicode_ToLower = id, unicode_ToUpper = id,
     strconv_Quote = (\<lambda>s. CHR 0x22 # s @ [CHR 0x22]), Duration_String = (\<lambda>_. []),
     Format_RFC3339 = (\<lambda>_. []), sha256_hex = (\<lambda>s. CHR ''h'' # s),
     Seconds_uint64 = (\<lambda>d. of_int (d div 1000000000))\<rparr>"

section \<open>Bytes and UTF-8\<close>

abbreviation byte :: "char \<Rightarrow> int" where
  "byte c \<equiv> of_char c"

lemma byte_range [simp]: "0 \<le> byte c" "byte c < 256"
  using pos_mod_sign [of 256 "byte c"] pos_mod_bound [of 256 "byte c"] of_char_mod_256 [of c, where 'a = int]
  by simp_all

lemma byte_inject: "byte c = byte d \<longleftrightarrow> c = d"
  by simp

lemma byte_char_of: "0 \<le> n \<Longrightarrow> n < 256 \<Longrightarrow> byte (char_of n) = n"
  using take_bit_int_eq_self [of n 8] by (simp add: of_char_of take_bit_eq_mod)

definition is_ascii :: "string \<Rightarrow> bool" where
  "is_ascii s \<longleftrightarrow> (\<forall>c \<in> set s. byte c < 128)"

lemma is_ascii_simps [simp]:
  "is_ascii []"
  "is_ascii (c # s) \<longleftrightarrow> byte c < 128 \<and> is_ascii s"
  "is_ascii (s @ t) \<longleftrightarrow> is_ascii s \<and> is_ascii t"
  by (auto simp: is_ascii_def)

text \<open>\<open>utf8.RuneStart\<close>: the byte is not a continuation byte.\<close>

definition cont :: "int \<Rightarrow> bool" where
  "cont b \<longleftrightarrow> 0x80 \<le> b \<and> b \<le> 0xBF"

definition RuneStart :: "char \<Rightarrow> bool" where
  "RuneStart c \<longleftrightarrow> \<not> cont (byte c)"

definition RuneError :: int where
  "RuneError = 0xFFFD"

text \<open>The byte at an offset, 0 (never a continuation byte) beyond the end.\<close>

definition byte_at :: "string \<Rightarrow> nat \<Rightarrow> int" where
  "byte_at s k = (if k < length s then byte (s ! k) else 0)"

text \<open>
  \<open>utf8.DecodeRuneInString\<close>: the first rune and the number of bytes it takes; an invalid
  encoding is \<open>RuneError\<close> of width 1, the empty string \<open>RuneError\<close> of width 0.
\<close>

definition DecodeRune :: "string \<Rightarrow> int \<times> nat" where
  "DecodeRune s =
     (let b0 = byte_at s 0; b1 = byte_at s 1; b2 = byte_at s 2; b3 = byte_at s 3 in
      if s = [] then (RuneError, 0)
      else if b0 < 0x80 then (b0, 1)
      else if 0xC2 \<le> b0 \<and> b0 \<le> 0xDF \<and> cont b1 then ((b0 - 0xC0) * 64 + (b1 - 0x80), 2)
      else if 0xE0 \<le> b0 \<and> b0 \<le> 0xEF \<and> cont b1 \<and> cont b2
        \<and> (b0 = 0xE0 \<longrightarrow> 0xA0 \<le> b1) \<and> (b0 = 0xED \<longrightarrow> b1 \<le> 0x9F)
        then ((b0 - 0xE0) * 4096 + (b1 - 0x80) * 64 + (b2 - 0x80), 3)
      else if 0xF0 \<le> b0 \<and> b0 \<le> 0xF4 \<and> cont b1 \<and> cont b2 \<and> cont b3
        \<and> (b0 = 0xF0 \<longrightarrow> 0x90 \<le> b1) \<and> (b0 = 0xF4 \<longrightarrow> b1 \<le> 0x8F)
        then ((b0 - 0xF0) * 262144 + (b1 - 0x80) * 4096 + (b2 - 0x80) * 64 + (b3 - 0x80), 4)
      else (RuneError, 1))"

lemma DecodeRune_width: "s \<noteq> [] \<Longrightarrow> DecodeRune s = (r, w) \<Longrightarrow> 0 < w \<and> w \<le> length s"
proof -
  have at: "cont (byte_at s k) \<Longrightarrow> k < length s" for k
    by (auto simp: byte_at_def cont_def split: if_splits)
  assume "s \<noteq> []" "DecodeRune s = (r, w)"
  then show "0 < w \<and> w \<le> length s"
    using at [of 1] at [of 2] at [of 3]
    by (auto simp: DecodeRune_def Let_def Suc_le_eq split: if_splits)
qed

lemma DecodeRune_ascii [simp]: "byte c < 128 \<Longrightarrow> DecodeRune (c # s) = (byte c, 1)"
  by (simp add: DecodeRune_def byte_at_def)

function runes :: "string \<Rightarrow> int list" where
  "runes s = (if s = [] then [] else fst (DecodeRune s) # runes (drop (snd (DecodeRune s)) s))"
  by pat_completeness auto
termination
proof (relation "measure length", goal_cases)
  case (2 s)
  then show ?case
    using DecodeRune_width [of s "fst (DecodeRune s)" "snd (DecodeRune s)"]
    by (cases s) auto
qed simp

declare runes.simps [simp del]

lemma runes_Nil [simp]: "runes [] = []"
  by (simp add: runes.simps)

lemma runes_ascii_Cons [simp]: "byte c < 128 \<Longrightarrow> runes (c # s) = byte c # runes s"
  by (simp add: runes.simps [of "c # s"])

text \<open>\<open>utf8.AppendRune\<close>: surrogates and values out of range are written as \<open>RuneError\<close>.\<close>

definition encode_rune :: "int \<Rightarrow> string" where
  "encode_rune r0 =
     (let r = (if r0 < 0 \<or> r0 > 0x10FFFF \<or> 0xD800 \<le> r0 \<and> r0 \<le> 0xDFFF then RuneError else r0) in
      if r < 0x80 then [char_of r]
      else if r < 0x800 then [char_of (0xC0 + r div 64), char_of (0x80 + r mod 64)]
      else if r < 0x10000 then
        [char_of (0xE0 + r div 4096), char_of (0x80 + r div 64 mod 64), char_of (0x80 + r mod 64)]
      else [char_of (0xF0 + r div 262144), char_of (0x80 + r div 4096 mod 64),
            char_of (0x80 + r div 64 mod 64), char_of (0x80 + r mod 64)])"

definition of_runes :: "int list \<Rightarrow> string" where
  "of_runes rs = concat (map encode_rune rs)"

text \<open>\<open>strings.Map\<close> with a mapping that drops no rune.\<close>

definition strings_Map :: "(int \<Rightarrow> int) \<Rightarrow> string \<Rightarrow> string" where
  "strings_Map f s = of_runes (map f (runes s))"

function valid_utf8 :: "string \<Rightarrow> bool" where
  "valid_utf8 s =
     (if s = [] then True
      else if DecodeRune s = (RuneError, 1) then False
      else valid_utf8 (drop (snd (DecodeRune s)) s))"
  by pat_completeness auto
termination
proof (relation "measure length", goal_cases)
  case (2 s)
  then show ?case
    using DecodeRune_width [of s "fst (DecodeRune s)" "snd (DecodeRune s)"]
    by (cases s) auto
qed simp

declare valid_utf8.simps [simp del]

lemma valid_utf8_Nil [simp]: "valid_utf8 []"
  by (simp add: valid_utf8.simps)

lemma valid_utf8_ascii_Cons [simp]: "byte c < 128 \<Longrightarrow> valid_utf8 (c # s) = valid_utf8 s"
  by (subst valid_utf8.simps) (simp add: RuneError_def)

lemma valid_utf8_ascii: "is_ascii s \<Longrightarrow> valid_utf8 s"
  by (induction s) auto

subsection \<open>Cutting valid UTF-8 at the start of a rune\<close>

text \<open>A decoded rune depends on its own bytes only, and its later bytes are continuation bytes.\<close>

lemma DecodeRune_local:
  assumes "DecodeRune s = (r, w)" and "(r, w) \<noteq> (RuneError, 1)" and "s \<noteq> []"
    and "w \<le> length t" and "\<And>k. k < w \<Longrightarrow> byte_at t k = byte_at s k"
  shows "DecodeRune t = (r, w)"
proof -
  have "0 < w" using DecodeRune_width [OF assms(3,1)] by simp
  then have t: "t \<noteq> []" and b0: "byte_at t 0 = byte_at s 0" using assms(4,5) by auto
  have b1: "byte_at t 1 = byte_at s 1" if "1 < w" using that assms(5) by simp
  have b2: "byte_at t 2 = byte_at s 2" if "2 < w" using that assms(5) by simp
  have b3: "byte_at t 3 = byte_at s 3" if "3 < w" using that assms(5) by simp
  show ?thesis
    using assms(1-3) t b0 b1 b2 b3
    by (auto simp: DecodeRune_def Let_def split: if_splits)
qed

lemma DecodeRune_cont:
  assumes "DecodeRune s = (r, w)" and "s \<noteq> []" and "0 < k" and "k < w"
  shows "cont (byte_at s k)"
proof -
  have "w \<le> 4" using assms(1) by (auto simp: DecodeRune_def Let_def split: if_splits)
  then consider "k = 1" | "k = 2" | "k = 3" using assms(3,4) by linarith
  then show ?thesis
    using assms(1,2,4) by cases (auto simp: DecodeRune_def Let_def split: if_splits)
qed

text \<open>A position where a rune of the text may begin: the end, or a byte that starts a rune.\<close>

definition rune_boundary :: "string \<Rightarrow> nat \<Rightarrow> bool" where
  "rune_boundary s k \<longleftrightarrow> \<not> cont (byte_at s k)"

lemma byte_at_drop: "byte_at (drop n s) k = byte_at s (n + k)"
  by (auto simp: byte_at_def)

lemma byte_at_take: "k < n \<Longrightarrow> byte_at (take n s) k = byte_at s k"
  by (auto simp: byte_at_def)

lemma valid_utf8_cut:
  "valid_utf8 s \<Longrightarrow> rune_boundary s k \<Longrightarrow> valid_utf8 (take k s) \<and> valid_utf8 (drop k s)"
proof (induction s arbitrary: k rule: valid_utf8.induct)
  case (1 s)
  show ?case
  proof (cases "s = [] \<or> k = 0")
    case True
    then show ?thesis using "1.prems" by auto
  next
    case False
    obtain r w where d: "DecodeRune s = (r, w)" by (cases "DecodeRune s")
    have ok: "(r, w) \<noteq> (RuneError, 1)" and v: "valid_utf8 (drop w s)"
      using "1.prems"(1) False d by (auto simp: valid_utf8.simps [of s] split: if_splits)
    have w: "0 < w" "w \<le> length s" using DecodeRune_width [OF _ d] False by auto
    have "w \<le> k"
      using DecodeRune_cont [OF d] False "1.prems"(2)
      by (metis linorder_not_le rune_boundary_def not_gr_zero)
    define j where "j = k - w"
    have k: "k = w + j" using \<open>w \<le> k\<close> by (simp add: j_def)
    have rb: "rune_boundary (drop w s) j"
      using "1.prems"(2) by (simp add: rune_boundary_def byte_at_drop k)
    have IH: "valid_utf8 (take j (drop w s)) \<and> valid_utf8 (drop j (drop w s))"
      using "1.IH" [of j] False d ok v rb by auto
    have dt: "DecodeRune (take k s) = (r, w)"
      using DecodeRune_local [OF d ok, of "take k s"] False w \<open>w \<le> k\<close>
      by (auto simp: byte_at_take)
    have "take k s \<noteq> []" using False by auto
    moreover have "drop w (take k s) = take j (drop w s)"
      by (simp add: k take_drop add.commute)
    ultimately have "valid_utf8 (take k s)"
      using dt ok IH by (subst valid_utf8.simps) auto
    moreover have "valid_utf8 (drop k s)"
      using IH by (simp add: k add.commute)
    ultimately show ?thesis by simp
  qed
qed

text \<open>In valid UTF-8 at most three continuation bytes follow a rune start.\<close>

lemma valid_utf8_first: "valid_utf8 s \<Longrightarrow> rune_boundary s 0"
proof (cases "s = []")
  case False
  assume "valid_utf8 s"
  then have "DecodeRune s \<noteq> (RuneError, 1)"
    using False by (auto simp: valid_utf8.simps [of s] split: if_splits)
  then show ?thesis
    using False by (auto simp: DecodeRune_def Let_def rune_boundary_def cont_def split: if_splits)
qed (simp add: rune_boundary_def byte_at_def cont_def)

lemma valid_utf8_boundary_near:
  "valid_utf8 s \<Longrightarrow> k \<le> length s \<Longrightarrow> \<exists>j \<le> k. k < j + 4 \<and> rune_boundary s j"
proof (induction s arbitrary: k rule: valid_utf8.induct)
  case (1 s)
  show ?case
  proof (cases "s = []")
    case True
    then show ?thesis using "1.prems" by (auto simp: rune_boundary_def byte_at_def cont_def)
  next
    case False
    obtain r w where d: "DecodeRune s = (r, w)" by (cases "DecodeRune s")
    have ok: "(r, w) \<noteq> (RuneError, 1)" and v: "valid_utf8 (drop w s)"
      using "1.prems"(1) False d by (auto simp: valid_utf8.simps [of s] split: if_splits)
    have w4: "w \<le> 4" using d by (auto simp: DecodeRune_def Let_def split: if_splits)
    show ?thesis
    proof (cases "k < w")
      case True
      then show ?thesis using w4 valid_utf8_first [OF "1.prems"(1)] by (intro exI [of _ 0]) auto
    next
      case False
      then obtain j where "j \<le> k - w" "k - w < j + 4" "rune_boundary (drop w s) j"
        using "1.IH" [of "k - w"] \<open>s \<noteq> []\<close> d ok v "1.prems"(2)
        by (auto simp: diff_le_mono)
      then show ?thesis
        using False by (intro exI [of _ "w + j"]) (auto simp: rune_boundary_def byte_at_drop)
    qed
  qed
qed

end
