(* ===== verification/Go_Text.thy ===== *)
theory Go_Text
  imports Go_Strings
begin

text \<open>
  Packages \<open>strings\<close>, \<open>strconv\<close> and \<open>errors\<close> as the program uses them: case conversion,
  trimming, splitting, searching, replacing, decimal integers, and error values with the text
  their \<open>Error\<close> method gives.
\<close>

section \<open>Case conversion\<close>

definition lower_byte :: "char \<Rightarrow> char" where
  "lower_byte c = (if 65 \<le> byte c \<and> byte c \<le> 90 then char_of (byte c + 32) else c)"

definition upper_byte :: "char \<Rightarrow> char" where
  "upper_byte c = (if 97 \<le> byte c \<and> byte c \<le> 122 then char_of (byte c - 32) else c)"

text \<open>\<open>unicode.ToLower\<close> and \<open>unicode.ToUpper\<close>: ASCII by arithmetic, other runes by table.\<close>

definition lower_rune :: "golib \<Rightarrow> int \<Rightarrow> int" where
  "lower_rune L r = (if r < 128 then (if 65 \<le> r \<and> r \<le> 90 then r + 32 else r) else unicode_ToLower L r)"

definition upper_rune :: "golib \<Rightarrow> int \<Rightarrow> int" where
  "upper_rune L r = (if r < 128 then (if 97 \<le> r \<and> r \<le> 122 then r - 32 else r) else unicode_ToUpper L r)"

text \<open>\<open>strings.ToLower\<close> and \<open>strings.ToUpper\<close>, with their fast path for ASCII.\<close>

definition ToLower :: "golib \<Rightarrow> string \<Rightarrow> string" where
  "ToLower L s = (if is_ascii s then map lower_byte s else strings_Map (lower_rune L) s)"

definition ToUpper :: "golib \<Rightarrow> string \<Rightarrow> string" where
  "ToUpper L s = (if is_ascii s then map upper_byte s else strings_Map (upper_rune L) s)"

text \<open>Bytes that lowering leaves alone.\<close>

definition lower_ascii :: "string \<Rightarrow> bool" where
  "lower_ascii s \<longleftrightarrow> (\<forall>c \<in> set s. byte c < 128 \<and> \<not> (65 \<le> byte c \<and> byte c \<le> 90))"

lemma lower_ascii_simps [simp]:
  "lower_ascii []"
  "lower_ascii (c # s) \<longleftrightarrow> byte c < 128 \<and> \<not> (65 \<le> byte c \<and> byte c \<le> 90) \<and> lower_ascii s"
  "lower_ascii (s @ t) \<longleftrightarrow> lower_ascii s \<and> lower_ascii t"
  by (auto simp: lower_ascii_def)

lemma ToLower_id [go_simps]: "lower_ascii s \<Longrightarrow> ToLower L s = s"
  by (auto simp: ToLower_def lower_ascii_def is_ascii_def lower_byte_def intro!: map_idI)

lemma byte_lower_byte: "byte (lower_byte c) = (if 65 \<le> byte c \<and> byte c \<le> 90 then byte c + 32 else byte c)"
  by (simp add: lower_byte_def byte_char_of)

lemma lower_ascii_ToLower: "is_ascii s \<Longrightarrow> lower_ascii (ToLower L s)"
  by (auto simp: ToLower_def lower_ascii_def is_ascii_def byte_lower_byte)

text \<open>
  A prefix of an upper-cased string whose bytes are ASCII, and which no other rune upper-cases
  to, comes from as many ASCII bytes.
\<close>

lemma encode_rune_ascii: "0 \<le> r \<Longrightarrow> r < 128 \<Longrightarrow> encode_rune r = [char_of r]"
  by (simp add: encode_rune_def)

lemma encode_rune_hd:
  assumes "\<not> (0 \<le> r \<and> r < 128)"
  shows "encode_rune r \<noteq> [] \<and> 128 \<le> byte (hd (encode_rune r))"
proof -
  have "byte (char_of (0xC0 + q)) = 0xC0 + q" if "0 \<le> q" "q < 32" for q :: int
    using that by (intro byte_char_of) auto
  moreover have "byte (char_of (0xE0 + q)) = 0xE0 + q" if "0 \<le> q" "q < 16" for q :: int
    using that by (intro byte_char_of) auto
  moreover have "byte (char_of (0xF0 + q)) = 0xF0 + q" if "0 \<le> q" "q < 8" for q :: int
    using that by (intro byte_char_of) auto
  ultimately show ?thesis
    using assms by (auto simp: encode_rune_def Let_def RuneError_def)
qed

lemma strings_Map_ascii_prefix:
  assumes "\<And>r. r \<ge> 128 \<Longrightarrow> f r \<notin> byte ` set p"
    and "\<And>r. 0 \<le> r \<Longrightarrow> r < 128 \<Longrightarrow> 0 \<le> f r \<and> f r < 128"
    and "is_ascii p" and "strings_Map f s = p @ q"
  shows "length p \<le> length s \<and> is_ascii (take (length p) s)"
  using assms(1,3,4)
proof (induction p arbitrary: s)
  case (Cons c p)
  have "s \<noteq> []" using Cons.prems by (auto simp: strings_Map_def of_runes_def)
  obtain r w where d: "DecodeRune s = (r, w)" by (cases "DecodeRune s")
  have split: "strings_Map f s = encode_rune (f r) @ strings_Map f (drop w s)"
    using \<open>s \<noteq> []\<close> d by (simp add: strings_Map_def of_runes_def runes.simps [of s])
  have low: "0 \<le> f r \<and> f r < 128"
  proof (rule ccontr)
    assume "\<not> (0 \<le> f r \<and> f r < 128)"
    then have "byte c \<ge> 128"
      using encode_rune_hd [of "f r"] Cons.prems(3) split by (cases "encode_rune (f r)") auto
    then show False using Cons.prems(2) by simp
  qed
  then have enc: "encode_rune (f r) = [char_of (f r)]" by (simp add: encode_rune_ascii)
  then have c: "c = char_of (f r)" and rest: "strings_Map f (drop w s) = p @ q"
    using split Cons.prems(3) by auto
  have "byte c = f r" using c low by (simp add: byte_char_of)
  then have "r < 128" using Cons.prems(1) [of r] by (metis image_eqI linorder_not_le list.set_intros(1))
  then have w: "w = 1" and b: "byte (hd s) < 128"
    using d \<open>s \<noteq> []\<close>
    by (auto simp: DecodeRune_def Let_def RuneError_def byte_at_def cont_def hd_conv_nth split: if_splits)
  have "length p \<le> length (drop w s) \<and> is_ascii (take (length p) (drop w s))"
    by (rule Cons.IH) (use Cons.prems rest in auto)
  then show ?case using w b \<open>s \<noteq> []\<close> by (cases s) auto
qed simp

section \<open>Trimming\<close>

text \<open>
  \<open>strings.TrimSpace\<close> removes Unicode white space at both ends. The white-space runes are few,
  so they are listed by their encodings; UTF-8 is self-synchronising, so the first (last) rune
  of a string is white space exactly when the string starts (ends) with one of them.
\<close>

definition space_seqs :: "string list" where
  "space_seqs =
     [[CHR 0x20], [CHR 0x0A], [CHR 0x0D], [CHR 0x09], [CHR 0x0B], [CHR 0x0C],
      [CHR 0xC2, CHR 0x85], [CHR 0xC2, CHR 0xA0], [CHR 0xE1, CHR 0x9A, CHR 0x80],
      [CHR 0xE2, CHR 0x80, CHR 0x80], [CHR 0xE2, CHR 0x80, CHR 0x81], [CHR 0xE2, CHR 0x80, CHR 0x82],
      [CHR 0xE2, CHR 0x80, CHR 0x83], [CHR 0xE2, CHR 0x80, CHR 0x84], [CHR 0xE2, CHR 0x80, CHR 0x85],
      [CHR 0xE2, CHR 0x80, CHR 0x86], [CHR 0xE2, CHR 0x80, CHR 0x87], [CHR 0xE2, CHR 0x80, CHR 0x88],
      [CHR 0xE2, CHR 0x80, CHR 0x89], [CHR 0xE2, CHR 0x80, CHR 0x8A], [CHR 0xE2, CHR 0x80, CHR 0xA8],
      [CHR 0xE2, CHR 0x80, CHR 0xA9], [CHR 0xE2, CHR 0x80, CHR 0xAF], [CHR 0xE2, CHR 0x81, CHR 0x9F],
      [CHR 0xE3, CHR 0x80, CHR 0x80]]"

text \<open>The width of the first listed sequence the string starts with, 0 for none.\<close>

definition seq_width :: "string list \<Rightarrow> string \<Rightarrow> nat" where
  "seq_width qs s =
     (case List.find (\<lambda>q. q \<noteq> [] \<and> take (length q) s = q) qs of None \<Rightarrow> 0 | Some q \<Rightarrow> length q)"

lemma seq_width_le: "seq_width qs s \<le> length s"
  by (auto simp: seq_width_def find_Some_iff split: option.splits) (metis length_take min.cobounded1)

lemma seq_width_0: "seq_width qs s = 0 \<longleftrightarrow> (\<forall>q \<in> set qs. q \<noteq> [] \<longrightarrow> take (length q) s \<noteq> q)"
  by (auto simp: seq_width_def find_None_iff split: option.splits dest: find_Some_iff [THEN iffD1])

function trim_seqs :: "string list \<Rightarrow> string \<Rightarrow> string" where
  "trim_seqs qs s = (if seq_width qs s = 0 then s else trim_seqs qs (drop (seq_width qs s) s))"
  by pat_completeness auto
termination
proof (relation "measure (\<lambda>(qs, s). length s)", goal_cases)
  case (2 qs s)
  then show ?case using seq_width_le [of qs s] by simp
qed simp

declare trim_seqs.simps [simp del]

definition TrimSpace :: "string \<Rightarrow> string" where
  "TrimSpace s = rev (trim_seqs (map rev space_seqs) (rev (trim_seqs space_seqs s)))"

text \<open>\<open>strings.Trim\<close> with an ASCII cutset.\<close>

definition Trim :: "string \<Rightarrow> string \<Rightarrow> string" where
  "Trim s cutset = rev (dropWhile (\<lambda>c. c \<in> set cutset) (rev (dropWhile (\<lambda>c. c \<in> set cutset) s)))"

lemma trim_seqs_width [simp]: "seq_width qs (trim_seqs qs s) = 0"
  by (induction qs s rule: trim_seqs.induct) (metis trim_seqs.simps)

lemma trim_seqs_id: "seq_width qs s = 0 \<Longrightarrow> trim_seqs qs s = s"
  by (subst trim_seqs.simps) simp

lemma trim_seqs_drop: "\<exists>k. trim_seqs qs s = drop k s"
proof (induction qs s rule: trim_seqs.induct)
  case (1 qs s)
  show ?case
  proof (cases "seq_width qs s = 0")
    case True
    then show ?thesis by (intro exI [of _ 0]) (simp add: trim_seqs_id)
  next
    case False
    with 1 obtain k where "trim_seqs qs (drop (seq_width qs s) s) = drop k (drop (seq_width qs s) s)"
      by blast
    with False show ?thesis by (subst trim_seqs.simps) auto
  qed
qed

lemma rev_drop_rev: "rev (drop k (rev t)) = take (length t - k) t"
  by (simp add: rev_drop)

lemma seq_width_prefix: "seq_width qs (s @ t) = 0 \<Longrightarrow> seq_width qs s = 0"
  unfolding seq_width_0
proof (intro ballI impI notI)
  fix q assume a: "\<forall>q \<in> set qs. q \<noteq> [] \<longrightarrow> take (length q) (s @ t) \<noteq> q"
    and q: "q \<in> set qs" "q \<noteq> []" "take (length q) s = q"
  then have "length q \<le> length s" by (metis length_take min.cobounded1)
  then show False using a q by auto
qed

lemma TrimSpace_width: "seq_width space_seqs (TrimSpace s) = 0"
proof -
  obtain k where "trim_seqs (map rev space_seqs) (rev (trim_seqs space_seqs s)) = drop k (rev (trim_seqs space_seqs s))"
    using trim_seqs_drop by blast
  then have "TrimSpace s = take (length (trim_seqs space_seqs s) - k) (trim_seqs space_seqs s)"
    by (simp add: TrimSpace_def rev_drop)
  moreover have "seq_width space_seqs (trim_seqs space_seqs s) = 0" by simp
  ultimately show ?thesis
    by (metis append_take_drop_id seq_width_prefix)
qed

lemma TrimSpace_id [go_simps]:
  "seq_width space_seqs s = 0 \<Longrightarrow> seq_width (map rev space_seqs) (rev s) = 0 \<Longrightarrow> TrimSpace s = s"
  by (simp add: TrimSpace_def trim_seqs_id)

lemma TrimSpace_idem [simp]: "TrimSpace (TrimSpace s) = TrimSpace s"
  by (rule TrimSpace_id) (simp add: TrimSpace_width, simp add: TrimSpace_def)

lemma TrimSpace_sublist: "\<exists>a b. s = a @ TrimSpace s @ b"
proof -
  obtain j where j: "trim_seqs space_seqs s = drop j s" using trim_seqs_drop by blast
  obtain k where k: "trim_seqs (map rev space_seqs) (rev (drop j s)) = drop k (rev (drop j s))"
    using trim_seqs_drop by blast
  have "TrimSpace s = take (length (drop j s) - k) (drop j s)"
    unfolding TrimSpace_def j k by (rule rev_drop_rev)
  then show ?thesis
    by (intro exI [of _ "take j s"] exI [of _ "drop (length (drop j s) - k) (drop j s)"]) (metis append_take_drop_id)
qed

lemma set_TrimSpace: "set (TrimSpace s) \<subseteq> set s"
  using TrimSpace_sublist [of s] by (metis Un_iff set_append subsetI)

lemma TrimSpace_Nil [simp]: "TrimSpace [] = []"
  using TrimSpace_sublist [of "[]"] by simp

text \<open>Graphic ASCII: the bytes that are neither white space nor part of a longer sequence.\<close>

definition graphic :: "char \<Rightarrow> bool" where
  "graphic c \<longleftrightarrow> 33 \<le> byte c \<and> byte c < 128"

lemma seq_width_graphic:
  assumes "graphic c"
  shows "seq_width space_seqs (c # s) = 0" and "seq_width (map rev space_seqs) (c # s) = 0"
  using assms by (auto simp: seq_width_0 space_seqs_def graphic_def)

lemma TrimSpace_graphic:
  assumes "s = [] \<or> graphic (hd s) \<and> graphic (last s)"
  shows "TrimSpace s = s"
proof (cases "s = []")
  case False
  then have g: "graphic (hd s)" "graphic (last s)" using assms by auto
  have "seq_width space_seqs s = 0"
    using False g(1) by (cases s) (simp_all add: seq_width_graphic)
  moreover have "seq_width (map rev space_seqs) (rev s) = 0"
    using False g(2) by (cases s rule: rev_cases) (simp_all add: seq_width_graphic)
  ultimately show ?thesis by (rule TrimSpace_id)
qed simp

section \<open>Normalisation\<close>

text \<open>
  \<open>strings.TrimSpace(strings.ToLower(s))\<close>, which the program applies to addresses, alias names
  and alias targets.
\<close>

definition normalize :: "golib \<Rightarrow> string \<Rightarrow> string" where
  "normalize L s = TrimSpace (ToLower L s)"

lemma normalize_id [go_simps]:
  "lower_ascii s \<Longrightarrow> s = [] \<or> graphic (hd s) \<and> graphic (last s) \<Longrightarrow> normalize L s = s"
  by (simp add: normalize_def ToLower_id TrimSpace_graphic)

lemma TrimSpace_normalize [simp]: "TrimSpace (normalize L s) = normalize L s"
  by (simp add: normalize_def)

end
