(* ===== verification/Go_Search.thy ===== *)
theory Go_Search
  imports Go_Text
begin

text \<open>
  Prefixes, searching, splitting, joining and replacing on byte strings.
\<close>

section \<open>Prefixes, suffixes, containment\<close>

definition HasPrefix :: "string \<Rightarrow> string \<Rightarrow> bool" where
  "HasPrefix s p \<longleftrightarrow> take (length p) s = p"

definition HasSuffix :: "string \<Rightarrow> string \<Rightarrow> bool" where
  "HasSuffix s p \<longleftrightarrow> HasPrefix (rev s) (rev p)"

definition TrimPrefix :: "string \<Rightarrow> string \<Rightarrow> string" where
  "TrimPrefix s p = (if HasPrefix s p then drop (length p) s else s)"

fun Contains :: "string \<Rightarrow> string \<Rightarrow> bool" where
  "Contains [] p \<longleftrightarrow> p = []"
| "Contains (c # s) p \<longleftrightarrow> HasPrefix (c # s) p \<or> Contains s p"

lemma HasPrefix_append [simp]: "HasPrefix (p @ s) p"
  by (simp add: HasPrefix_def)

lemma HasPrefix_iff: "HasPrefix s p \<longleftrightarrow> (\<exists>t. s = p @ t)"
  by (metis HasPrefix_append HasPrefix_def append_take_drop_id)

lemma HasPrefix_length: "HasPrefix s p \<Longrightarrow> length p \<le> length s"
  by (auto simp: HasPrefix_iff)

lemma HasSuffix_iff: "HasSuffix s p \<longleftrightarrow> (\<exists>t. s = t @ p)"
  by (simp add: HasSuffix_def HasPrefix_iff) (metis rev_append rev_rev_ident)

lemma TrimPrefix_append [simp]: "TrimPrefix (p @ s) p = s"
  by (simp add: TrimPrefix_def)

lemma Contains_single: "Contains s [c] \<longleftrightarrow> c \<in> set s"
  by (induction s) (auto simp: HasPrefix_def)

section \<open>Searching for a byte\<close>

text \<open>\<open>strings.Index(s, c)\<close> for a one-byte \<open>c\<close>: \<open>None\<close> for the code's -1.\<close>

fun IndexByte :: "string \<Rightarrow> char \<Rightarrow> nat option" where
  "IndexByte [] c = None"
| "IndexByte (x # s) c = (if x = c then Some 0 else map_option Suc (IndexByte s c))"

lemma IndexByte_None: "IndexByte s c = None \<longleftrightarrow> c \<notin> set s"
  by (induction s) auto

lemma IndexByte_Some:
  "IndexByte s c = Some i \<Longrightarrow> i < length s \<and> s ! i = c \<and> c \<notin> set (take i s)"
  by (induction s arbitrary: i) (auto split: if_splits)

lemma IndexByte_append [simp]: "c \<notin> set a \<Longrightarrow> IndexByte (a @ c # b) c = Some (length a)"
  by (induction a) auto

text \<open>\<open>strings.LastIndexAny\<close> for a set of ASCII bytes.\<close>

fun LastIndexAny :: "string \<Rightarrow> string \<Rightarrow> nat option" where
  "LastIndexAny [] cs = None"
| "LastIndexAny (x # s) cs =
     (case LastIndexAny s cs of Some i \<Rightarrow> Some (Suc i) | None \<Rightarrow> if x \<in> set cs then Some 0 else None)"

lemma LastIndexAny_Some:
  "LastIndexAny s cs = Some i \<Longrightarrow> i < length s \<and> s ! i \<in> set cs"
  by (induction s arbitrary: i) (auto split: option.splits if_splits)

section \<open>Splitting and joining\<close>

text \<open>\<open>strings.Split\<close> for a one-byte separator.\<close>

fun Split :: "string \<Rightarrow> char \<Rightarrow> string list" where
  "Split [] c = [[]]"
| "Split (x # s) c =
     (if x = c then [] # Split s c
      else case Split s c of [] \<Rightarrow> [[x]] | p # ps \<Rightarrow> (x # p) # ps)"

fun Join :: "string list \<Rightarrow> string \<Rightarrow> string" where
  "Join [] sep = []"
| "Join [p] sep = p"
| "Join (p # q # ps) sep = p @ sep @ Join (q # ps) sep"

lemma Split_not_Nil [simp]: "Split s c \<noteq> []"
  by (cases s) (auto split: list.splits)

lemma Split_no_sep: "c \<notin> set s \<Longrightarrow> Split s c = [s]"
  by (induction s) auto

lemma Split_append_sep: "c \<notin> set a \<Longrightarrow> Split (a @ c # b) c = a # Split b c"
  by (induction a) (auto split: list.splits)

lemma Split_pieces: "p \<in> set (Split s c) \<Longrightarrow> c \<notin> set p"
  by (induction s arbitrary: p) (auto split: list.splits if_splits)

lemma Join_Cons: "ps \<noteq> [] \<Longrightarrow> Join (p # ps) sep = p @ sep @ Join ps sep"
  by (cases ps) auto

lemma Join_Split: "Join (Split s c) [c] = s"
proof (induction s)
  case (Cons x s)
  show ?case
  proof (cases "Split s c")
    case Nil
    then show ?thesis by simp
  next
    case (Cons p ps)
    with \<open>Join (Split s c) [c] = s\<close> show ?thesis by (cases ps) (auto simp: Join_Cons)
  qed
qed simp

lemma Split_two: "Split s c = [a, b] \<longleftrightarrow> s = a @ c # b \<and> c \<notin> set a \<and> c \<notin> set b"
proof
  assume "Split s c = [a, b]"
  then show "s = a @ c # b \<and> c \<notin> set a \<and> c \<notin> set b"
    using Join_Split [of s c] Split_pieces [of a s c] Split_pieces [of b s c] by auto
qed (auto simp: Split_append_sep Split_no_sep)

lemma append_sep_unique:
  "a @ c # b = a' @ c # b' \<Longrightarrow> c \<notin> set a' \<Longrightarrow> c \<notin> set b' \<Longrightarrow> a = a' \<and> b = b'"
proof (induction a arbitrary: a')
  case Nil
  then show ?case by (cases a') auto
next
  case (Cons x a)
  then show ?case by (cases a') auto
qed

text \<open>
  \<open>strings.Fields\<close>: the maximal runs of non-space, white space being as in \<open>TrimSpace\<close>. A
  white-space sequence begins with a byte that is never a continuation byte, so scanning
  bytewise finds the same separators as decoding runes.
\<close>

function fields_aux :: "string \<Rightarrow> string \<Rightarrow> string list" where
  "fields_aux cur s =
     (case s of
        [] \<Rightarrow> if cur = [] then [] else [rev cur]
      | c # t \<Rightarrow>
          (let w = seq_width space_seqs s in
           if w = 0 then fields_aux (c # cur) t
           else (if cur = [] then [] else [rev cur]) @ fields_aux [] (drop w s)))"
  by pat_completeness auto
termination
proof (relation "measure (\<lambda>(cur, s). length s)", goal_cases)
  case (3 cur s c t w)
  then show ?case using seq_width_le [of space_seqs s] by auto
qed auto

declare fields_aux.simps [simp del]

definition Fields :: "string \<Rightarrow> string list" where
  "Fields s = fields_aux [] s"

section \<open>Replacing\<close>

text \<open>
  \<open>strings.NewReplacer(...).Replace\<close>: at each position the first pair whose old string is a
  prefix of the rest is replaced, without rescanning.
\<close>

definition find_pair :: "(string \<times> string) list \<Rightarrow> string \<Rightarrow> (string \<times> string) option" where
  "find_pair ps s = List.find (\<lambda>(old, new). old \<noteq> [] \<and> HasPrefix s old) ps"

function Replace :: "(string \<times> string) list \<Rightarrow> string \<Rightarrow> string" where
  "Replace ps s =
     (case s of
        [] \<Rightarrow> []
      | c # t \<Rightarrow>
          (case find_pair ps s of
             None \<Rightarrow> c # Replace ps t
           | Some (old, new) \<Rightarrow> new @ Replace ps (drop (length old) s)))"
  by pat_completeness auto
termination
proof (relation "measure (\<lambda>(ps, s). length s)", goal_cases)
  case (3 ps s c t p old new)
  then show ?case
    by (auto simp: find_pair_def find_Some_iff)
qed auto

declare Replace.simps [simp del]

text \<open>\<open>strings.ReplaceAll(s, c, "")\<close> for a one-byte \<open>c\<close>.\<close>

definition remove_byte :: "string \<Rightarrow> char \<Rightarrow> string" where
  "remove_byte s c = filter (\<lambda>x. x \<noteq> c) s"

end
