(* ===== verification/Go_Conv.thy ===== *)
theory Go_Conv
  imports Go_Search
begin

text \<open>
  Package \<open>strconv\<close> (decimal integers), the formatting verbs \<open>%d\<close> and \<open>%x\<close>, and error values
  with their texts.
\<close>

section \<open>Error values\<close>

datatype num_error = ErrSyntax | ErrRange

record api_error =
  ae_Code :: string
  ae_Message :: string
  ae_Details :: string
  ae_StatusCode :: int

text \<open>
  \<open>WrapError before e after\<close> is \<open>fmt.Errorf\<close> with one \<open>%w\<close> verb. \<open>OSError notExist text\<close> is an
  error of the operating system.
\<close>

datatype error =
    ErrorString string
  | WrapError string error string
  | NumError string string num_error
  | QueueTimeoutError duration
  | APIError api_error
  | ContextCanceled
  | DeadlineExceeded
  | OSError bool string

type_synonym 'a result = "error + 'a"

definition num_error_text :: "num_error \<Rightarrow> string" where
  "num_error_text k = (case k of ErrSyntax \<Rightarrow> ''invalid syntax'' | ErrRange \<Rightarrow> ''value out of range'')"

section \<open>Decimal integers\<close>

definition is_digit :: "char \<Rightarrow> bool" where
  "is_digit c \<longleftrightarrow> 48 \<le> byte c \<and> byte c \<le> 57"

function format_nonneg :: "int \<Rightarrow> string" where
  "format_nonneg n =
     (if n < 10 then [char_of (48 + n)] else format_nonneg (n div 10) @ [char_of (48 + n mod 10)])"
  by pat_completeness auto
termination
  by (relation "measure nat") auto

declare format_nonneg.simps [simp del]

definition FormatInt :: "int \<Rightarrow> string" where
  "FormatInt n = (if n < 0 then CHR ''-'' # format_nonneg (- n) else format_nonneg n)"

text \<open>
  \<open>strconv.ParseUint\<close> reads digit by digit, and the first of an invalid digit and an overflow
  decides the error.
\<close>

fun parse_uint :: "int \<Rightarrow> string \<Rightarrow> num_error + int" where
  "parse_uint acc [] = Inr acc"
| "parse_uint acc (c # s) =
     (if \<not> is_digit c then Inl ErrSyntax
      else let n = acc * 10 + (byte c - 48) in
        if n \<ge> 2 ^ 64 then Inl ErrRange else parse_uint n s)"

definition ParseInt :: "string \<Rightarrow> string \<Rightarrow> int result" where
  "ParseInt fn s =
     (let (neg, t) =
        (case s of
           [] \<Rightarrow> (False, [])
         | c # r \<Rightarrow> if c = CHR ''+'' then (False, r) else if c = CHR ''-'' then (True, r) else (False, s))
      in if t = [] then Inl (NumError fn s ErrSyntax)
      else case parse_uint 0 t of
        Inl k \<Rightarrow> Inl (NumError fn s k)
      | Inr un \<Rightarrow>
          if \<not> neg \<and> un \<ge> 2 ^ 63 then Inl (NumError fn s ErrRange)
          else if neg \<and> un > 2 ^ 63 then Inl (NumError fn s ErrRange)
          else Inr (if neg then - un else un))"

abbreviation strconv_ParseInt :: "string \<Rightarrow> int result" where
  "strconv_ParseInt \<equiv> ParseInt ''ParseInt''"

abbreviation strconv_Atoi :: "string \<Rightarrow> int result" where
  "strconv_Atoi \<equiv> ParseInt ''Atoi''"

lemma digit_char:
  assumes "0 \<le> d" "d < 10"
  shows "is_digit (char_of (48 + d))" and "byte (char_of (48 + d)) = 48 + d"
proof -
  show "byte (char_of (48 + d)) = 48 + d" using assms by (intro byte_char_of) auto
  then show "is_digit (char_of (48 + d))" using assms by (simp add: is_digit_def)
qed

lemma format_nonneg_digits: "0 \<le> n \<Longrightarrow> c \<in> set (format_nonneg n) \<Longrightarrow> is_digit c"
proof (induction n rule: format_nonneg.induct)
  case (1 n)
  show ?case
  proof (cases "n < 10")
    case True
    then show ?thesis using "1.prems" digit_char(1) [of n] by (simp add: format_nonneg.simps [of n])
  next
    case False
    then show ?thesis
      using "1.prems" "1.IH" digit_char(1) [of "n mod 10"] by (auto simp: format_nonneg.simps [of n])
  qed
qed

lemma format_nonneg_not_Nil [simp]: "format_nonneg n \<noteq> []"
  by (subst format_nonneg.simps) simp

lemma FormatInt_not_Nil [simp]: "FormatInt n \<noteq> []"
  by (simp add: FormatInt_def)

lemma digit_graphic: "is_digit c \<Longrightarrow> graphic c"
  by (simp add: is_digit_def graphic_def)

lemma set_FormatInt: "c \<in> set (FormatInt n) \<Longrightarrow> is_digit c \<or> c = CHR ''-''"
  using format_nonneg_digits [of n] format_nonneg_digits [of "- n"]
  by (auto simp: FormatInt_def split: if_splits)

lemma FormatInt_graphic: "c \<in> set (FormatInt n) \<Longrightarrow> graphic c"
  using set_FormatInt digit_graphic by (fastforce simp: graphic_def)

lemma lower_ascii_FormatInt [simp]: "lower_ascii (FormatInt n)"
  using set_FormatInt by (fastforce simp: lower_ascii_def is_digit_def)

lemma parse_uint_append:
  "parse_uint acc (s @ t) = (case parse_uint acc s of Inl e \<Rightarrow> Inl e | Inr n \<Rightarrow> parse_uint n t)"
  by (induction acc s rule: parse_uint.induct) (auto simp: Let_def)

lemma parse_uint_format: "0 \<le> n \<Longrightarrow> n < 2 ^ 64 \<Longrightarrow> parse_uint 0 (format_nonneg n) = Inr n"
proof (induction n rule: format_nonneg.induct)
  case (1 n)
  show ?case
  proof (cases "n < 10")
    case True
    then show ?thesis
      using "1.prems" digit_char [of n] by (simp add: format_nonneg.simps [of n])
  next
    case False
    then have "parse_uint 0 (format_nonneg (n div 10)) = Inr (n div 10)"
      using "1.prems" by (intro "1.IH") auto
    then show ?thesis
      using False "1.prems" digit_char [of "n mod 10"]
      by (simp add: format_nonneg.simps [of n] parse_uint_append)
  qed
qed

theorem ParseInt_FormatInt: "in_int64 n \<Longrightarrow> ParseInt fn (FormatInt n) = Inr n"
proof -
  assume n: "in_int64 n"
  have digits: "is_digit (hd (format_nonneg \<bar>n\<bar>))"
    by (rule format_nonneg_digits [of "\<bar>n\<bar>"]) simp_all
  show ?thesis
  proof (cases "n < 0")
    case True
    then show ?thesis
      using n parse_uint_format [of "- n"] by (simp add: ParseInt_def FormatInt_def in_int64_def)
  next
    case False
    then obtain c s where cs: "format_nonneg n = c # s" by (cases "format_nonneg n") auto
    then have "c \<noteq> CHR ''+''" "c \<noteq> CHR ''-''" using digits False by (auto simp: is_digit_def)
    then show ?thesis
      using False n parse_uint_format [of n] cs by (simp add: ParseInt_def FormatInt_def in_int64_def)
  qed
qed

lemma parse_uint_bound: "parse_uint acc s = Inr n \<Longrightarrow> 0 \<le> acc \<Longrightarrow> 0 \<le> n"
  by (induction acc s rule: parse_uint.induct) (auto simp: Let_def is_digit_def split: if_splits)

lemma ParseInt_in_int64: "ParseInt fn s = Inr n \<Longrightarrow> in_int64 n"
  by (auto simp: ParseInt_def in_int64_def Let_def dest: parse_uint_bound
      split: if_splits sum.splits prod.splits list.splits)

section \<open>Hexadecimal\<close>

definition hex_digit :: "int \<Rightarrow> char" where
  "hex_digit d = (if d < 10 then char_of (48 + d) else char_of (87 + d))"

text \<open>The verb \<open>%x\<close> on a byte slice, and \<open>hex.EncodeToString\<close>.\<close>

definition hex_string :: "string \<Rightarrow> string" where
  "hex_string s = concat (map (\<lambda>c. [hex_digit (byte c div 16), hex_digit (byte c mod 16)]) s)"

lemma byte_hex_digit:
  assumes "0 \<le> d" "d < 16"
  shows "byte (hex_digit d) = (if d < 10 then 48 + d else 87 + d)"
proof (cases "d < 10")
  case True
  then show ?thesis using assms by (simp add: hex_digit_def byte_char_of del: of_char_of)
next
  case False
  then show ?thesis using assms by (simp add: hex_digit_def byte_char_of del: of_char_of)
qed

lemma hex_digit_inj:
  assumes "hex_digit a = hex_digit b" "0 \<le> a" "a < 16" "0 \<le> b" "b < 16"
  shows "a = b"
proof -
  have "byte (hex_digit a) = byte (hex_digit b)" by (rule arg_cong [OF assms(1)])
  then have "(if a < 10 then 48 + a else 87 + a) = (if b < 10 then 48 + b else 87 + b)"
    unfolding byte_hex_digit [OF assms(2,3)] byte_hex_digit [OF assms(4,5)] .
  then show ?thesis by (cases "a < 10"; cases "b < 10") simp_all
qed

lemma nibbles: "0 \<le> (b :: int) \<Longrightarrow> b < 256 \<Longrightarrow> 0 \<le> b div 16 \<and> b div 16 < 16 \<and> 0 \<le> b mod 16 \<and> b mod 16 < 16"
  by presburger

lemma hex_string_inj: "hex_string s = hex_string t \<Longrightarrow> s = t"
proof (induction s arbitrary: t)
  case Nil
  then show ?case by (cases t) (auto simp: hex_string_def)
next
  case (Cons c s)
  then obtain d u where t: "t = d # u" by (cases t) (auto simp: hex_string_def)
  have r: "0 \<le> byte x div 16" "byte x div 16 < 16" "0 \<le> byte x mod 16" "byte x mod 16 < 16" for x :: char
    using nibbles [OF byte_range, of x] by simp_all
  have "byte c div 16 = byte d div 16" "byte c mod 16 = byte d mod 16" "hex_string s = hex_string u"
    using Cons.prems r hex_digit_inj by (auto simp: t hex_string_def)
  then have "byte c = byte d" by (metis div_mult_mod_eq)
  then show ?case using Cons.IH \<open>hex_string s = hex_string u\<close> t by simp
qed

section \<open>Error texts\<close>

text \<open>
  The text of an API error: the parts that are not empty, or the status code
  (\<open>third_party/max-bot-api-client-go/api.go\<close>).
\<close>

definition APIError_Error :: "api_error \<Rightarrow> string" where
  "APIError_Error e =
     (let parts = filter (\<lambda>p. p \<noteq> []) [ae_Code e, ae_Message e, ae_Details e] in
      if parts = [] then ''max api error status='' @ FormatInt (ae_StatusCode e)
      else Join parts '': '')"

fun Error :: "golib \<Rightarrow> error \<Rightarrow> string" where
  "Error L (ErrorString s) = s"
| "Error L (WrapError a e b) = a @ Error L e @ b"
| "Error L (NumError fn s k) =
     ''strconv.'' @ fn @ '': parsing '' @ strconv_Quote L s @ '': '' @ num_error_text k"
| "Error L (QueueTimeoutError w) = ''max send queue timeout: waited '' @ Duration_String L w"
| "Error L (APIError e) = APIError_Error e"
| "Error L ContextCanceled = ''context canceled''"
| "Error L DeadlineExceeded = ''context deadline exceeded''"
| "Error L (OSError _ s) = s"

text \<open>\<open>errors.As\<close> for \<open>*maxbot.APIError\<close>: the first API error along the chain of wrapped errors.\<close>

fun As_APIError :: "error \<Rightarrow> api_error option" where
  "As_APIError (WrapError _ e _) = As_APIError e"
| "As_APIError (APIError a) = Some a"
| "As_APIError _ = None"

end
