(* ===== verification/Config.thy ===== *)
theory Config
  imports Go_Conv
begin

text \<open>
  \<open>internal/config/config.go\<close>: the configuration from the environment variables. \<open>os.Getenv\<close> is
  an argument, a function from names to values that is empty for an unset variable. Durations
  are multiplied in 64 bits as the code does.
\<close>

section \<open>Data\<close>

record Config =
  SMTPListenAddr :: string
  SMTPMaxMessageBytes :: int
  SMTPMaxSessions :: int
  SMTPAllowedDomain :: string
  AliasFilePath :: string
  AdminChatID :: int
  MaxSenderMode :: string
  MaxAPIBaseURL :: string
  MaxBotToken :: string
  MaxSendTimeout :: duration
  MaxSendRPS :: int
  MaxBurst :: int
  MaxQueueCapacity :: int
  MaxQueueWait :: duration
  RelayMaxRetries :: int
  RelayRetryDelay :: duration
  MetricsListenAddr :: string
  DLQEnabled :: bool
  DLQFilePath :: string
  DLQWorkerInterval :: duration
  DLQMaxRetries :: int
  DLQBaseDelay :: duration
  DLQMaxDelay :: duration

abbreviation Second :: duration where
  "Second \<equiv> 1000000000"

abbreviation Millisecond :: duration where
  "Millisecond \<equiv> 1000000"

section \<open>Reading a variable\<close>

type_synonym environment = "string \<Rightarrow> string"

definition getEnv :: "environment \<Rightarrow> string \<Rightarrow> string \<Rightarrow> string" where
  "getEnv env key def = (if env key \<noteq> [] then env key else def)"

definition getEnvInt :: "environment \<Rightarrow> string \<Rightarrow> int \<Rightarrow> int result" where
  "getEnvInt env key def =
     (let v = env key in
      if v = [] then Inr def
      else case strconv_Atoi v of
        Inl err \<Rightarrow> Inl (WrapError (key @ '' must be a valid integer: '') err [])
      | Inr n \<Rightarrow> Inr n)"

definition getEnvInt64 :: "environment \<Rightarrow> string \<Rightarrow> int \<Rightarrow> int result" where
  "getEnvInt64 env key def =
     (let v = env key in
      if v = [] then Inr def
      else case strconv_ParseInt v of
        Inl err \<Rightarrow> Inl (WrapError (key @ '' must be a valid integer: '') err [])
      | Inr n \<Rightarrow> Inr n)"

text \<open>\<open>strconv.ParseBool\<close>.\<close>

definition ParseBool :: "string \<Rightarrow> bool result" where
  "ParseBool s =
     (if s \<in> set [''1'', ''t'', ''T'', ''true'', ''TRUE'', ''True''] then Inr True
      else if s \<in> set [''0'', ''f'', ''F'', ''false'', ''FALSE'', ''False''] then Inr False
      else Inl (NumError ''ParseBool'' s ErrSyntax))"

definition getEnvBool :: "environment \<Rightarrow> string \<Rightarrow> bool \<Rightarrow> bool result" where
  "getEnvBool env key def =
     (let v = env key in
      if v = [] then Inr def
      else case ParseBool v of
        Inl err \<Rightarrow> Inl (WrapError (key @ '' must be a valid boolean: '') err [])
      | Inr b \<Rightarrow> Inr b)"

section \<open>Loading\<close>

text \<open>The early return of an error.\<close>

definition and_then :: "'a result \<Rightarrow> ('a \<Rightarrow> 'b result) \<Rightarrow> 'b result" where
  "and_then r f = (case r of Inl err \<Rightarrow> Inl err | Inr x \<Rightarrow> f x)"

text \<open>The checks on the finished record, in their order.\<close>

definition validate :: "Config \<Rightarrow> Config result" where
  "validate cfg =
     (if SMTPAllowedDomain cfg = [] then Inl (ErrorString ''SMTP_ALLOWED_RCPT_DOMAIN must not be empty'')
      else if SMTPMaxMessageBytes cfg \<le> 0 then Inl (ErrorString ''SMTP_MAX_MESSAGE_BYTES must be positive'')
      else if SMTPMaxSessions cfg \<le> 0 then Inl (ErrorString ''SMTP_MAX_CONCURRENT_SESSIONS must be positive'')
      else if MaxSenderMode cfg \<noteq> ''stub'' \<and> MaxSenderMode cfg \<noteq> ''botapi'' then Inl (ErrorString ''MAX_SENDER_MODE must be one of: stub, botapi'')
      else if MaxSenderMode cfg \<noteq> ''stub'' \<and> MaxBotToken cfg = [] then Inl (ErrorString (''MAX_BOT_TOKEN must not be empty when MAX_SENDER_MODE='' @ MaxSenderMode cfg))
      else if RelayMaxRetries cfg < 0 then Inl (ErrorString ''RELAY_MAX_RETRIES must be >= 0'')
      else if RelayRetryDelay cfg < 0 then Inl (ErrorString ''RELAY_RETRY_DELAY_MS must be >= 0'')
      else if AdminChatID cfg < 0 then Inl (ErrorString ''ADMIN_CHAT_ID must be >= 0'')
      else if MaxSendRPS cfg < 0 then Inl (ErrorString ''MAX_SEND_RPS must be >= 0'')
      else if MaxBurst cfg < 0 then Inl (ErrorString ''MAX_BURST must be >= 0'')
      else if MaxQueueCapacity cfg < 0 then Inl (ErrorString ''MAX_QUEUE_CAPACITY must be >= 0'')
      else if MaxQueueWait cfg < 0 then Inl (ErrorString ''MAX_QUEUE_WAIT_MS must be >= 0'')
      else if DLQWorkerInterval cfg < 0 then Inl (ErrorString ''DLQ_WORKER_INTERVAL_MS must be >= 0'')
      else if DLQMaxRetries cfg < 0 then Inl (ErrorString ''DLQ_MAX_RETRIES must be >= 0'')
      else if DLQBaseDelay cfg < 0 then Inl (ErrorString ''DLQ_BASE_DELAY_MS must be >= 0'')
      else if DLQMaxDelay cfg < 0 then Inl (ErrorString ''DLQ_MAX_DELAY_MS must be >= 0'')
      else Inr cfg)"

definition Load :: "environment \<Rightarrow> Config result" where
  "Load env =
     and_then (getEnvInt64 env ''SMTP_MAX_MESSAGE_BYTES'' (15 * 1024 * 1024)) (\<lambda>smtpMaxMessageBytes.
     and_then (getEnvInt env ''SMTP_MAX_CONCURRENT_SESSIONS'' 200) (\<lambda>smtpMaxSessions.
     and_then (getEnvInt env ''MAX_SEND_TIMEOUT_SEC'' 15) (\<lambda>maxSendTimeoutSec.
     and_then (getEnvInt env ''MAX_SEND_RPS'' 20) (\<lambda>maxSendRPS.
     and_then (getEnvInt env ''MAX_BURST'' 40) (\<lambda>maxBurst.
     and_then (getEnvInt env ''MAX_QUEUE_CAPACITY'' 200) (\<lambda>maxQueueCapacity.
     and_then (getEnvInt env ''MAX_QUEUE_WAIT_MS'' 1000) (\<lambda>maxQueueWaitMS.
     and_then (getEnvInt env ''RELAY_MAX_RETRIES'' 2) (\<lambda>relayMaxRetries.
     and_then (getEnvInt env ''RELAY_RETRY_DELAY_MS'' 300) (\<lambda>relayRetryDelayMS.
     and_then (getEnvInt64 env ''ADMIN_CHAT_ID'' 0) (\<lambda>adminChatID.
     and_then (getEnvBool env ''DLQ_ENABLED'' True) (\<lambda>dlqEnabled.
     and_then (getEnvInt env ''DLQ_WORKER_INTERVAL_MS'' 2000) (\<lambda>dlqWorkerIntervalMS.
     and_then (getEnvInt env ''DLQ_MAX_RETRIES'' 10) (\<lambda>dlqMaxRetries.
     and_then (getEnvInt env ''DLQ_BASE_DELAY_MS'' 1000) (\<lambda>dlqBaseDelayMS.
     and_then (getEnvInt env ''DLQ_MAX_DELAY_MS'' 300000) (\<lambda>dlqMaxDelayMS.
     validate \<lparr>
       SMTPListenAddr = getEnv env ''SMTP_LISTEN_ADDR'' '':25'',
       SMTPMaxMessageBytes = smtpMaxMessageBytes,
       SMTPMaxSessions = smtpMaxSessions,
       SMTPAllowedDomain = getEnv env ''SMTP_ALLOWED_RCPT_DOMAIN'' ''relay.local'',
       AliasFilePath = getEnv env ''ALIAS_FILE_PATH'' ''./config/aliases.json'',
       AdminChatID = adminChatID,
       MaxSenderMode = getEnv env ''MAX_SENDER_MODE'' ''stub'',
       MaxAPIBaseURL = getEnv env ''MAX_API_BASE_URL'' [],
       MaxBotToken = getEnv env ''MAX_BOT_TOKEN'' [],
       MaxSendTimeout = wrap64 (maxSendTimeoutSec * Second),
       MaxSendRPS = maxSendRPS,
       MaxBurst = maxBurst,
       MaxQueueCapacity = maxQueueCapacity,
       MaxQueueWait = wrap64 (maxQueueWaitMS * Millisecond),
       RelayMaxRetries = relayMaxRetries,
       RelayRetryDelay = wrap64 (relayRetryDelayMS * Millisecond),
       MetricsListenAddr = getEnv env ''METRICS_LISTEN_ADDR'' '':9090'',
       DLQEnabled = dlqEnabled,
       DLQFilePath = getEnv env ''DLQ_FILE_PATH'' ''./data/dlq.json'',
       DLQWorkerInterval = wrap64 (dlqWorkerIntervalMS * Millisecond),
       DLQMaxRetries = dlqMaxRetries,
       DLQBaseDelay = wrap64 (dlqBaseDelayMS * Millisecond),
       DLQMaxDelay = wrap64 (dlqMaxDelayMS * Millisecond)\<rparr>)))))))))))))))"


section \<open>What is accepted\<close>

definition int_vars :: "string list" where
  "int_vars =
     [''SMTP_MAX_MESSAGE_BYTES'', ''SMTP_MAX_CONCURRENT_SESSIONS'', ''MAX_SEND_TIMEOUT_SEC'',
     ''MAX_SEND_RPS'', ''MAX_BURST'', ''MAX_QUEUE_CAPACITY'', ''MAX_QUEUE_WAIT_MS'',
     ''RELAY_MAX_RETRIES'', ''RELAY_RETRY_DELAY_MS'', ''ADMIN_CHAT_ID'', ''DLQ_WORKER_INTERVAL_MS'',
     ''DLQ_MAX_RETRIES'', ''DLQ_BASE_DELAY_MS'', ''DLQ_MAX_DELAY_MS'']"

definition readable_int :: "environment \<Rightarrow> string \<Rightarrow> bool" where
  "readable_int env key \<longleftrightarrow> env key = [] \<or> (case strconv_Atoi (env key) of Inl _ \<Rightarrow> False | Inr _ \<Rightarrow> True)"

definition readable_bool :: "environment \<Rightarrow> string \<Rightarrow> bool" where
  "readable_bool env key \<longleftrightarrow> env key = [] \<or> (case ParseBool (env key) of Inl _ \<Rightarrow> False | Inr _ \<Rightarrow> True)"

text \<open>The value of a numeric or boolean variable, its default when it is not set.\<close>

definition setting :: "environment \<Rightarrow> string \<Rightarrow> int \<Rightarrow> int" where
  "setting env key def =
     (if env key = [] then def else case strconv_Atoi (env key) of Inl _ \<Rightarrow> def | Inr n \<Rightarrow> n)"

definition bool_setting :: "environment \<Rightarrow> string \<Rightarrow> bool \<Rightarrow> bool" where
  "bool_setting env key def =
     (if env key = [] then def else case ParseBool (env key) of Inl _ \<Rightarrow> def | Inr b \<Rightarrow> b)"

definition config_of :: "environment \<Rightarrow> Config" where
  "config_of env = \<lparr>
     SMTPListenAddr = getEnv env ''SMTP_LISTEN_ADDR'' '':25'',
     SMTPMaxMessageBytes = setting env ''SMTP_MAX_MESSAGE_BYTES'' (15 * 1024 * 1024),
     SMTPMaxSessions = setting env ''SMTP_MAX_CONCURRENT_SESSIONS'' 200,
     SMTPAllowedDomain = getEnv env ''SMTP_ALLOWED_RCPT_DOMAIN'' ''relay.local'',
     AliasFilePath = getEnv env ''ALIAS_FILE_PATH'' ''./config/aliases.json'',
     AdminChatID = setting env ''ADMIN_CHAT_ID'' 0,
     MaxSenderMode = getEnv env ''MAX_SENDER_MODE'' ''stub'',
     MaxAPIBaseURL = getEnv env ''MAX_API_BASE_URL'' [],
     MaxBotToken = getEnv env ''MAX_BOT_TOKEN'' [],
     MaxSendTimeout = wrap64 ((setting env ''MAX_SEND_TIMEOUT_SEC'' 15) * Second),
     MaxSendRPS = setting env ''MAX_SEND_RPS'' 20,
     MaxBurst = setting env ''MAX_BURST'' 40,
     MaxQueueCapacity = setting env ''MAX_QUEUE_CAPACITY'' 200,
     MaxQueueWait = wrap64 ((setting env ''MAX_QUEUE_WAIT_MS'' 1000) * Millisecond),
     RelayMaxRetries = setting env ''RELAY_MAX_RETRIES'' 2,
     RelayRetryDelay = wrap64 ((setting env ''RELAY_RETRY_DELAY_MS'' 300) * Millisecond),
     MetricsListenAddr = getEnv env ''METRICS_LISTEN_ADDR'' '':9090'',
     DLQEnabled = bool_setting env ''DLQ_ENABLED'' True,
     DLQFilePath = getEnv env ''DLQ_FILE_PATH'' ''./data/dlq.json'',
     DLQWorkerInterval = wrap64 ((setting env ''DLQ_WORKER_INTERVAL_MS'' 2000) * Millisecond),
     DLQMaxRetries = setting env ''DLQ_MAX_RETRIES'' 10,
     DLQBaseDelay = wrap64 ((setting env ''DLQ_BASE_DELAY_MS'' 1000) * Millisecond),
     DLQMaxDelay = wrap64 ((setting env ''DLQ_MAX_DELAY_MS'' 300000) * Millisecond)\<rparr>"

text \<open>The conditions on the values.\<close>

definition config_ok :: "Config \<Rightarrow> bool" where
  "config_ok cfg \<longleftrightarrow>
     SMTPAllowedDomain cfg \<noteq> [] \<and> 0 < SMTPMaxMessageBytes cfg \<and> 0 < SMTPMaxSessions cfg
     \<and> (MaxSenderMode cfg = ''stub'' \<or> MaxSenderMode cfg = ''botapi'' \<and> MaxBotToken cfg \<noteq> [])
     \<and> list_all (\<lambda>n. 0 \<le> n)
         [RelayMaxRetries cfg, AdminChatID cfg, MaxSendRPS cfg, MaxBurst cfg, MaxQueueCapacity cfg, DLQMaxRetries cfg]
     \<and> list_all (\<lambda>d. 0 \<le> d)
         [RelayRetryDelay cfg, MaxQueueWait cfg, DLQWorkerInterval cfg, DLQBaseDelay cfg, DLQMaxDelay cfg]"

lemma ParseInt_Inr_name: "ParseInt fn s = Inr n \<Longrightarrow> ParseInt fn' s = Inr n"
  by (auto simp: ParseInt_def Let_def split: if_splits sum.splits list.splits prod.splits)

lemma ParseInt_Inl_name: "ParseInt fn s = Inl e \<Longrightarrow> \<exists>e'. ParseInt fn' s = Inl e'"
  using ParseInt_Inr_name [of fn' s _ fn] by (cases "ParseInt fn' s") auto

lemma and_then_simps [simp]:
  "and_then (Inl e) f = Inl e" "and_then (Inr x) f = f x"
  by (simp_all add: and_then_def)

lemma and_then_Inr: "and_then r f = Inr y \<longleftrightarrow> (\<exists>x. r = Inr x \<and> f x = Inr y)"
  by (cases r) auto

lemma getEnvInt_readable: "readable_int env key \<Longrightarrow> getEnvInt env key def = Inr (setting env key def)"
  by (auto simp: getEnvInt_def readable_int_def setting_def Let_def split: sum.splits)

lemma getEnvInt64_readable: "readable_int env key \<Longrightarrow> getEnvInt64 env key def = Inr (setting env key def)"
  using ParseInt_Inr_name [of "''Atoi''" "env key" _ "''ParseInt''"]
  by (auto simp: getEnvInt64_def readable_int_def setting_def Let_def split: sum.splits)

lemma getEnvBool_readable: "readable_bool env key \<Longrightarrow> getEnvBool env key def = Inr (bool_setting env key def)"
  by (auto simp: getEnvBool_def readable_bool_def bool_setting_def Let_def split: sum.splits)

lemma getEnvInt_Inr: "getEnvInt env key def = Inr n \<Longrightarrow> readable_int env key"
  by (auto simp: getEnvInt_def readable_int_def Let_def split: sum.splits if_splits)

lemma getEnvInt64_Inr: "getEnvInt64 env key def = Inr n \<Longrightarrow> readable_int env key"
  using ParseInt_Inl_name [of "''Atoi''" "env key" _ "''ParseInt''"]
  by (auto simp: getEnvInt64_def readable_int_def Let_def split: sum.splits if_splits)

lemma getEnvBool_Inr: "getEnvBool env key def = Inr n \<Longrightarrow> readable_bool env key"
  by (auto simp: getEnvBool_def readable_bool_def Let_def split: sum.splits if_splits)

lemma validate_ok: "config_ok cfg \<Longrightarrow> validate cfg = Inr cfg"
  unfolding config_ok_def validate_def by auto

lemma validate_Inr:
  assumes "validate cfg = Inr c"
  shows "c = cfg" and "config_ok cfg"
  using assms unfolding config_ok_def validate_def by (simp split: if_splits, auto split: if_splits)

lemma Load_Inr_readable:
  "Load env = Inr cfg \<Longrightarrow> list_all (readable_int env) int_vars \<and> readable_bool env ''DLQ_ENABLED''"
  unfolding Load_def and_then_Inr int_vars_def
  by (elim exE conjE) (simp add: getEnvInt_Inr getEnvInt64_Inr getEnvBool_Inr)

lemma Load_readable:
  "list_all (readable_int env) int_vars \<Longrightarrow> readable_bool env ''DLQ_ENABLED'' \<Longrightarrow>
     Load env = validate (config_of env)"
  by (simp add: Load_def int_vars_def getEnvInt_readable getEnvInt64_readable getEnvBool_readable config_of_def)

lemma Load_config_ok: "Load env = Inr cfg \<Longrightarrow> config_ok cfg"
  using Load_Inr_readable [of env cfg] Load_readable [of env] validate_Inr [of "config_of env" cfg] by simp

text \<open>
  C35: The configuration loads exactly if every numeric variable that is set is a 64-bit decimal
  integer, the boolean one is a boolean, and the values satisfy their conditions; it then holds
  those values, the defaults for the variables that are not set, with the durations computed in
  64 bits. Otherwise an error is returned.
\<close>

theorem Load_spec:
  "Load env = Inr cfg \<longleftrightarrow>
     cfg = config_of env \<and> config_ok cfg \<and> list_all (readable_int env) int_vars \<and> readable_bool env ''DLQ_ENABLED''"
proof
  assume load: "Load env = Inr cfg"
  note readable = Load_Inr_readable [OF load]
  then have "validate (config_of env) = Inr cfg" using load Load_readable by simp
  then show "cfg = config_of env \<and> config_ok cfg \<and> list_all (readable_int env) int_vars \<and> readable_bool env ''DLQ_ENABLED''"
    using validate_Inr readable by blast
next
  assume "cfg = config_of env \<and> config_ok cfg \<and> list_all (readable_int env) int_vars \<and> readable_bool env ''DLQ_ENABLED''"
  then show "Load env = Inr cfg" using Load_readable [of env] validate_ok [of cfg] by (elim conjE) (simp only:)
qed

text \<open>
  A duration is exact as long as it is below about 292 years; beyond that it wraps, and a wrapped
  value that is not negative passes the checks.
\<close>

lemma millis_exact: "\<bar>n\<bar> \<le> 9223372036854 \<Longrightarrow> wrap64 (n * Millisecond) = n * Millisecond"
  by (rule wrap64_id) (auto simp: in_int64_def)

lemma millis_wrap: "wrap64 (18446744073710 * Millisecond) = 448384"
  by (simp add: wrap64_as_word)

text \<open>The domain and the metrics address cannot be empty: an empty variable means the default.\<close>

lemma never_empty: "SMTPAllowedDomain (config_of env) \<noteq> [] \<and> MetricsListenAddr (config_of env) \<noteq> []"
  by (simp add: config_of_def getEnv_def)

lemma Load_defaults: "Load (\<lambda>_. []) = Inr (config_of (\<lambda>_. []))"
proof -
  have "config_ok (config_of (\<lambda>_. []))" by code_simp
  moreover have "list_all (readable_int (\<lambda>_. [])) int_vars" "readable_bool (\<lambda>_. []) ''DLQ_ENABLED''"
    by (simp_all add: int_vars_def readable_int_def readable_bool_def)
  ultimately show ?thesis by (simp add: Load_readable validate_ok)
qed

end
