(* ===== verification/Context.thy ===== *)
theory Context
  imports Go_Conv
begin

text \<open>
  The request context as the program uses it (\<open>internal/trace/context.go\<close> and \<open>WithDLQBypass\<close> of
  \<open>internal/relay/service.go\<close>): the two values it carries and its deadline. That a context is
  cancelled or past its deadline comes back as the answer of the environment to the waits and
  sends made under it.

  Also the version string of \<open>internal/version/version.go\<close>.
\<close>

record context_values =
  request_id :: "string option"
  dlq_bypass :: bool
  deadline :: "time option"

definition Background :: context_values where
  "Background = \<lparr>request_id = None, dlq_bypass = False, deadline = None\<rparr>"

text \<open>\<open>context.WithTimeout\<close> at a given time: a deadline never moves later.\<close>

definition WithTimeout :: "time \<Rightarrow> duration \<Rightarrow> context_values \<Rightarrow> context_values" where
  "WithTimeout now d ctx =
     ctx\<lparr>deadline := Some (case deadline ctx of None \<Rightarrow> now + d | Some t \<Rightarrow> min t (now + d))\<rparr>"

definition WithRequestID :: "context_values \<Rightarrow> string \<Rightarrow> context_values" where
  "WithRequestID ctx requestID =
     (let rid = TrimSpace requestID in if rid = [] then ctx else ctx\<lparr>request_id := Some rid\<rparr>)"

definition RequestID :: "context_values \<Rightarrow> string" where
  "RequestID ctx = (case request_id ctx of None \<Rightarrow> [] | Some v \<Rightarrow> TrimSpace v)"

definition trace_Prefix :: "context_values \<Rightarrow> string" where
  "trace_Prefix ctx = (let rid = RequestID ctx in if rid \<noteq> [] then ''[req='' @ rid @ ''] '' else [])"

definition WithDLQBypass :: "context_values \<Rightarrow> context_values" where
  "WithDLQBypass ctx = ctx\<lparr>dlq_bypass := True\<rparr>"

definition shouldBypassDLQ :: "context_values \<Rightarrow> bool" where
  "shouldBypassDLQ ctx = dlq_bypass ctx"

definition BotVersion :: "string \<Rightarrow> string \<Rightarrow> string" where
  "BotVersion BuildNumber BuildSuffix =
     (let build0 = TrimSpace BuildNumber;
          build = (if build0 = [] then ''0'' else build0);
          version = ''0.2'' @ ''.'' @ build;
          suffix = TrimSpace BuildSuffix
      in if suffix \<noteq> [] then version @ ''-'' @ suffix else version)"

text \<open>
  The request id set last is the one read, trimmed; a blank one leaves the context alone;
  and neither it nor the replay mark disturbs the other.
\<close>

lemma request_id_roundtrip:
  "RequestID (WithRequestID ctx rid) = (if TrimSpace rid = [] then RequestID ctx else TrimSpace rid)
   \<and> RequestID (WithDLQBypass ctx) = RequestID ctx
   \<and> shouldBypassDLQ (WithRequestID ctx rid) = shouldBypassDLQ ctx
   \<and> shouldBypassDLQ (WithDLQBypass ctx)"
  by (simp add: RequestID_def WithRequestID_def WithDLQBypass_def shouldBypassDLQ_def Let_def)

end
