(* ===== verification/Go_Os.thy ===== *)
theory Go_Os
  imports Go_Conv
begin

text \<open>
  What the operating system answers to the file operations of a component. The answers are
  inputs of the model: each call that writes a file takes the outcomes of \<open>os.MkdirAll\<close>,
  \<open>os.WriteFile\<close> and \<open>os.Rename\<close>. A failed \<open>os.WriteFile\<close> may leave any content behind, since it
  truncates the file before writing.
\<close>

record fs_io =
  io_mkdir :: "error option"
  io_write :: "(error \<times> string option) option"
  io_rename :: "error option"

definition io_ok :: fs_io where
  "io_ok = \<lparr>io_mkdir = None, io_write = None, io_rename = None\<rparr>"

definition io_succeeds :: "fs_io \<Rightarrow> bool" where
  "io_succeeds F \<longleftrightarrow> io_mkdir F = None \<and> io_write F = None \<and> io_rename F = None"

lemma io_succeeds_ok [simp]: "io_succeeds io_ok"
  by (simp add: io_succeeds_def io_ok_def)

text \<open>\<open>os.IsNotExist\<close>.\<close>

fun IsNotExist :: "error \<Rightarrow> bool" where
  "IsNotExist (OSError ne _) \<longleftrightarrow> ne"
| "IsNotExist _ \<longleftrightarrow> False"

text \<open>
  A JSON value, as far as the program's decoders tell values apart. The text of JSON documents
  is a parameter wherever one is read or written.
\<close>

datatype json = JString string | JNull | JArray "json list" | JOther

end
