(* ===== verification/Recipient.thy ===== *)
theory Recipient
  imports Go_Os
begin

text \<open>
  Package \<open>internal/recipient\<close>: the parser that turns an SMTP recipient into chat targets, the
  alias table it consults, and the alias file (\<open>parser.go\<close>, \<open>alias.go\<close>).

  The alias table is a Go map; a nil map reads as the empty one and every operation that
  writes allocates it first, so both are \<open>Map.empty\<close>.
\<close>

section \<open>Data\<close>

record RecipientTarget =
  ChatID :: string
  Silent :: bool
  Local :: string

record ParsedRecipient =
  Targets :: "RecipientTarget list"
  RawLocal :: string
  RawAddr :: string
  SourceLocal :: string
  AliasUsed :: bool

record rcpt_parser =
  allowedDomain :: string
  aliases :: "string \<rightharpoonup> string list"

definition NewParser :: "golib \<Rightarrow> string \<Rightarrow> (string \<rightharpoonup> string list) \<Rightarrow> rcpt_parser" where
  "NewParser L allowed al = \<lparr>allowedDomain = ToLower L (TrimSpace allowed), aliases = al\<rparr>"

section \<open>Parsing a recipient\<close>

definition chatIDPrefix :: string where
  "chatIDPrefix = ''chatid''"

definition parsePrefixedChatID :: "string \<Rightarrow> string \<Rightarrow> string result" where
  "parsePrefixedChatID value0 address =
     (let value = TrimSpace value0 in
      if value = [] then Inl (ErrorString (''chat id is empty: '' @ address))
      else let negative = HasPrefix value ''-'';
               digits = (if negative then TrimPrefix value ''-'' else value) in
        if negative \<and> digits = [] then Inl (ErrorString (''chat id is empty: '' @ address))
        else if list_ex (\<lambda>r. \<not> is_digit r) digits
          then Inl (ErrorString (''invalid prefixed chat id: '' @ address))
        else if negative then Inr (''-'' @ digits)
        else Inr digits)"

definition parseChatIDBase :: "string \<Rightarrow> string \<Rightarrow> string result" where
  "parseChatIDBase base address =
     (if HasPrefix base chatIDPrefix then parsePrefixedChatID (TrimPrefix base chatIDPrefix) address
      else if Contains base ''!'' \<or> Contains base ''_''
        then Inl (ErrorString (''thread addressing is not supported: '' @ address))
      else Inl (ErrorString (''recipient must use chatid format: '' @ address)))"

definition hasFlag :: "string \<Rightarrow> string \<Rightarrow> bool" where
  "hasFlag flags target \<longleftrightarrow>
     flags \<noteq> [] \<and> list_ex (\<lambda>f. TrimSpace f = target) (Split flags CHR ''.'')"

text \<open>The base and the flags of a local part: what is before and after the first dot.\<close>

definition split_flags :: "string \<Rightarrow> string \<times> string" where
  "split_flags targetLocal =
     (case IndexByte targetLocal CHR ''.'' of
        None \<Rightarrow> (targetLocal, [])
      | Some idx \<Rightarrow> (take idx targetLocal, drop (Suc idx) targetLocal))"

text \<open>The loop of \<open>Parse\<close> over the local parts, with its early returns.\<close>

fun parse_targets :: "string \<Rightarrow> string list \<Rightarrow> RecipientTarget list result" where
  "parse_targets address [] = Inr []"
| "parse_targets address (targetLocal # rest) =
     (let (base, flags) = split_flags targetLocal in
      case parseChatIDBase base address of
        Inl err \<Rightarrow> Inl err
      | Inr chatID \<Rightarrow>
          if chatID = [] then Inl (ErrorString ''chat id is empty'')
          else (case parse_targets address rest of
                  Inl err \<Rightarrow> Inl err
                | Inr ts \<Rightarrow>
                    Inr (\<lparr>ChatID = chatID, Silent = hasFlag flags ''silent'', Local = targetLocal\<rparr> # ts)))"

definition Parse :: "golib \<Rightarrow> rcpt_parser \<Rightarrow> string \<Rightarrow> ParsedRecipient result" where
  "Parse L p address =
     (let addr = TrimSpace (ToLower L address) in
      case Split addr CHR ''@'' of
        [local, domain] \<Rightarrow>
          if domain \<noteq> allowedDomain p
            then Inl (ErrorString (''unsupported domain: '' @ domain))
          else
            let mapped = aliases p local;
                locals = (case mapped of Some ts \<Rightarrow> ts | None \<Rightarrow> [local]) in
            (case parse_targets address locals of
               Inl err \<Rightarrow> Inl err
             | Inr targets \<Rightarrow>
                 if targets = [] then Inl (ErrorString ''no recipient targets resolved'')
                 else Inr \<lparr>Targets = targets, RawLocal = Join locals '','', RawAddr = address,
                           SourceLocal = local, AliasUsed = (mapped \<noteq> None)\<rparr>)
      | _ \<Rightarrow> Inl (ErrorString (''invalid recipient format: '' @ address)))"

section \<open>The alias table\<close>

text \<open>The error \<open>ValidateAliasTarget\<close> returns, \<open>None\<close> for nil.\<close>

definition ValidateAliasTarget :: "golib \<Rightarrow> string \<Rightarrow> error option" where
  "ValidateAliasTarget L local =
     (let value = TrimSpace (ToLower L local) in
      if value = [] then Some (ErrorString ''alias target must not be empty'')
      else let base = (case IndexByte value CHR ''.'' of Some idx \<Rightarrow> take idx value | None \<Rightarrow> value) in
        case parseChatIDBase base value of Inl err \<Rightarrow> Some err | Inr _ \<Rightarrow> None)"

text \<open>
  \<open>normalizeAliasTargets\<close>: normalised, without empty ones, each kept at its first occurrence.
\<close>

definition normalizeAliasTargets :: "golib \<Rightarrow> string list \<Rightarrow> string list" where
  "normalizeAliasTargets L targets =
     dedup [] (filter (\<lambda>t. t \<noteq> []) (map (\<lambda>item. TrimSpace (ToLower L item)) targets))"

definition SetAliasGroup :: "golib \<Rightarrow> string \<Rightarrow> string list \<Rightarrow> rcpt_parser \<Rightarrow> rcpt_parser" where
  "SetAliasGroup L alias targets p =
     (let key = TrimSpace (ToLower L alias) in
      if key = [] \<or> targets = [] then p
      else let normalizedTargets = normalizeAliasTargets L targets in
        if normalizedTargets = [] then p
        else p\<lparr>aliases := (aliases p)(key \<mapsto> normalizedTargets)\<rparr>)"

text \<open>The two loops of \<open>AddAliasTargets\<close> share one \<open>seen\<close> set.\<close>

definition AddAliasTargets :: "golib \<Rightarrow> string \<Rightarrow> string list \<Rightarrow> rcpt_parser \<Rightarrow> rcpt_parser" where
  "AddAliasTargets L alias targets p =
     (let key = TrimSpace (ToLower L alias) in
      if key = [] \<or> targets = [] then p
      else let toAdd = normalizeAliasTargets L targets in
        if toAdd = [] then p
        else let existing = (case aliases p key of Some ts \<Rightarrow> ts | None \<Rightarrow> []);
                 merged = dedup [] (existing @ toAdd) in
          if merged = [] then p
          else p\<lparr>aliases := (aliases p)(key \<mapsto> merged)\<rparr>)"

definition RemoveAliasTargets :: "golib \<Rightarrow> string \<Rightarrow> string list \<Rightarrow> rcpt_parser \<Rightarrow> rcpt_parser" where
  "RemoveAliasTargets L alias targets p =
     (let key = TrimSpace (ToLower L alias) in
      if key = [] \<or> targets = [] then p
      else let toRemove = normalizeAliasTargets L targets in
        if toRemove = [] then p
        else case aliases p key of
          None \<Rightarrow> p
        | Some existing \<Rightarrow>
            if existing = [] then p
            else let updated = filter (\<lambda>item. item \<notin> set toRemove) existing in
              if updated = [] then p\<lparr>aliases := (aliases p)(key := None)\<rparr>
              else p\<lparr>aliases := (aliases p)(key \<mapsto> updated)\<rparr>)"

definition DeleteAlias :: "golib \<Rightarrow> string \<Rightarrow> rcpt_parser \<Rightarrow> rcpt_parser" where
  "DeleteAlias L alias p =
     (let key = TrimSpace (ToLower L alias) in
      if key = [] then p else p\<lparr>aliases := (aliases p)(key := None)\<rparr>)"

text \<open>\<open>SnapshotAliases\<close> copies the map and its slices; values here are never shared.\<close>

definition SnapshotAliases :: "rcpt_parser \<Rightarrow> (string \<rightharpoonup> string list)" where
  "SnapshotAliases p = aliases p"

section \<open>The alias file\<close>

text \<open>Decoding into \<open>[]string\<close>: an array of strings, where null leaves the empty string.\<close>

fun json_strings :: "json list \<Rightarrow> string list option" where
  "json_strings [] = Some []"
| "json_strings (j # js) =
     (case j of
        JString s \<Rightarrow> map_option (Cons s) (json_strings js)
      | JNull \<Rightarrow> map_option (Cons []) (json_strings js)
      | _ \<Rightarrow> None)"

definition single_target :: "golib \<Rightarrow> string \<Rightarrow> string list result" where
  "single_target L s =
     (let single = TrimSpace (ToLower L s) in
      if single = [] then Inl (ErrorString ''alias target must not be empty'') else Inr [single])"

definition list_targets :: "golib \<Rightarrow> string list \<Rightarrow> string list result" where
  "list_targets L xs =
     (let normalized = normalizeAliasTargets L xs in
      if normalized = [] then Inl (ErrorString ''alias target list must not be empty'')
      else Inr normalized)"

definition parseAliasValue :: "golib \<Rightarrow> json \<Rightarrow> string list result" where
  "parseAliasValue L value =
     (case value of
        JString s \<Rightarrow> single_target L s
      | JNull \<Rightarrow> single_target L []
      | JArray js \<Rightarrow>
          (case json_strings js of
             None \<Rightarrow> Inl (ErrorString ''alias target must be string or string[]'')
           | Some xs \<Rightarrow> list_targets L xs)
      | JOther \<Rightarrow> Inl (ErrorString ''alias target must be string or string[]''))"

text \<open>The loop of \<open>LoadAliases\<close> over the decoded object, in the order the map is iterated.\<close>

fun load_aliases_loop ::
  "golib \<Rightarrow> (string \<times> json) list \<Rightarrow> (string \<rightharpoonup> string list) \<Rightarrow> (string \<rightharpoonup> string list) result" where
  "load_aliases_loop L [] al = Inr al"
| "load_aliases_loop L ((alias, value) # raw) al =
     (case parseAliasValue L value of
        Inl err \<Rightarrow> Inl (WrapError (''invalid alias '' @ strconv_Quote L alias @ '': '') err [])
      | Inr targets \<Rightarrow>
          let normalizedAlias = TrimSpace (ToLower L alias) in
          if normalizedAlias = [] \<or> targets = [] then load_aliases_loop L raw al
          else load_aliases_loop L raw (al(normalizedAlias \<mapsto> targets)))"

text \<open>
  \<open>decode\<close> reads the bytes of the file as a JSON object: its members, in the order the decoded
  map is iterated.
\<close>

definition LoadAliases ::
  "golib \<Rightarrow> (string \<Rightarrow> (string \<times> json) list result) \<Rightarrow> string result \<Rightarrow> (string \<rightharpoonup> string list) result" where
  "LoadAliases L decode file =
     (case file of
        Inl err \<Rightarrow> if IsNotExist err then Inr Map.empty else Inl err
      | Inr data \<Rightarrow>
          if data = [] then Inr Map.empty
          else (case decode data of
                  Inl err \<Rightarrow> Inl err
                | Inr raw \<Rightarrow> load_aliases_loop L raw Map.empty))"

text \<open>
  \<open>SaveAliases\<close>: the error it returns and what the alias file holds afterwards; \<open>encode\<close> is
  \<open>json.MarshalIndent\<close>, which sorts the keys.
\<close>

definition SaveAliases ::
  "((string \<rightharpoonup> string list) \<Rightarrow> string result) \<Rightarrow> fs_io \<Rightarrow> (string \<rightharpoonup> string list)
     \<Rightarrow> string option \<Rightarrow> error option \<times> string option" where
  "SaveAliases encode F al file =
     (case io_mkdir F of
        Some err \<Rightarrow> (Some err, file)
      | None \<Rightarrow>
          (case encode al of
             Inl err \<Rightarrow> (Some err, file)
           | Inr data \<Rightarrow>
               (case io_write F of
                  Some (err, left) \<Rightarrow> (Some err, left)
                | None \<Rightarrow> (None, Some (data @ [CHR 0x0A])))))"

section \<open>What a parsed recipient looks like\<close>

text \<open>The decimal chat identifiers the parser lets through.\<close>

definition canonical_chat_id :: "string \<Rightarrow> bool" where
  "canonical_chat_id s \<longleftrightarrow>
     (let d = TrimPrefix s ''-'' in d \<noteq> [] \<and> list_all is_digit d)"

text \<open>A local part that resolves to a chat.\<close>

definition valid_target :: "string \<Rightarrow> bool" where
  "valid_target t \<longleftrightarrow> (case parseChatIDBase (fst (split_flags t)) [] of Inl _ \<Rightarrow> False | Inr _ \<Rightarrow> True)"

lemma list_ex_not_digit: "list_ex (\<lambda>r. \<not> is_digit r) s \<longleftrightarrow> \<not> list_all is_digit s"
  by (auto simp: list_ex_iff list_all_iff)

lemma digits_no_minus: "list_all is_digit (c # d) \<Longrightarrow> c \<noteq> CHR ''-''"
  by (auto simp: is_digit_def)

lemma parsePrefixedChatID_canonical:
  "parsePrefixedChatID v a = Inr cid \<Longrightarrow> canonical_chat_id cid"
  by (auto simp: parsePrefixedChatID_def canonical_chat_id_def list_ex_not_digit TrimPrefix_def
      HasPrefix_def Let_def split: if_splits)

lemma parsePrefixedChatID_address:
  "parsePrefixedChatID v a = Inr cid \<longleftrightarrow> parsePrefixedChatID v a' = Inr cid"
  by (simp add: parsePrefixedChatID_def Let_def)

lemma parseChatIDBase_canonical: "parseChatIDBase b a = Inr cid \<Longrightarrow> canonical_chat_id cid"
  by (auto simp: parseChatIDBase_def parsePrefixedChatID_canonical split: if_splits)

lemma parseChatIDBase_address: "parseChatIDBase b a = Inr cid \<longleftrightarrow> parseChatIDBase b a' = Inr cid"
  using parsePrefixedChatID_address by (simp add: parseChatIDBase_def)

lemma canonical_not_Nil: "canonical_chat_id cid \<Longrightarrow> cid \<noteq> []"
  by (auto simp: canonical_chat_id_def TrimPrefix_def HasPrefix_def)

lemma valid_target_iff: "valid_target t \<longleftrightarrow> (\<exists>cid. parseChatIDBase (fst (split_flags t)) a = Inr cid)"
  using parseChatIDBase_address [of _ a _ "[]"] by (auto simp: valid_target_def split: sum.splits)

text \<open>The target a valid local part resolves to.\<close>

definition target_of :: "string \<Rightarrow> RecipientTarget" where
  "target_of t =
     \<lparr>ChatID = (case parseChatIDBase (fst (split_flags t)) [] of Inr cid \<Rightarrow> cid | Inl _ \<Rightarrow> []),
      Silent = hasFlag (snd (split_flags t)) ''silent'', Local = t\<rparr>"

lemma parse_targets_valid:
  "\<forall>t \<in> set ls. valid_target t \<Longrightarrow> parse_targets a ls = Inr (map target_of ls)"
proof (induction ls)
  case (Cons t ls)
  then obtain cid where cid: "parseChatIDBase (fst (split_flags t)) a = Inr cid"
    using valid_target_iff [of t a] by auto
  then have "parseChatIDBase (fst (split_flags t)) [] = Inr cid"
    using parseChatIDBase_address by blast
  moreover have "cid \<noteq> []" using cid parseChatIDBase_canonical canonical_not_Nil by blast
  ultimately show ?case using Cons cid by (cases "split_flags t") (simp add: target_of_def)
qed simp

lemma parse_targets_Inr:
  "parse_targets a ls = Inr ts \<Longrightarrow> ts = map target_of ls \<and> (\<forall>t \<in> set ls. valid_target t)"
proof -
  have "\<forall>t \<in> set ls. valid_target t" if "parse_targets a ls = Inr ts"
    using that
    by (induction ls arbitrary: ts)
      (auto simp: valid_target_iff [of _ a] split: sum.splits prod.splits if_splits)
  then show "parse_targets a ls = Inr ts \<Longrightarrow> ts = map target_of ls \<and> (\<forall>t \<in> set ls. valid_target t)"
    using parse_targets_valid [of ls a] by auto
qed

lemma parse_targets_invalid:
  "\<not> (\<forall>t \<in> set ls. valid_target t) \<Longrightarrow> \<exists>e. parse_targets a ls = Inl e"
  using parse_targets_Inr by (cases "parse_targets a ls") blast+

lemma ChatID_target_of: "valid_target t \<Longrightarrow> canonical_chat_id (ChatID (target_of t))"
  using parseChatIDBase_canonical by (auto simp: valid_target_def target_of_def split: sum.splits)

text \<open>The local parts an address stands for: the alias, or the local part itself.\<close>

definition resolve :: "rcpt_parser \<Rightarrow> string \<Rightarrow> string list" where
  "resolve p local = (case aliases p local of Some ts \<Rightarrow> ts | None \<Rightarrow> [local])"

text \<open>\<open>Parse\<close> on the two sides of the \<open>@\<close>, every outcome.\<close>

lemma Parse_cases:
  assumes "normalize L address = local @ CHR ''@'' # domain"
    and "CHR ''@'' \<notin> set local" "CHR ''@'' \<notin> set domain"
  shows "Parse L p address =
     (if domain \<noteq> allowedDomain p then Inl (ErrorString (''unsupported domain: '' @ domain))
      else case parse_targets address (resolve p local) of
        Inl e \<Rightarrow> Inl e
      | Inr ts \<Rightarrow> if ts = [] then Inl (ErrorString ''no recipient targets resolved'')
                  else Inr \<lparr>Targets = ts, RawLocal = Join (resolve p local) '','', RawAddr = address,
                            SourceLocal = local, AliasUsed = (aliases p local \<noteq> None)\<rparr>)"
proof -
  have "Split (normalize L address) CHR ''@'' = [local, domain]"
    using assms by (simp add: Split_two)
  then show ?thesis
    unfolding Parse_def normalize_def resolve_def by (simp add: Let_def)
qed

lemma Parse_Inr_iff:
  "Parse L p address = Inr pr \<longleftrightarrow>
     (\<exists>local. normalize L address = local @ CHR ''@'' # allowedDomain p
        \<and> CHR ''@'' \<notin> set local \<and> CHR ''@'' \<notin> set (allowedDomain p)
        \<and> resolve p local \<noteq> [] \<and> (\<forall>t \<in> set (resolve p local). valid_target t)
        \<and> pr = \<lparr>Targets = map target_of (resolve p local), RawLocal = Join (resolve p local) '','',
                RawAddr = address, SourceLocal = local, AliasUsed = (aliases p local \<noteq> None)\<rparr>)"
  (is "?L \<longleftrightarrow> ?R")
proof
  assume ?L
  then obtain local domain where s: "Split (normalize L address) CHR ''@'' = [local, domain]"
    by (auto simp: Parse_def normalize_def Let_def split: list.splits)
  then have l: "normalize L address = local @ CHR ''@'' # domain"
    "CHR ''@'' \<notin> set local" "CHR ''@'' \<notin> set domain"
    by (auto simp: Split_two)
  obtain ts where d: "domain = allowedDomain p"
    and ts: "parse_targets address (resolve p local) = Inr ts" "ts \<noteq> []"
    "pr = \<lparr>Targets = ts, RawLocal = Join (resolve p local) '','', RawAddr = address,
           SourceLocal = local, AliasUsed = (aliases p local \<noteq> None)\<rparr>"
    using \<open>?L\<close> Parse_cases [OF l, of p] by (auto split: sum.splits if_splits)
  then show ?R
    using l parse_targets_Inr [OF ts(1)] by (intro exI [of _ local]) auto
next
  assume ?R
  then obtain local where l: "normalize L address = local @ CHR ''@'' # allowedDomain p"
    "CHR ''@'' \<notin> set local" "CHR ''@'' \<notin> set (allowedDomain p)"
    and r: "resolve p local \<noteq> []" "\<forall>t \<in> set (resolve p local). valid_target t"
    and pr: "pr = \<lparr>Targets = map target_of (resolve p local), RawLocal = Join (resolve p local) '','',
                RawAddr = address, SourceLocal = local, AliasUsed = (aliases p local \<noteq> None)\<rparr>"
    by blast
  show ?L using Parse_cases [OF l, of p] parse_targets_valid [OF r(2)] r(1) pr by simp
qed

text \<open>
  C6: An address that the parser accepts lies in the allowed domain, and its targets are those
  of its alias, or of its own local part, in order; there is at least one, and each is a
  decimal chat identifier.
\<close>

theorem Parse_sound:
  assumes "Parse L p address = Inr pr"
  shows "normalize L address = SourceLocal pr @ ''@'' @ allowedDomain p
    \<and> map Local (Targets pr) = resolve p (SourceLocal pr)
    \<and> Targets pr \<noteq> []
    \<and> (\<forall>t \<in> set (Targets pr). canonical_chat_id (ChatID t)
         \<and> Silent t = hasFlag (snd (split_flags (Local t))) ''silent'')
    \<and> RawAddr pr = address
    \<and> (AliasUsed pr \<longleftrightarrow> aliases p (SourceLocal pr) \<noteq> None)"
  using assms ChatID_target_of by (auto simp: Parse_Inr_iff target_of_def comp_def)

theorem Parse_sound_witness:
  "Targets (the (case Parse ascii_golib (NewParser ascii_golib ''relay.local'' Map.empty)
      ''ChatID-42.silent@Relay.Local'' of Inr pr \<Rightarrow> Some pr | _ \<Rightarrow> None)) \<noteq> []"
proof -
  have "Parse ascii_golib (NewParser ascii_golib ''relay.local'' Map.empty) ''ChatID-42.silent@Relay.Local''
    = Inr \<lparr>Targets = [\<lparr>ChatID = ''-42'', Silent = True, Local = ''chatid-42.silent''\<rparr>],
           RawLocal = ''chatid-42.silent'', RawAddr = ''ChatID-42.silent@Relay.Local'',
           SourceLocal = ''chatid-42.silent'', AliasUsed = False\<rparr>"
    by code_simp
  from Parse_sound [OF this] this show ?thesis by simp
qed

text \<open>
  C13: The parser accepts exactly the addresses of the form local@domain, in any letter case,
  whose domain is the allowed one and whose local part resolves to at least one target, all of
  them valid.
\<close>

theorem Parse_accepts_iff:
  "(case Parse L p address of Inr _ \<Rightarrow> True | Inl _ \<Rightarrow> False) \<longleftrightarrow>
     (\<exists>local. normalize L address = local @ ''@'' @ allowedDomain p
        \<and> CHR ''@'' \<notin> set local \<and> CHR ''@'' \<notin> set (allowedDomain p)
        \<and> resolve p local \<noteq> [] \<and> list_all valid_target (resolve p local))"
  (is "?acc \<longleftrightarrow> ?R")
proof -
  have "?acc \<longleftrightarrow> (\<exists>pr. Parse L p address = Inr pr)" by (auto split: sum.splits)
  also have "\<dots> \<longleftrightarrow> ?R" by (simp add: Parse_Inr_iff list_all_iff)
  finally show ?thesis .
qed

section \<open>The address of a chat\<close>

lemma chatid_base:
  "parseChatIDBase (''chatid'' @ FormatInt n) a = Inr (FormatInt n)"
proof -
  have t: "TrimSpace (FormatInt n) = FormatInt n"
    using FormatInt_graphic [of "hd (FormatInt n)" n] FormatInt_graphic [of "last (FormatInt n)" n]
    by (simp add: TrimSpace_graphic)
  show ?thesis
  proof (cases "n < 0")
    case True
    then have "FormatInt n = ''-'' @ format_nonneg (- n)" by (simp add: FormatInt_def)
    moreover have "list_all is_digit (format_nonneg (- n))"
      using format_nonneg_digits [of "- n"] True by (auto simp: list_all_iff)
    ultimately show ?thesis
      using t by (simp add: parseChatIDBase_def parsePrefixedChatID_def chatIDPrefix_def
          list_ex_not_digit HasPrefix_def TrimPrefix_def)
  next
    case False
    then have d: "list_all is_digit (FormatInt n)"
      using format_nonneg_digits [of n] by (auto simp: list_all_iff FormatInt_def)
    then have "\<not> HasPrefix (FormatInt n) ''-''"
      by (cases "FormatInt n") (auto simp: HasPrefix_def is_digit_def)
    then show ?thesis
      using t d by (simp add: parseChatIDBase_def parsePrefixedChatID_def chatIDPrefix_def
          list_ex_not_digit HasPrefix_def TrimPrefix_def)
  qed
qed

lemma FormatInt_no:
  "\<not> is_digit c \<Longrightarrow> c \<noteq> CHR ''-'' \<Longrightarrow> c \<notin> set (FormatInt n)"
  using set_FormatInt by blast

lemma split_flags_dot: "CHR ''.'' \<notin> set b \<Longrightarrow> split_flags (b @ CHR ''.'' # f) = (b, f)"
  by (simp add: split_flags_def)

lemma split_flags_plain: "CHR ''.'' \<notin> set b \<Longrightarrow> split_flags b = (b, [])"
  by (simp add: split_flags_def IndexByte_None [THEN iffD2])

lemma dot_notin_chatid: "CHR ''.'' \<notin> set (''chatid'' @ FormatInt n)"
  using FormatInt_no [of "CHR ''.''" n] by (simp add: is_digit_def)

lemma at_notin_chatid: "CHR ''@'' \<notin> set (''chatid'' @ FormatInt n)"
  using FormatInt_no [of "CHR ''@''" n] by (simp add: is_digit_def)

lemma hasFlag_silent: "hasFlag ''silent'' ''silent''"
  by code_simp

lemma target_of_chatid:
  "target_of (''chatid'' @ FormatInt n) = \<lparr>ChatID = FormatInt n, Silent = False, Local = ''chatid'' @ FormatInt n\<rparr>"
  "target_of (''chatid'' @ FormatInt n @ ''.silent'')
     = \<lparr>ChatID = FormatInt n, Silent = True, Local = ''chatid'' @ FormatInt n @ ''.silent''\<rparr>"
  "valid_target (''chatid'' @ FormatInt n)"
  "valid_target (''chatid'' @ FormatInt n @ ''.silent'')"
  using split_flags_dot [OF dot_notin_chatid, of n "''silent''"] split_flags_plain [OF dot_notin_chatid, of n]
    chatid_base [of n "[]"] hasFlag_silent
  by (simp_all add: target_of_def valid_target_def hasFlag_def)

text \<open>The address built from a chat identifier resolves to it, unless an alias overrides it.\<close>

lemma chat_address_parses:
  assumes "normalize L address = ''chatid'' @ FormatInt n @ (if silent then ''.silent'' else []) @ ''@'' @ allowedDomain p"
    and "CHR ''@'' \<notin> set (allowedDomain p)"
    and "aliases p (''chatid'' @ FormatInt n @ (if silent then ''.silent'' else [])) = None"
  shows "\<exists>pr. Parse L p address = Inr pr
    \<and> map (\<lambda>t. (ChatID t, Silent t)) (Targets pr) = [(FormatInt n, silent)] \<and> \<not> AliasUsed pr"
proof -
  define local where "local = ''chatid'' @ FormatInt n @ (if silent then ''.silent'' else [])"
  have "normalize L address = local @ CHR ''@'' # allowedDomain p" "aliases p local = None"
    using assms by (simp_all add: local_def)
  moreover have "CHR ''@'' \<notin> set local"
    using at_notin_chatid [of n] by (auto simp: local_def)
  moreover have "valid_target local"
    and "map (\<lambda>t. (ChatID t, Silent t)) [target_of local] = [(FormatInt n, silent)]"
    using target_of_chatid [of n] by (cases silent; simp add: local_def)+
  ultimately show ?thesis
    using assms(2) by (auto simp: Parse_Inr_iff resolve_def)
qed

section \<open>The alias table as a map from names to sets of targets\<close>

text \<open>What every table of the program satisfies.\<close>

definition normal_target :: "golib \<Rightarrow> string \<Rightarrow> bool" where
  "normal_target L t \<longleftrightarrow> t \<noteq> [] \<and> t \<in> range (normalize L)"

definition alias_inv :: "golib \<Rightarrow> (string \<rightharpoonup> string list) \<Rightarrow> bool" where
  "alias_inv L al \<longleftrightarrow> finite (dom al) \<and>
     (\<forall>k ts. al k = Some ts \<longrightarrow>
        normal_target L k \<and> ts \<noteq> [] \<and> distinct ts \<and> (\<forall>t \<in> set ts. normal_target L t))"

text \<open>The abstraction: the set of targets of a name, empty for no alias.\<close>

definition alias_targets :: "rcpt_parser \<Rightarrow> string \<Rightarrow> string set" where
  "alias_targets p k = (case aliases p k of None \<Rightarrow> {} | Some ts \<Rightarrow> set ts)"

definition norm_targets :: "golib \<Rightarrow> string list \<Rightarrow> string set" where
  "norm_targets L ts = normalize L ` set ts - {[]}"

lemma set_normalizeAliasTargets: "set (normalizeAliasTargets L ts) = norm_targets L ts"
  by (auto simp: normalizeAliasTargets_def norm_targets_def normalize_def)

lemma distinct_normalizeAliasTargets: "distinct (normalizeAliasTargets L ts)"
  by (simp add: normalizeAliasTargets_def)

lemma normalizeAliasTargets_Nil [simp]: "normalizeAliasTargets L [] = []"
  by (simp add: normalizeAliasTargets_def)

lemma normalizeAliasTargets_empty: "normalizeAliasTargets L ts = [] \<longleftrightarrow> norm_targets L ts = {}"
  using set_normalizeAliasTargets [of L ts] by auto

lemma norm_targets_Nil [simp]: "norm_targets L [] = {}"
  by (simp add: norm_targets_def)

lemma norm_targets_in: "t \<in> norm_targets L ts \<Longrightarrow> normal_target L t"
  by (auto simp: norm_targets_def normal_target_def)

lemma normal_target_normalize [simp]: "normal_target L (normalize L a) \<longleftrightarrow> normalize L a \<noteq> []"
  by (simp add: normal_target_def)

lemma alias_inv_upd:
  assumes "alias_inv L al" "normalize L a \<noteq> []" "ts \<noteq> []" "distinct ts"
    and "\<forall>t \<in> set ts. normal_target L t"
  shows "alias_inv L (al(normalize L a \<mapsto> ts))"
  using assms unfolding alias_inv_def by auto

lemma alias_inv_del: "alias_inv L al \<Longrightarrow> alias_inv L (al(k := None))"
  unfolding alias_inv_def by (auto split: if_splits)

lemma alias_inv_targets: "alias_inv L al \<Longrightarrow> al k = Some ts \<Longrightarrow> t \<in> set ts \<Longrightarrow> normal_target L t"
  unfolding alias_inv_def by blast

lemma alias_inv_distinct: "alias_inv L al \<Longrightarrow> al k = Some ts \<Longrightarrow> distinct ts \<and> ts \<noteq> []"
  unfolding alias_inv_def by blast

lemma alias_inv_SetAliasGroup: "alias_inv L (aliases p) \<Longrightarrow> alias_inv L (aliases (SetAliasGroup L a ts p))"
  using norm_targets_in [of _ L ts]
  by (auto simp: SetAliasGroup_def Let_def normalize_def [of L a, symmetric] set_normalizeAliasTargets
      distinct_normalizeAliasTargets intro!: alias_inv_upd)

lemma alias_inv_AddAliasTargets: "alias_inv L (aliases p) \<Longrightarrow> alias_inv L (aliases (AddAliasTargets L a ts p))"
  using norm_targets_in [of _ L ts] alias_inv_targets [of L "aliases p"]
  by (auto simp: AddAliasTargets_def Let_def normalize_def [of L a, symmetric] set_normalizeAliasTargets
      intro!: alias_inv_upd split: option.splits)

lemma alias_inv_RemoveAliasTargets: "alias_inv L (aliases p) \<Longrightarrow> alias_inv L (aliases (RemoveAliasTargets L a ts p))"
  using alias_inv_targets [of L "aliases p"] alias_inv_distinct [of L "aliases p"]
  by (auto simp: RemoveAliasTargets_def Let_def normalize_def [of L a, symmetric]
      intro!: alias_inv_upd alias_inv_del split: option.splits)

lemma alias_inv_DeleteAlias: "alias_inv L (aliases p) \<Longrightarrow> alias_inv L (aliases (DeleteAlias L a p))"
  by (auto simp: DeleteAlias_def Let_def intro: alias_inv_del)

lemmas alias_inv_ops = alias_inv_SetAliasGroup alias_inv_AddAliasTargets
  alias_inv_RemoveAliasTargets alias_inv_DeleteAlias

text \<open>
  The interface \<open>AliasAdmin\<close> of the bot: the operations on an alias table, with their effect on
  the sets of targets.
\<close>

locale alias_admin =
  fixes targets :: "'s \<Rightarrow> string \<Rightarrow> string set"
    and set_group add_targets remove_targets :: "string \<Rightarrow> string list \<Rightarrow> 's \<Rightarrow> 's"
    and delete :: "string \<Rightarrow> 's \<Rightarrow> 's"
    and inv :: "'s \<Rightarrow> bool"
    and key :: "string \<Rightarrow> string"
    and norm :: "string list \<Rightarrow> string set"
  assumes inv_ops: "inv s \<Longrightarrow> inv (set_group a ts s) \<and> inv (add_targets a ts s)
      \<and> inv (remove_targets a ts s) \<and> inv (delete a s)"
    and targets_set: "inv s \<Longrightarrow> targets (set_group a ts s) =
      (if key a = [] \<or> norm ts = {} then targets s else (targets s)(key a := norm ts))"
    and targets_add: "inv s \<Longrightarrow> targets (add_targets a ts s) =
      (if key a = [] then targets s else (targets s)(key a := targets s (key a) \<union> norm ts))"
    and targets_remove: "inv s \<Longrightarrow> targets (remove_targets a ts s) =
      (if key a = [] then targets s else (targets s)(key a := targets s (key a) - norm ts))"
    and targets_delete: "inv s \<Longrightarrow> targets (delete a s) =
      (if key a = [] then targets s else (targets s)(key a := {}))"
begin

lemma frame:
  assumes "inv s" "k \<noteq> key a"
  shows "targets (set_group a ts s) k = targets s k" "targets (add_targets a ts s) k = targets s k"
    "targets (remove_targets a ts s) k = targets s k" "targets (delete a s) k = targets s k"
  using assms by (auto simp: targets_set targets_add targets_remove targets_delete)

lemma add_commute:
  "inv s \<Longrightarrow> targets (add_targets a ts (add_targets b us s)) = targets (add_targets b us (add_targets a ts s))"
  using inv_ops by (auto simp: targets_add fun_eq_iff)

lemma remove_after_add:
  "inv s \<Longrightarrow> targets (remove_targets a ts (add_targets a ts s)) = targets (remove_targets a ts s)"
  using inv_ops by (auto simp: targets_add targets_remove fun_eq_iff)

lemma remove_all_is_delete:
  "inv s \<Longrightarrow> norm ts = targets s (key a) \<Longrightarrow> targets (remove_targets a ts s) = targets (delete a s)"
  by (auto simp: targets_remove targets_delete fun_eq_iff)

lemma set_is_delete_add:
  "inv s \<Longrightarrow> norm ts \<noteq> {} \<Longrightarrow> targets (set_group a ts s) = targets (add_targets a ts (delete a s))"
  using inv_ops by (auto simp: targets_set targets_add targets_delete fun_eq_iff)

end

lemma alias_targets_upd:
  "alias_targets (p\<lparr>aliases := (aliases p)(k \<mapsto> ts)\<rparr>) = (alias_targets p)(k := set ts)"
  "alias_targets (p\<lparr>aliases := (aliases p)(k := None)\<rparr>) = (alias_targets p)(k := {})"
  by (auto simp: alias_targets_def fun_eq_iff)

interpretation parser_admin: alias_admin
  alias_targets "SetAliasGroup L" "AddAliasTargets L" "RemoveAliasTargets L" "DeleteAlias L"
  "\<lambda>p. alias_inv L (aliases p)" "normalize L" "norm_targets L" for L
proof (unfold_locales, goal_cases)
  case (1 s a ts)
  then show ?case by (simp add: alias_inv_ops)
next
  case (2 s a ts)
  then show ?case
    by (auto simp: SetAliasGroup_def Let_def normalize_def [of L a, symmetric] normalizeAliasTargets_empty
        alias_targets_upd set_normalizeAliasTargets)
next
  case (3 s a ts)
  then show ?case
    by (auto simp: AddAliasTargets_def Let_def normalize_def [of L a, symmetric] normalizeAliasTargets_empty
        alias_targets_upd set_normalizeAliasTargets alias_targets_def fun_eq_iff split: option.splits)
next
  case (4 s a ts)
  then show ?case
    by (auto simp: RemoveAliasTargets_def Let_def normalize_def [of L a, symmetric] normalizeAliasTargets_empty
        alias_targets_upd set_normalizeAliasTargets alias_targets_def fun_eq_iff filter_empty_conv
        split: option.splits)
next
  case (5 s a)
  then show ?case
    by (auto simp: DeleteAlias_def Let_def normalize_def [of L a, symmetric] alias_targets_upd)
qed

text \<open>
  C25: The alias commands refine operations on sets: setting replaces the targets of the name,
  adding is union, removing is difference, deleting empties it; all other names keep theirs.
\<close>

theorem alias_ops_refine_sets:
  assumes "alias_inv L (aliases p)" and "normalize L a \<noteq> []"
  shows "alias_targets (AddAliasTargets L a ts p)
      = (alias_targets p)(normalize L a := alias_targets p (normalize L a) \<union> norm_targets L ts)
    \<and> alias_targets (RemoveAliasTargets L a ts p)
      = (alias_targets p)(normalize L a := alias_targets p (normalize L a) - norm_targets L ts)
    \<and> alias_targets (DeleteAlias L a p) = (alias_targets p)(normalize L a := {})
    \<and> alias_targets (SetAliasGroup L a ts p)
      = (if norm_targets L ts = {} then alias_targets p
         else (alias_targets p)(normalize L a := norm_targets L ts))"
  using assms
  by (simp add: parser_admin.targets_set parser_admin.targets_add parser_admin.targets_remove
      parser_admin.targets_delete)

theorem alias_ops_refine_sets_witness:
  "alias_targets (RemoveAliasTargets ascii_golib ''ops'' [''CHATID2'']
     (NewParser ascii_golib ''d'' [''ops'' \<mapsto> [''chatid1'', ''chatid2'']])) ''ops'' = {''chatid1''}"
proof -
  have n: "normalize ascii_golib ''ops'' = ''ops''" by code_simp
  have t: "norm_targets ascii_golib [''CHATID2''] = {''chatid2''}" by code_simp
  have r: "''chatid1'' \<in> range (normalize ascii_golib)" "''chatid2'' \<in> range (normalize ascii_golib)"
    "''ops'' \<in> range (normalize ascii_golib)"
    by (rule range_eqI [of _ _ "''chatid1''"], code_simp)
       (rule range_eqI [of _ _ "''chatid2''"], code_simp, rule range_eqI [of _ _ "''ops''"], code_simp)
  have "alias_inv ascii_golib (aliases (NewParser ascii_golib ''d'' [''ops'' \<mapsto> [''chatid1'', ''chatid2'']]))"
    using r by (simp add: alias_inv_def NewParser_def normal_target_def)
  from alias_ops_refine_sets [OF this, of "''ops''" "[''CHATID2'']"] n t show ?thesis
    by (simp add: alias_targets_def NewParser_def insert_Diff_if)
qed

section \<open>Aliases and delivery\<close>

lemma ValidateAliasTarget_valid:
  "ValidateAliasTarget L t = None \<longleftrightarrow> normalize L t \<noteq> [] \<and> valid_target (normalize L t)"
  by (auto simp: ValidateAliasTarget_def normalize_def [symmetric] Let_def split_flags_def
      valid_target_iff [of _ "normalize L t"] split: option.splits sum.splits if_splits)

lemma valid_target_not_Nil: "valid_target t \<Longrightarrow> t \<noteq> []"
proof
  assume "valid_target t" "t = []"
  moreover have "\<not> valid_target []" by code_simp
  ultimately show False by simp
qed

text \<open>
  A target that the bot validates makes a working alias: once the alias is set to it, mail
  to the alias is accepted and goes to that one chat.
\<close>

lemma validated_alias_resolves:
  assumes "ValidateAliasTarget L t = None"
    and "normalize L a \<noteq> []" and "CHR ''@'' \<notin> set (normalize L a)" and "CHR ''@'' \<notin> set (allowedDomain p)"
    and "normalize L address = normalize L a @ ''@'' @ allowedDomain p"
  shows "\<exists>pr. Parse L (SetAliasGroup L a [t] p) address = Inr pr
    \<and> Targets pr = [target_of (normalize L t)] \<and> AliasUsed pr \<and> SourceLocal pr = normalize L a"
proof -
  have v: "normalize L t \<noteq> []" "valid_target (normalize L t)"
    using assms(1) by (auto simp: ValidateAliasTarget_valid)
  have al: "aliases (SetAliasGroup L a [t] p) (normalize L a) = Some [normalize L t]"
    and dom: "allowedDomain (SetAliasGroup L a [t] p) = allowedDomain p"
    using assms(2) v(1)
    by (simp_all add: SetAliasGroup_def Let_def normalizeAliasTargets_def normalize_def [symmetric])
  have r: "resolve (SetAliasGroup L a [t] p) (normalize L a) = [normalize L t]"
    using al by (simp add: resolve_def)
  show ?thesis
    using assms al dom r v by (auto simp: Parse_Inr_iff)
qed

text \<open>
  One target of an alias that is not a chat identifier blocks the whole alias: mail to it is
  rejected, the valid targets included.
\<close>

lemma invalid_target_blocks_alias:
  assumes "aliases p local = Some ts" and "t \<in> set ts" and "\<not> valid_target t"
    and "normalize L address = local @ ''@'' @ domain"
  shows "\<exists>e. Parse L p address = Inl e"
proof (cases "Parse L p address")
  case (Inr pr)
  obtain l where l: "normalize L address = l @ CHR ''@'' # allowedDomain p" "CHR ''@'' \<notin> set l"
    "CHR ''@'' \<notin> set (allowedDomain p)" "\<forall>t \<in> set (resolve p l). valid_target t"
    using Inr by (auto simp: Parse_Inr_iff)
  have "local = l"
    using append_sep_unique [of local "CHR ''@''" domain l "allowedDomain p"] l assms(4) by simp
  then show ?thesis using l(4) assms(1-3) by (auto simp: resolve_def)
qed simp

section \<open>Loading and saving aliases\<close>

lemma parseAliasValue_normal:
  "parseAliasValue L v = Inr ts \<Longrightarrow> ts \<noteq> [] \<and> distinct ts \<and> (\<forall>t \<in> set ts. normal_target L t)"
proof -
  have s: "ts \<noteq> [] \<and> distinct ts \<and> (\<forall>t \<in> set ts. normal_target L t)"
    if "single_target L x = Inr ts" for x
    using that by (auto simp: single_target_def normalize_def [symmetric] Let_def split: if_splits)
  have l: "ts \<noteq> [] \<and> distinct ts \<and> (\<forall>t \<in> set ts. normal_target L t)"
    if "list_targets L xs = Inr ts" for xs
    using that norm_targets_in [of _ L xs] distinct_normalizeAliasTargets [of L xs]
    by (auto simp: list_targets_def Let_def set_normalizeAliasTargets split: if_splits)
  show "parseAliasValue L v = Inr ts \<Longrightarrow> ?thesis"
    using s l by (auto simp: parseAliasValue_def split: json.splits option.splits)
qed

lemma load_aliases_loop_inv:
  "load_aliases_loop L raw al = Inr al' \<Longrightarrow> alias_inv L al \<Longrightarrow> alias_inv L al'"
proof (induction L raw al rule: load_aliases_loop.induct)
  case (2 L a v raw al)
  then obtain ts where ts: "parseAliasValue L v = Inr ts" by (auto split: sum.splits)
  note n = parseAliasValue_normal [OF ts]
  show ?case
  proof (cases "normalize L a = []")
    case True
    then show ?thesis using "2.IH"(1) [OF ts refl] "2.prems" ts by (simp add: normalize_def)
  next
    case False
    then have "alias_inv L (al(normalize L a \<mapsto> ts))" using 2 n by (auto intro: alias_inv_upd)
    then show ?thesis
      using "2.IH"(2) [OF ts refl] "2.prems"(1) ts n False by (simp add: normalize_def fun_upd_def)
  qed
qed simp

lemma alias_inv_empty [simp]: "alias_inv L Map.empty"
  by (simp add: alias_inv_def)

text \<open>
  Whatever the alias file holds, loading it either fails or yields a well-formed table; a
  missing or empty file yields the empty one.
\<close>

lemma LoadAliases_inv:
  "(case LoadAliases L decode file of Inr al \<Rightarrow> alias_inv L al | Inl _ \<Rightarrow> True)
    \<and> LoadAliases L decode (Inl (OSError True msg)) = Inr Map.empty
    \<and> LoadAliases L decode (Inr []) = Inr Map.empty"
  using load_aliases_loop_inv
  by (auto simp: LoadAliases_def split: sum.splits if_splits)

text \<open>
  The contract of \<open>encoding/json\<close> for an alias table: decoding what was encoded, with the
  newline \<open>SaveAliases\<close> appends, gives the entries back as an object of string arrays, iterated
  in the order \<open>ks\<close>.
\<close>

definition alias_codec ::
  "((string \<rightharpoonup> string list) \<Rightarrow> string result) \<Rightarrow> (string \<Rightarrow> (string \<times> json) list result)
     \<Rightarrow> (string \<rightharpoonup> string list) \<Rightarrow> string list \<Rightarrow> bool" where
  "alias_codec encode decode al ks \<longleftrightarrow>
     (case encode al of
        Inl _ \<Rightarrow> False
      | Inr data \<Rightarrow>
          decode (data @ [CHR 0x0A]) = Inr (map (\<lambda>k. (k, JArray (map JString (the (al k))))) ks))"

lemma json_strings_JString [simp]: "json_strings (map JString ts) = Some ts"
  by (induction ts) auto

lemma parseAliasValue_fixed:
  assumes "ts \<noteq> []" "distinct ts" "\<forall>t \<in> set ts. t \<noteq> [] \<and> normalize L t = t"
  shows "parseAliasValue L (JArray (map JString ts)) = Inr ts"
proof -
  have "map (\<lambda>t. normalize L t) ts = ts" using assms(3) by (simp add: map_idI)
  moreover have "filter (\<lambda>t. t \<noteq> []) ts = ts" using assms(3) by (simp add: filter_id_conv)
  ultimately have "normalizeAliasTargets L ts = ts"
    using assms(2) by (simp add: normalizeAliasTargets_def normalize_def [symmetric] dedup_id)
  then show ?thesis using assms(1) by (simp add: parseAliasValue_def list_targets_def)
qed

lemma load_aliases_loop_fixed:
  assumes "\<And>k. k \<in> set ks \<Longrightarrow> k \<noteq> [] \<and> normalize L k = k \<and> ts k \<noteq> [] \<and> distinct (ts k)
      \<and> (\<forall>t \<in> set (ts k). t \<noteq> [] \<and> normalize L t = t)"
  shows "load_aliases_loop L (map (\<lambda>k. (k, JArray (map JString (ts k)))) ks) al
    = Inr (\<lambda>k. if k \<in> set ks then Some (ts k) else al k)"
  using assms
proof (induction ks arbitrary: al)
  case (Cons k ks)
  have k: "k \<noteq> []" "normalize L k = k" "ts k \<noteq> []" using Cons.prems [of k] by auto
  have v: "parseAliasValue L (JArray (map JString (ts k))) = Inr (ts k)"
    using Cons.prems [of k] by (intro parseAliasValue_fixed) auto
  have IH: "load_aliases_loop L (map (\<lambda>k. (k, JArray (map JString (ts k)))) ks) (al(k \<mapsto> ts k))
      = Inr (\<lambda>j. if j \<in> set ks then Some (ts j) else (al(k \<mapsto> ts k)) j)"
    by (rule Cons.IH) (use Cons.prems in auto)
  show ?case
    using k v IH by (auto simp: Let_def normalize_def [symmetric] fun_eq_iff)
qed simp

text \<open>
  C39: Saving and loading round trip: after a successful save, a restart reads back exactly the
  table that was saved, when its names and targets are in normal form.
\<close>

theorem aliases_save_load:
  assumes "alias_inv L al"
    and "\<And>k ts t. al k = Some ts \<Longrightarrow> normalize L k = k \<and> (t \<in> set ts \<longrightarrow> normalize L t = t)"
    and "map_order al ks" and "alias_codec encode decode al ks" and "io_succeeds F"
  shows "\<exists>data. SaveAliases encode F al file = (None, Some data) \<and> LoadAliases L decode (Inr data) = Inr al"
proof -
  obtain bs where e: "encode al = Inr bs"
    "decode (bs @ [CHR 0x0A]) = Inr (map (\<lambda>k. (k, JArray (map JString (the (al k))))) ks)"
    using assms(4) by (auto simp: alias_codec_def split: sum.splits)
  have ks: "set ks = dom al" using assms(3) by (simp add: map_order_def)
  have "k \<noteq> [] \<and> normalize L k = k \<and> the (al k) \<noteq> [] \<and> distinct (the (al k))
      \<and> (\<forall>t \<in> set (the (al k)). t \<noteq> [] \<and> normalize L t = t)" if "k \<in> set ks" for k
  proof -
    have "k \<in> dom al" using that ks by simp
    then obtain ts where ts: "al k = Some ts" by blast
    then show ?thesis
      using assms(1) assms(2) [OF ts] by (auto simp: alias_inv_def normal_target_def)
  qed
  then have "load_aliases_loop L (map (\<lambda>k. (k, JArray (map JString (the (al k))))) ks) Map.empty
      = Inr (\<lambda>k. if k \<in> set ks then Some (the (al k)) else None)"
    using load_aliases_loop_fixed [of ks L "\<lambda>k. the (al k)" Map.empty] by simp
  moreover have "(\<lambda>k. if k \<in> set ks then Some (the (al k)) else None) = al"
    using ks by (auto simp: fun_eq_iff dom_def split: option.splits)
  ultimately show ?thesis
    using e assms(5) by (simp add: SaveAliases_def LoadAliases_def io_succeeds_def)
qed

theorem aliases_save_load_witness:
  "\<exists>data. SaveAliases (\<lambda>_. Inr ''x'') io_ok [''ops'' \<mapsto> [''chatid1'']] None = (None, Some data)
    \<and> LoadAliases ascii_golib (\<lambda>_. Inr [(''ops'', JArray [JString ''chatid1''])]) (Inr data)
        = Inr [''ops'' \<mapsto> [''chatid1'']]"
proof (rule aliases_save_load)
  have n: "normalize ascii_golib ''ops'' = ''ops''" "normalize ascii_golib ''chatid1'' = ''chatid1''"
    by code_simp+
  have r: "''ops'' \<in> range (normalize ascii_golib)" "''chatid1'' \<in> range (normalize ascii_golib)"
    using n by (metis rangeI)+
  show "alias_inv ascii_golib [''ops'' \<mapsto> [''chatid1'']]"
    using r by (simp add: alias_inv_def normal_target_def)
  show "\<And>k ts t. [''ops'' \<mapsto> [''chatid1'']] k = Some ts \<Longrightarrow>
      normalize ascii_golib k = k \<and> (t \<in> set ts \<longrightarrow> normalize ascii_golib t = t)"
    using n by (auto split: if_splits)
  show "map_order [''ops'' \<mapsto> [''chatid1'']] [''ops'']" by (simp add: map_order_def)
  show "alias_codec (\<lambda>_. Inr ''x'') (\<lambda>_. Inr [(''ops'', JArray [JString ''chatid1''])])
      [''ops'' \<mapsto> [''chatid1'']] [''ops'']"
    by (simp add: alias_codec_def)
qed simp

end
