(* ===== verification/Email.thy ===== *)
theory Email
  imports Go_Conv Go_Search
begin

text \<open>
  \<open>internal/email\<close>: what the relay takes from a message. MIME parsing is the package enmime, and
  the file extensions of a content type come from the system's tables: both are parameters,
  the fields of \<open>mime_lib\<close>. What the program does with their answers is modelled.
\<close>

section \<open>Data\<close>

record Attachment =
  Filename :: string
  ContentType :: string
  SizeBytes :: int
  Data :: string

record ParsedEmail =
  Subject :: string
  From :: string
  To :: "string list"
  TextBody :: string
  HTMLBody :: string
  Attachments :: "Attachment list"
  MessageID :: string

text \<open>The fields of \<open>enmime.Part\<close> and \<open>enmime.Envelope\<close> that the code reads; parts are pointers.\<close>

record part =
  PartID :: string
  p_ContentType :: string
  FileName :: string
  ContentID :: string
  Content :: string

record envelope =
  GetHeader :: "string \<Rightarrow> string"
  e_Text :: string
  e_HTML :: string
  e_Attachments :: "part option list"
  e_Inlines :: "part option list"
  e_OtherParts :: "part option list"

record mime_lib =
  ReadEnvelope :: "string \<Rightarrow> envelope result"
  TextContent :: "part \<Rightarrow> bool"
  ExtensionsByType :: "string \<Rightarrow> string list result"

record email_parser =
  maxBytes :: int

section \<open>Attachment names\<close>

definition alnum :: "int \<Rightarrow> bool" where
  "alnum r \<longleftrightarrow> 97 \<le> r \<and> r \<le> 122 \<or> 65 \<le> r \<and> r \<le> 90 \<or> 48 \<le> r \<and> r \<le> 57"

fun token_loop :: "bool \<Rightarrow> int list \<Rightarrow> string" where
  "token_loop lastDash [] = []"
| "token_loop lastDash (r # rs) =
     (if alnum r then encode_rune r @ token_loop False rs
      else if \<not> lastDash then CHR ''-'' # token_loop True rs
      else token_loop lastDash rs)"

definition sanitizeAttachmentToken :: "string \<Rightarrow> string" where
  "sanitizeAttachmentToken v0 =
     (let v = Trim (TrimSpace v0) ''<>'' in
      if v = [] then [] else Trim (token_loop False (runes v)) ''-'')"

definition attachmentFileName :: "mime_lib \<Rightarrow> part \<Rightarrow> string" where
  "attachmentFileName M p =
     (let name = TrimSpace (FileName p) in
      if name \<noteq> [] then name
      else
        let base0 = sanitizeAttachmentToken (ContentID p);
            base = (if base0 = [] then
                      (let ident = sanitizeAttachmentToken (PartID p) in
                       if ident \<noteq> [] then ''part'' @ ''-'' @ ident else ''part'')
                    else base0);
            ext = (case ExtensionsByType M (TrimSpace (p_ContentType p)) of
                     Inr (e # _) \<Rightarrow> e
                   | _ \<Rightarrow> ''.bin'')
        in base @ ext)"

section \<open>Which parts become attachments\<close>

definition shouldExposeAsAttachment :: "golib \<Rightarrow> mime_lib \<Rightarrow> part option \<Rightarrow> bool \<Rightarrow> bool" where
  "shouldExposeAsAttachment L M pp includeText =
     (case pp of
        None \<Rightarrow> False
      | Some p \<Rightarrow>
          if Content p = [] then False
          else
            let contentType = ToLower L (TrimSpace (p_ContentType p)) in
            if HasPrefix contentType ''multipart/'' then False
            else if includeText then True
            else if TextContent M p then False
            else HasPrefix contentType ''image/'' \<or> HasPrefix contentType ''audio/''
              \<or> HasPrefix contentType ''video/'' \<or> TrimSpace (FileName p) \<noteq> []
              \<or> TrimSpace (ContentID p) \<noteq> [])"

definition to_attachment :: "mime_lib \<Rightarrow> part \<Rightarrow> Attachment" where
  "to_attachment M p = \<lparr>Filename = attachmentFileName M p, ContentType = p_ContentType p,
     SizeBytes = int (length (Content p)), Data = Content p\<rparr>"

text \<open>The attachments added so far and the part ids seen, after each part.\<close>

fun appendPartsAsAttachments ::
  "golib \<Rightarrow> mime_lib \<Rightarrow> part option list \<Rightarrow> bool \<Rightarrow> Attachment list \<times> string set
     \<Rightarrow> Attachment list \<times> string set" where
  "appendPartsAsAttachments L M [] includeText (dst, seen) = (dst, seen)"
| "appendPartsAsAttachments L M (pp # parts) includeText (dst, seen) =
     (case pp of
        Some p \<Rightarrow>
          if \<not> shouldExposeAsAttachment L M pp includeText then
            appendPartsAsAttachments L M parts includeText (dst, seen)
          else if PartID p \<in> seen then appendPartsAsAttachments L M parts includeText (dst, seen)
          else appendPartsAsAttachments L M parts includeText
                 (dst @ [to_attachment M p], insert (PartID p) seen)
      | None \<Rightarrow> appendPartsAsAttachments L M parts includeText (dst, seen))"

definition email_attachments :: "golib \<Rightarrow> mime_lib \<Rightarrow> envelope \<Rightarrow> Attachment list" where
  "email_attachments L M env =
     fst (appendPartsAsAttachments L M (e_OtherParts env) False
       (appendPartsAsAttachments L M (e_Inlines env) False
         (appendPartsAsAttachments L M (e_Attachments env) True ([], {}))))"

definition email_Parse :: "golib \<Rightarrow> mime_lib \<Rightarrow> email_parser \<Rightarrow> string \<Rightarrow> ParsedEmail result" where
  "email_Parse L M p raw =
     (if int (length raw) > maxBytes p then
        Inl (ErrorString (''message too large: '' @ FormatInt (int (length raw)) @ '' > ''
               @ FormatInt (maxBytes p)))
      else
        (case ReadEnvelope M raw of
           Inl err \<Rightarrow> Inl (WrapError ''read message: '' err [])
         | Inr env \<Rightarrow>
             Inr \<lparr>Subject = GetHeader env ''Subject'', From = GetHeader env ''From'',
                  To = (let to = GetHeader env ''To'' in if to \<noteq> [] then [to] else []),
                  TextBody = e_Text env, HTMLBody = e_HTML env,
                  Attachments = email_attachments L M env, MessageID = GetHeader env ''Message-Id''\<rparr>))"

section \<open>Attachment names are safe\<close>

definition token_char :: "char \<Rightarrow> bool" where
  "token_char c \<longleftrightarrow> alnum (byte c) \<or> c = CHR ''-''"

lemma encode_alnum:
  assumes "alnum r"
  shows "encode_rune r = [char_of r]" "byte (char_of r) = r" "char_of r \<noteq> CHR ''-''"
proof -
  show b: "byte (char_of r) = r" using assms by (intro byte_char_of) (auto simp: alnum_def)
  show "encode_rune r = [char_of r]" using assms by (intro encode_rune_ascii) (auto simp: alnum_def)
  have "r \<noteq> byte (CHR ''-'')" using assms by (auto simp: alnum_def)
  then show "char_of r \<noteq> CHR ''-''" using b by metis
qed

abbreviation no_double_dash :: "string \<Rightarrow> bool" where
  "no_double_dash \<equiv> successively (\<lambda>a b. \<not> (a = CHR ''-'' \<and> b = CHR ''-''))"

lemma alnum_mod: "alnum r \<Longrightarrow> r mod 256 = r"
  by (auto simp: alnum_def)

lemma token_loop_chars: "c \<in> set (token_loop d rs) \<Longrightarrow> token_char c"
  by (induction d rs rule: token_loop.induct)
    (auto simp: token_char_def encode_alnum alnum_mod split: if_splits)

lemma token_loop_dashes:
  "no_double_dash (token_loop d rs) \<and> (d \<longrightarrow> token_loop d rs = [] \<or> hd (token_loop d rs) \<noteq> CHR ''-'')"
  by (induction d rs rule: token_loop.induct) (auto simp: encode_alnum successively_Cons)

lemma Trim_dash:
  "Trim t ''-'' = [] \<or> hd (Trim t ''-'') \<noteq> CHR ''-'' \<and> last (Trim t ''-'') \<noteq> CHR ''-''"
  "\<exists>a b. t = a @ Trim t ''-'' @ b"
proof -
  let ?P = "\<lambda>c. c \<in> set ''-''"
  define u where "u = dropWhile ?P t"
  define v where "v = dropWhile ?P (rev u)"
  have tv: "Trim t ''-'' = rev v" by (simp add: Trim_def u_def v_def)
  have t: "t = takeWhile ?P t @ u" by (simp add: u_def)
  have "rev u = takeWhile ?P (rev u) @ v" by (simp add: v_def)
  then have u: "u = rev v @ rev (takeWhile ?P (rev u))" by (metis rev_append rev_rev_ident)
  show "\<exists>a b. t = a @ Trim t ''-'' @ b" using t u tv by metis
  have "v \<noteq> [] \<Longrightarrow> \<not> ?P (hd v)" unfolding v_def by (rule hd_dropWhile)
  moreover have "v \<noteq> [] \<Longrightarrow> hd (rev v) = hd u \<and> \<not> ?P (hd u)"
    using u by (metis append_is_Nil_conv hd_append2 hd_dropWhile rev_is_Nil_conv u_def)
  ultimately show "Trim t ''-'' = [] \<or> hd (Trim t ''-'') \<noteq> CHR ''-'' \<and> last (Trim t ''-'') \<noteq> CHR ''-''"
    by (auto simp: tv last_rev)
qed

lemma sanitized_sublist: "\<exists>a b rs. token_loop False rs = a @ sanitizeAttachmentToken v @ b"
proof (cases "Trim (TrimSpace v) ''<>'' = []")
  case True
  then have "token_loop False [] = [] @ sanitizeAttachmentToken v @ []"
    by (simp add: sanitizeAttachmentToken_def)
  then show ?thesis by blast
next
  case False
  then show ?thesis
    using Trim_dash(2) [of "token_loop False (runes (Trim (TrimSpace v) ''<>''))"]
    by (auto simp: sanitizeAttachmentToken_def Let_def)
qed

lemma sanitized_token:
  "list_all token_char (sanitizeAttachmentToken v) \<and> no_double_dash (sanitizeAttachmentToken v)
   \<and> \<not> HasPrefix (sanitizeAttachmentToken v) ''-'' \<and> \<not> HasSuffix (sanitizeAttachmentToken v) ''-''"
proof -
  obtain a b rs where s: "token_loop False rs = a @ sanitizeAttachmentToken v @ b"
    using sanitized_sublist by blast
  have "list_all token_char (sanitizeAttachmentToken v)"
    using token_loop_chars [of _ False rs] unfolding s list_all_iff by auto
  moreover have "no_double_dash (sanitizeAttachmentToken v)"
    using token_loop_dashes [of False rs] unfolding s by (simp add: successively_append_iff)
  moreover have "sanitizeAttachmentToken v = []
      \<or> hd (sanitizeAttachmentToken v) \<noteq> CHR ''-'' \<and> last (sanitizeAttachmentToken v) \<noteq> CHR ''-''"
    unfolding sanitizeAttachmentToken_def Let_def using Trim_dash(1) by simp
  ultimately show ?thesis by (auto simp: HasPrefix_iff HasSuffix_iff)
qed

text \<open>
  The names made for unnamed parts are harmless as file names: what remains of a content id
  or part id consists of ASCII letters and digits with single dashes between them, so it holds
  no separator, no dot, no control character and no byte of another script.
\<close>

lemma sanitized_token_safe:
  "list_all token_char (sanitizeAttachmentToken v) \<and> no_double_dash (sanitizeAttachmentToken v)
   \<and> \<not> HasPrefix (sanitizeAttachmentToken v) ''-'' \<and> \<not> HasSuffix (sanitizeAttachmentToken v) ''-''"
  by (rule sanitized_token)

text \<open>
  No attachment is without a name: a part that has a file name keeps it, and any other is
  called by a token of its content id or part id, or \<open>part\<close>, with the extension of its type.
\<close>

lemma attachment_named:
  "attachmentFileName M p \<noteq> [] \<and>
   (if TrimSpace (FileName p) \<noteq> [] then attachmentFileName M p = TrimSpace (FileName p)
    else \<exists>base ext. attachmentFileName M p = base @ ext \<and> base \<noteq> []
      \<and> list_all token_char base
      \<and> (ext = ''.bin'' \<or> (\<exists>exts. ExtensionsByType M (TrimSpace (p_ContentType p)) = Inr (ext # exts))))"
proof (cases "TrimSpace (FileName p) = []")
  case True
  let ?c = "sanitizeAttachmentToken (ContentID p)" and ?i = "sanitizeAttachmentToken (PartID p)"
  define base where "base = (if ?c = [] then (if ?i \<noteq> [] then ''part-'' @ ?i else ''part'') else ?c)"
  define ext where "ext = (case ExtensionsByType M (TrimSpace (p_ContentType p)) of Inr (e # _) \<Rightarrow> e | _ \<Rightarrow> ''.bin'')"
  have "attachmentFileName M p = base @ ext"
    using True by (simp add: attachmentFileName_def Let_def base_def ext_def)
  moreover have "base \<noteq> []" "list_all token_char base"
    using sanitized_token [of "ContentID p"] sanitized_token [of "PartID p"]
    by (auto simp: base_def) (simp_all add: token_char_def alnum_def)
  moreover have "ext = ''.bin'' \<or> (\<exists>exts. ExtensionsByType M (TrimSpace (p_ContentType p)) = Inr (ext # exts))"
    by (auto simp: ext_def split: sum.splits list.splits)
  ultimately show ?thesis using True by auto
qed (simp add: attachmentFileName_def)

section \<open>Which attachments a message has\<close>

text \<open>The parts of a list that are exposed, and the first of each part id.\<close>

definition exposed :: "golib \<Rightarrow> mime_lib \<Rightarrow> bool \<Rightarrow> part option list \<Rightarrow> part list" where
  "exposed L M includeText pps =
     List.map_filter (\<lambda>pp. if shouldExposeAsAttachment L M pp includeText then pp else None) pps"

fun first_ids :: "string set \<Rightarrow> part list \<Rightarrow> part list" where
  "first_ids seen [] = []"
| "first_ids seen (p # ps) =
     (if PartID p \<in> seen then first_ids seen ps else p # first_ids (insert (PartID p) seen) ps)"

lemma first_ids_append:
  "first_ids seen (ps @ qs) = first_ids seen ps @ first_ids (seen \<union> PartID ` set ps) qs"
proof (induction seen ps rule: first_ids.induct)
  case (2 seen p ps)
  then show ?case by (auto simp: insert_absorb)
qed simp

lemma first_ids_distinct: "distinct (map PartID (first_ids seen ps)) \<and> PartID ` set (first_ids seen ps) = PartID ` set ps - seen"
  by (induction seen ps rule: first_ids.induct) auto

lemma first_ids_subset: "set (first_ids seen ps) \<subseteq> set ps"
  by (induction seen ps rule: first_ids.induct) auto

lemma append_parts:
  "appendPartsAsAttachments L M pps inc (dst, seen) =
     (dst @ map (to_attachment M) (first_ids seen (exposed L M inc pps)),
      seen \<union> PartID ` set (exposed L M inc pps))"
proof (induction pps arbitrary: dst seen)
  case (Cons pp pps)
  show ?case
  proof (cases pp)
    case None
    then show ?thesis
      using Cons by (simp add: exposed_def List.map_filter_simps shouldExposeAsAttachment_def)
  next
    case (Some p)
    then show ?thesis
      using Cons by (auto simp: exposed_def List.map_filter_simps insert_absorb)
  qed
qed (simp add: exposed_def List.map_filter_simps)

text \<open>All parts of the message that should go out as files, in order.\<close>

definition outgoing_parts :: "golib \<Rightarrow> mime_lib \<Rightarrow> envelope \<Rightarrow> part list" where
  "outgoing_parts L M env = exposed L M True (e_Attachments env)
     @ exposed L M False (e_Inlines env) @ exposed L M False (e_OtherParts env)"

lemma outgoing_nonempty: "p \<in> set (outgoing_parts L M env) \<Longrightarrow> Content p \<noteq> []"
  by (auto simp: outgoing_parts_def exposed_def List.map_filter_def shouldExposeAsAttachment_def
      split: if_splits option.splits)

text \<open>
  C38: The attachments of a parsed message are, in order, its outgoing parts, each part id once:
  nothing is sent twice, every part id that should go out does, and no attachment is empty.
\<close>

theorem attachments_spec:
  "email_attachments L M env = map (to_attachment M) (first_ids {} (outgoing_parts L M env))
   \<and> distinct (map PartID (first_ids {} (outgoing_parts L M env)))
   \<and> PartID ` set (first_ids {} (outgoing_parts L M env)) = PartID ` set (outgoing_parts L M env)
   \<and> list_all (\<lambda>a. Data a \<noteq> [] \<and> SizeBytes a = int (length (Data a))) (email_attachments L M env)"
proof -
  have e: "email_attachments L M env = map (to_attachment M) (first_ids {} (outgoing_parts L M env))"
    by (simp add: email_attachments_def append_parts outgoing_parts_def first_ids_append Un_assoc image_Un)
  have "list_all (\<lambda>a. Data a \<noteq> [] \<and> SizeBytes a = int (length (Data a))) (email_attachments L M env)"
    using first_ids_subset [of "{}" "outgoing_parts L M env"] outgoing_nonempty [of _ L M env]
    unfolding e by (auto simp: to_attachment_def list_all_iff)
  then show ?thesis using e first_ids_distinct [of "{}"] by simp
qed

lemma email_Parse_fails_iff:
  "(\<exists>err. email_Parse L M p raw = Inl err) \<longleftrightarrow>
     maxBytes p < int (length raw) \<or> (\<exists>err. ReadEnvelope M raw = Inl err)"
  by (auto simp: email_Parse_def split: sum.splits)

end
