(* ===== verification/Metrics.thy ===== *)
theory Metrics
  imports Go_Conv
begin

text \<open>
  \<open>internal/metrics/collector.go\<close>: counters, delivery events and latency histograms.

  Counters are 64-bit words and wrap. Latencies are kept in nanoseconds: the code compares
  \<open>d.Seconds()\<close> with the bucket bounds in floating point, and since the conversion is correctly
  rounded and monotone, and the bounds are whole nanoseconds below \<open>2 ^ 53\<close>, each comparison has
  the answer of the exact one. The float sum of a histogram is kept as the list of its terms.
\<close>

section \<open>State\<close>

record deliveryKey =
  Address :: string
  Delivered :: bool
  MaxRecipient :: string
  RecipientName :: string

record deliveryEvent =
  At :: time
  Key :: deliveryKey

record latencyHistogram =
  buckets :: "u64 list"
  hist_sum :: "duration list"
  hist_count :: u64

record Collector =
  received :: u64
  relayed :: u64
  failed :: u64
  textSent :: u64
  filesSent :: u64
  dlqEnqueued :: u64
  dlqReplayed :: u64
  dlqReplayFailed :: u64
  dlqPending :: u64
  dlqFailed :: u64
  dlqDone :: u64
  dlqOldestSec :: u64
  maxSendRateLimited :: u64
  maxSendQueueDepth :: u64
  maxSendQueueDrop :: u64
  deliveryByAddress :: "deliveryKey \<rightharpoonup> u64"
  deliveryEvents :: "deliveryEvent list"
  latencies :: "string \<rightharpoonup> latencyHistogram"

definition maxStoredDeliveryEvents :: nat where
  "maxStoredDeliveryEvents = 50000"

text \<open>\<open>latencyBucketUpperBounds\<close>, in nanoseconds.\<close>

definition latencyBucketUpperBounds :: "duration list" where
  "latencyBucketUpperBounds =
     [10000000, 50000000, 100000000, 250000000, 500000000, 1000000000, 2000000000, 5000000000, 10000000000]"

definition NewCollector :: Collector where
  "NewCollector = \<lparr>received = 0, relayed = 0, failed = 0, textSent = 0, filesSent = 0,
     dlqEnqueued = 0, dlqReplayed = 0, dlqReplayFailed = 0, dlqPending = 0, dlqFailed = 0,
     dlqDone = 0, dlqOldestSec = 0, maxSendRateLimited = 0, maxSendQueueDepth = 0,
     maxSendQueueDrop = 0, deliveryByAddress = Map.empty, deliveryEvents = [], latencies = Map.empty\<rparr>"

section \<open>Operations\<close>

definition IncReceived :: "Collector \<Rightarrow> Collector" where
  "IncReceived c = c\<lparr>received := received c + 1\<rparr>"

definition IncRelayed :: "Collector \<Rightarrow> Collector" where
  "IncRelayed c = c\<lparr>relayed := relayed c + 1\<rparr>"

definition IncFailed :: "Collector \<Rightarrow> Collector" where
  "IncFailed c = c\<lparr>failed := failed c + 1\<rparr>"

definition IncTextSent :: "Collector \<Rightarrow> Collector" where
  "IncTextSent c = c\<lparr>textSent := textSent c + 1\<rparr>"

definition IncFilesSent :: "Collector \<Rightarrow> Collector" where
  "IncFilesSent c = c\<lparr>filesSent := filesSent c + 1\<rparr>"

definition IncDLQEnqueued :: "Collector \<Rightarrow> Collector" where
  "IncDLQEnqueued c = c\<lparr>dlqEnqueued := dlqEnqueued c + 1\<rparr>"

definition IncDLQReplayed :: "Collector \<Rightarrow> Collector" where
  "IncDLQReplayed c = c\<lparr>dlqReplayed := dlqReplayed c + 1\<rparr>"

definition IncDLQReplayFailed :: "Collector \<Rightarrow> Collector" where
  "IncDLQReplayFailed c = c\<lparr>dlqReplayFailed := dlqReplayFailed c + 1\<rparr>"

definition IncMaxSendRateLimited :: "Collector \<Rightarrow> Collector" where
  "IncMaxSendRateLimited c = c\<lparr>maxSendRateLimited := maxSendRateLimited c + 1\<rparr>"

definition SetMaxSendQueueDepth :: "u64 \<Rightarrow> Collector \<Rightarrow> Collector" where
  "SetMaxSendQueueDepth v c = c\<lparr>maxSendQueueDepth := v\<rparr>"

definition IncMaxSendQueueDropped :: "Collector \<Rightarrow> Collector" where
  "IncMaxSendQueueDropped c = c\<lparr>maxSendQueueDrop := maxSendQueueDrop c + 1\<rparr>"

definition SetDLQBacklog :: "u64 \<Rightarrow> u64 \<Rightarrow> u64 \<Rightarrow> u64 \<Rightarrow> Collector \<Rightarrow> Collector" where
  "SetDLQBacklog pending failed' done' oldestPendingSeconds c =
     c\<lparr>dlqPending := pending, dlqFailed := failed', dlqDone := done', dlqOldestSec := oldestPendingSeconds\<rparr>"

definition delivery_key :: "golib \<Rightarrow> string \<Rightarrow> bool \<Rightarrow> string \<Rightarrow> string \<Rightarrow> deliveryKey" where
  "delivery_key L address delivered maxRecipientID recipientName =
     \<lparr>Address = TrimSpace (ToLower L address), Delivered = delivered,
      MaxRecipient = TrimSpace maxRecipientID, RecipientName = TrimSpace recipientName\<rparr>"

text \<open>Indexing a Go map of counters: 0 for a missing key.\<close>

definition count_at :: "('k \<rightharpoonup> u64) \<Rightarrow> 'k \<Rightarrow> u64" where
  "count_at m k = (case m k of Some n \<Rightarrow> n | None \<Rightarrow> 0)"

definition ObserveDelivery ::
  "golib \<Rightarrow> time \<Rightarrow> string \<Rightarrow> bool \<Rightarrow> string \<Rightarrow> string \<Rightarrow> Collector \<Rightarrow> Collector" where
  "ObserveDelivery L now address delivered maxRecipientID recipientName c =
     (let k = delivery_key L address delivered maxRecipientID recipientName;
          evs = deliveryEvents c @ [\<lparr>At = now, Key = k\<rparr>]
      in c\<lparr>deliveryByAddress := (deliveryByAddress c)(k \<mapsto> count_at (deliveryByAddress c) k + 1),
           deliveryEvents := (if length evs > maxStoredDeliveryEvents
                              then drop (length evs - maxStoredDeliveryEvents) evs else evs)\<rparr>)"

definition new_histogram :: latencyHistogram where
  "new_histogram = \<lparr>buckets = replicate (length latencyBucketUpperBounds) 0, hist_sum = [], hist_count = 0\<rparr>"

definition observe_buckets :: "duration \<Rightarrow> u64 list \<Rightarrow> u64 list" where
  "observe_buckets d bs = map2 (\<lambda>ub n. if d \<le> ub then n + 1 else n) latencyBucketUpperBounds bs"

definition ObserveLatency :: "golib \<Rightarrow> string \<Rightarrow> duration \<Rightarrow> Collector \<Rightarrow> Collector" where
  "ObserveLatency L stage0 d0 c =
     (let stage = TrimSpace (ToLower L stage0) in
      if stage = [] then c
      else
        let d = (if d0 < 0 then 0 else d0);
            h = (case latencies c stage of Some h \<Rightarrow> h | None \<Rightarrow> new_histogram)
        in c\<lparr>latencies := (latencies c)(stage \<mapsto>
               h\<lparr>buckets := observe_buckets d (buckets h), hist_count := hist_count h + 1,
                 hist_sum := hist_sum h @ [d]\<rparr>)\<rparr>)"

section \<open>What the collector holds\<close>

lemmas counter_defs = IncReceived_def IncRelayed_def IncFailed_def IncTextSent_def IncFilesSent_def
  IncDLQEnqueued_def IncDLQReplayed_def IncDLQReplayFailed_def IncMaxSendRateLimited_def
  IncMaxSendQueueDropped_def SetMaxSendQueueDepth_def SetDLQBacklog_def

text \<open>The updates the rate limiter makes, and all that the parts of the program record.\<close>

datatype limiter_update = RateLimited | QueueDropped | QueueDepth u64

fun apply_update :: "limiter_update \<Rightarrow> Collector \<Rightarrow> Collector" where
  "apply_update RateLimited = IncMaxSendRateLimited"
| "apply_update QueueDropped = IncMaxSendQueueDropped"
| "apply_update (QueueDepth v) = SetMaxSendQueueDepth v"

datatype observation =
    ObsReceived | ObsRelayed | ObsFailed | ObsTextSent | ObsFilesSent
  | ObsDLQEnqueued | ObsDLQReplayed | ObsDLQReplayFailed
  | ObsLimiter limiter_update
  | ObsBacklog u64 u64 u64 u64
  | ObsDelivery time string bool string string
  | ObsLatency string duration

fun observe :: "golib \<Rightarrow> observation \<Rightarrow> Collector \<Rightarrow> Collector" where
  "observe L ObsReceived = IncReceived"
| "observe L ObsRelayed = IncRelayed"
| "observe L ObsFailed = IncFailed"
| "observe L ObsTextSent = IncTextSent"
| "observe L ObsFilesSent = IncFilesSent"
| "observe L ObsDLQEnqueued = IncDLQEnqueued"
| "observe L ObsDLQReplayed = IncDLQReplayed"
| "observe L ObsDLQReplayFailed = IncDLQReplayFailed"
| "observe L (ObsLimiter u) = apply_update u"
| "observe L (ObsBacklog p f d t) = SetDLQBacklog p f d t"
| "observe L (ObsDelivery now a b m n) = ObserveDelivery L now a b m n"
| "observe L (ObsLatency s d) = ObserveLatency L s d"

text \<open>What a recording is to the delivery statistics and to the histogram of stage \<open>s\<close>.\<close>

fun event_of :: "golib \<Rightarrow> observation \<Rightarrow> deliveryEvent option" where
  "event_of L (ObsDelivery now a b m n) =
     Some \<lparr>At = now, Key = \<lparr>Address = TrimSpace (ToLower L a), Delivered = b,
       MaxRecipient = TrimSpace m, RecipientName = TrimSpace n\<rparr>\<rparr>"
| "event_of L _ = None"

fun latency_of :: "golib \<Rightarrow> string \<Rightarrow> observation \<Rightarrow> duration option" where
  "latency_of L s (ObsLatency stage d) =
     (if s \<noteq> [] \<and> TrimSpace (ToLower L stage) = s then Some (max 0 d) else None)"
| "latency_of L s _ = None"

definition recorded_events :: "golib \<Rightarrow> observation list \<Rightarrow> deliveryEvent list" where
  "recorded_events L obs = List.map_filter (event_of L) obs"

definition recorded_latencies :: "golib \<Rightarrow> string \<Rightarrow> observation list \<Rightarrow> duration list" where
  "recorded_latencies L s obs = List.map_filter (latency_of L s) obs"

definition collected :: "golib \<Rightarrow> observation list \<Rightarrow> Collector" where
  "collected L obs = fold (observe L) obs NewCollector"

lemma collected_Nil [simp]: "collected L [] = NewCollector"
  by (simp add: collected_def)

lemma collected_snoc [simp]: "collected L (obs @ [ob]) = observe L ob (collected L obs)"
  by (simp add: collected_def)

lemma recorded_Nil [simp]: "recorded_events L [] = []" "recorded_latencies L s [] = []"
  by (simp_all add: recorded_events_def recorded_latencies_def List.map_filter_def)

lemma recorded_snoc [simp]:
  "recorded_events L (obs @ [ob])
     = recorded_events L obs @ (case event_of L ob of None \<Rightarrow> [] | Some ev \<Rightarrow> [ev])"
  "recorded_latencies L s (obs @ [ob])
     = recorded_latencies L s obs @ (case latency_of L s ob of None \<Rightarrow> [] | Some d \<Rightarrow> [d])"
  by (simp_all add: recorded_events_def recorded_latencies_def List.map_filter_def split: option.splits)

lemma apply_update_frame [simp]:
  "deliveryByAddress (apply_update u c) = deliveryByAddress c" "deliveryEvents (apply_update u c) = deliveryEvents c"
  "latencies (apply_update u c) = latencies c" "received (apply_update u c) = received c"
  "relayed (apply_update u c) = relayed c" "failed (apply_update u c) = failed c"
  "textSent (apply_update u c) = textSent c" "filesSent (apply_update u c) = filesSent c"
  "dlqEnqueued (apply_update u c) = dlqEnqueued c" "dlqReplayed (apply_update u c) = dlqReplayed c"
  "dlqReplayFailed (apply_update u c) = dlqReplayFailed c"
  by (cases u, simp_all add: counter_defs)+

lemma ObserveDelivery_frame [simp]:
  "latencies (ObserveDelivery L now a b m n c) = latencies c" "received (ObserveDelivery L now a b m n c) = received c"
  "relayed (ObserveDelivery L now a b m n c) = relayed c" "failed (ObserveDelivery L now a b m n c) = failed c"
  "textSent (ObserveDelivery L now a b m n c) = textSent c" "filesSent (ObserveDelivery L now a b m n c) = filesSent c"
  "dlqEnqueued (ObserveDelivery L now a b m n c) = dlqEnqueued c"
  "dlqReplayed (ObserveDelivery L now a b m n c) = dlqReplayed c"
  "dlqReplayFailed (ObserveDelivery L now a b m n c) = dlqReplayFailed c"
  by (simp_all add: ObserveDelivery_def Let_def)

lemma ObserveLatency_frame [simp]:
  "deliveryByAddress (ObserveLatency L s d c) = deliveryByAddress c"
  "deliveryEvents (ObserveLatency L s d c) = deliveryEvents c" "received (ObserveLatency L s d c) = received c"
  "relayed (ObserveLatency L s d c) = relayed c" "failed (ObserveLatency L s d c) = failed c"
  "textSent (ObserveLatency L s d c) = textSent c" "filesSent (ObserveLatency L s d c) = filesSent c"
  "dlqEnqueued (ObserveLatency L s d c) = dlqEnqueued c" "dlqReplayed (ObserveLatency L s d c) = dlqReplayed c"
  "dlqReplayFailed (ObserveLatency L s d c) = dlqReplayFailed c"
  by (simp_all add: ObserveLatency_def Let_def)

lemma collected_counters:
  "received (collected L obs) = of_nat (count_list obs ObsReceived)
    \<and> relayed (collected L obs) = of_nat (count_list obs ObsRelayed)
    \<and> failed (collected L obs) = of_nat (count_list obs ObsFailed)
    \<and> textSent (collected L obs) = of_nat (count_list obs ObsTextSent)
    \<and> filesSent (collected L obs) = of_nat (count_list obs ObsFilesSent)
    \<and> dlqEnqueued (collected L obs) = of_nat (count_list obs ObsDLQEnqueued)
    \<and> dlqReplayed (collected L obs) = of_nat (count_list obs ObsDLQReplayed)
    \<and> dlqReplayFailed (collected L obs) = of_nat (count_list obs ObsDLQReplayFailed)"
proof (induction obs rule: rev_induct)
  case (snoc ob obs)
  then show ?case by (cases ob) (simp_all add: counter_defs)
qed (simp add: NewCollector_def)

lemma collected_limiter:
  "maxSendRateLimited (collected L obs) = of_nat (count_list obs (ObsLimiter RateLimited))
    \<and> maxSendQueueDrop (collected L obs) = of_nat (count_list obs (ObsLimiter QueueDropped))"
proof (induction obs rule: rev_induct)
  case (snoc ob obs)
  then show ?case
  proof (cases ob)
    case (ObsLimiter u)
    then show ?thesis using snoc by (cases u) (simp_all add: counter_defs)
  qed (simp_all add: counter_defs ObserveDelivery_def ObserveLatency_def Let_def)
qed (simp add: NewCollector_def)

definition kept_count :: "deliveryKey \<Rightarrow> deliveryEvent list \<Rightarrow> nat" where
  "kept_count k evs = length (filter (\<lambda>ev. Key ev = k) evs)"

lemma collected_counts:
  "deliveryByAddress (collected L obs) k =
     (let n = kept_count k (recorded_events L obs) in if n = 0 then None else Some (of_nat n))"
proof (induction obs arbitrary: k rule: rev_induct)
  case (snoc ob obs)
  show ?case
  proof (cases "event_of L ob")
    case None
    then show ?thesis using snoc [of k] by (cases ob) (simp_all add: counter_defs)
  next
    case (Some ev)
    then obtain now a b m n where "ob = ObsDelivery now a b m n" by (cases ob) simp_all
    then show ?thesis
      using snoc
      by (auto simp: ObserveDelivery_def Let_def delivery_key_def count_at_def kept_count_def split: option.splits)
  qed
qed (simp add: NewCollector_def kept_count_def)

lemma collected_events:
  "deliveryEvents (collected L obs) =
     (let evs = recorded_events L obs in drop (length evs - maxStoredDeliveryEvents) evs)"
proof (induction obs rule: rev_induct)
  case (snoc ob obs)
  show ?case
  proof (cases "event_of L ob")
    case None
    then show ?thesis using snoc by (cases ob) (simp_all add: counter_defs)
  next
    case (Some ev)
    then obtain now a b m n where ob: "ob = ObsDelivery now a b m n" by (cases ob) simp_all
    let ?evs = "recorded_events L obs"
    have "maxStoredDeliveryEvents > 0" by (simp add: maxStoredDeliveryEvents_def)
    then show ?thesis
      using snoc ob
      by (cases "length ?evs < maxStoredDeliveryEvents")
        (simp_all add: ObserveDelivery_def Let_def delivery_key_def Suc_diff_le not_less)
  qed
qed (simp add: NewCollector_def)

lemma new_histogram_exact:
  "new_histogram = \<lparr>buckets = map (\<lambda>ub. 0) latencyBucketUpperBounds, hist_sum = [], hist_count = 0\<rparr>"
  by (simp add: new_histogram_def map_replicate_const)

lemma map2_map_right: "map2 g xs (map f xs) = map (\<lambda>x. g x (f x)) xs"
  by (induction xs) auto

lemma observe_buckets_map:
  "observe_buckets d (map f latencyBucketUpperBounds)
     = map (\<lambda>ub. if d \<le> ub then f ub + 1 else f ub) latencyBucketUpperBounds"
  by (simp add: observe_buckets_def map2_map_right)

text \<open>The histogram of a list of durations.\<close>

definition histogram_of :: "duration list \<Rightarrow> latencyHistogram" where
  "histogram_of ds =
     \<lparr>buckets = map (\<lambda>ub. of_nat (length (filter (\<lambda>d. d \<le> ub) ds))) latencyBucketUpperBounds,
      hist_sum = ds, hist_count = of_nat (length ds)\<rparr>"

lemma histogram_snoc:
  "h = (if ds = [] then new_histogram else histogram_of ds) \<Longrightarrow>
     h\<lparr>buckets := observe_buckets d (buckets h), hist_count := hist_count h + 1, hist_sum := hist_sum h @ [d]\<rparr>
       = histogram_of (ds @ [d])"
  by (auto simp: new_histogram_exact histogram_of_def observe_buckets_map)

lemma collected_latencies:
  "latencies (collected L obs) s =
     (let ds = recorded_latencies L s obs in if ds = [] then None else Some (histogram_of ds))"
proof (induction obs rule: rev_induct)
  case (snoc ob obs)
  show ?case
  proof (cases "\<exists>stage d. ob = ObsLatency stage d")
    case False
    then show ?thesis using snoc by (cases ob) (simp_all add: counter_defs)
  next
    case True
    then obtain stage d where ob: "ob = ObsLatency stage d" by blast
    let ?h = "case latencies (collected L obs) s of Some h \<Rightarrow> h | None \<Rightarrow> new_histogram"
    have "?h = (if recorded_latencies L s obs = [] then new_histogram else histogram_of (recorded_latencies L s obs))"
      using snoc by (simp add: Let_def)
    note h = histogram_snoc [OF this]
    have m: "max 0 d = (if d < 0 then 0 else d)" by auto
    show ?thesis
      using snoc ob h [of "max 0 d"] unfolding m by (auto simp: ObserveLatency_def Let_def)
  qed
qed (simp add: NewCollector_def)

text \<open>
  C36: Whatever is recorded in whatever order, the collector is exact (modulo \<open>2 ^ 64\<close>): each event
  counter is the number of its recordings; each combination of address, outcome and recipient,
  in the form it is reported in, is counted once for every delivery recorded for it, and not
  listed when there is none; the events kept are the latest 50000; and the histogram of a stage
  holds exactly the durations observed for it, negative ones as 0, each in every bucket whose
  bound it does not exceed. Nothing is kept for an empty stage.
\<close>

theorem collector_exact:
  "let c = fold (observe L) obs NewCollector;
       evs = List.map_filter (event_of L) obs;
       ds = List.map_filter (latency_of L s) obs
   in deliveryByAddress c k =
        (let n = length (filter (\<lambda>ev. Key ev = k) evs) in if n = 0 then None else Some (of_nat n))
    \<and> deliveryEvents c = drop (length evs - 50000) evs
    \<and> latencies c s =
        (if ds = [] then None
         else Some \<lparr>buckets = map (\<lambda>ub. of_nat (length (filter (\<lambda>d. d \<le> ub) ds))) latencyBucketUpperBounds,
                    hist_sum = ds, hist_count = of_nat (length ds)\<rparr>)
    \<and> received c = of_nat (count_list obs ObsReceived)
    \<and> relayed c = of_nat (count_list obs ObsRelayed)
    \<and> failed c = of_nat (count_list obs ObsFailed)
    \<and> textSent c = of_nat (count_list obs ObsTextSent)
    \<and> filesSent c = of_nat (count_list obs ObsFilesSent)
    \<and> dlqEnqueued c = of_nat (count_list obs ObsDLQEnqueued)
    \<and> dlqReplayed c = of_nat (count_list obs ObsDLQReplayed)
    \<and> dlqReplayFailed c = of_nat (count_list obs ObsDLQReplayFailed)
    \<and> maxSendRateLimited c = of_nat (count_list obs (ObsLimiter RateLimited))
    \<and> maxSendQueueDrop c = of_nat (count_list obs (ObsLimiter QueueDropped))"
  using collected_counts [of L obs k] collected_events [of L obs] collected_latencies [of L obs s]
    collected_counters [of L obs] collected_limiter [of L obs]
  by (simp add: Let_def collected_def recorded_events_def recorded_latencies_def kept_count_def
      histogram_of_def maxStoredDeliveryEvents_def)

end
