(* ===== verification/Dlq_Store.thy ===== *)
theory Dlq_Store
  imports Go_Os
begin

text \<open>
  \<open>internal/dlq/store.go\<close>: the dead-letter queue, a map of items in memory that every change
  writes to a file (to a temporary file first, then renamed over the old one).

  Each operation runs under the store's mutex, so it is one function. What it reads from outside
  is its \<open>store_env\<close>: the clock, random bytes, the order in which the map is iterated, and what
  the file operations answer. \<open>codec\<close> is \<open>encoding/json\<close> on lists of items.
\<close>

section \<open>Data\<close>

datatype status =
    StatusPending
  | StatusProcessing
  | StatusDone
  | StatusFailed
  | StatusOther string

record item =
  ID :: string
  Fingerprint :: string
  ItemRecipient :: string
  RawMessage :: string
  LastError :: string
  Status :: status
  Attempt :: int
  NextRetryAt :: time
  CreatedAt :: time
  UpdatedAt :: time

record dlq_stats =
  Pending :: u64
  Failed :: u64
  Done :: u64

record FileStore =
  items :: "string \<rightharpoonup> item"
  dlqfile :: "string option"
  tmpfile :: "string option"

record codec =
  marshal :: "item list \<Rightarrow> string result"
  unmarshal :: "string \<Rightarrow> item list result"

record store_env =
  se_now :: time
  se_rand :: string
  se_iter :: "(string \<rightharpoonup> item) \<Rightarrow> string list"
  se_fs :: fs_io

text \<open>The runtime iterates every map in some order of all its keys.\<close>

definition iterates :: "store_env \<Rightarrow> (string \<rightharpoonup> item) \<Rightarrow> bool" where
  "iterates E m \<longleftrightarrow> map_order m (se_iter E m)"

section \<open>Writing and reading the file\<close>

definition payloadFingerprint :: "golib \<Rightarrow> string \<Rightarrow> string \<Rightarrow> string" where
  "payloadFingerprint L recipient rawMessage = sha256_hex L (recipient @ ''|'' @ hex_string rawMessage)"

definition sort_created :: "item list \<Rightarrow> item list" where
  "sort_created = sort_slice (\<lambda>a b. CreatedAt a < CreatedAt b)"

text \<open>The error \<open>persistLocked\<close> returns, and the store with its two files afterwards.\<close>

definition persistLocked :: "codec \<Rightarrow> store_env \<Rightarrow> FileStore \<Rightarrow> error option \<times> FileStore" where
  "persistLocked C E s =
     (case io_mkdir (se_fs E) of
        Some err \<Rightarrow> (Some err, s)
      | None \<Rightarrow>
          (case marshal C (sort_created (map_values (items s) (se_iter E (items s)))) of
             Inl err \<Rightarrow> (Some err, s)
           | Inr bytes \<Rightarrow>
               let data = bytes @ [CHR 0x0A] in
               (case io_write (se_fs E) of
                  Some (err, left) \<Rightarrow> (Some err, s\<lparr>tmpfile := left\<rparr>)
                | None \<Rightarrow>
                    (case io_rename (se_fs E) of
                       Some err \<Rightarrow> (Some err, s\<lparr>tmpfile := Some data\<rparr>)
                     | None \<Rightarrow> (None, s\<lparr>dlqfile := Some data, tmpfile := None\<rparr>)))))"

text \<open>One item read back: work in progress is pending again, a missing fingerprint is filled in.\<close>

definition load_item :: "golib \<Rightarrow> item \<Rightarrow> item" where
  "load_item L it0 =
     (let it1 = (if Status it0 = StatusProcessing then it0\<lparr>Status := StatusPending\<rparr> else it0) in
      if Fingerprint it1 = []
        then it1\<lparr>Fingerprint := payloadFingerprint L (ItemRecipient it1) (RawMessage it1)\<rparr>
        else it1)"

fun load_loop :: "golib \<Rightarrow> item list \<Rightarrow> (string \<rightharpoonup> item) \<Rightarrow> (string \<rightharpoonup> item)" where
  "load_loop L [] m = m"
| "load_loop L (it # its) m = load_loop L its (m(ID it \<mapsto> load_item L it))"

text \<open>
  \<open>NewFileStore\<close> with \<open>load\<close>: \<open>read\<close> is what \<open>os.ReadFile\<close> answers, an error or the bytes.
\<close>

definition NewFileStore ::
  "golib \<Rightarrow> codec \<Rightarrow> string result \<Rightarrow> string option \<Rightarrow> string option \<Rightarrow> FileStore result" where
  "NewFileStore L C read f tmp =
     (let s = \<lparr>items = Map.empty, dlqfile = f, tmpfile = tmp\<rparr> in
      case read of
        Inl err \<Rightarrow> if IsNotExist err then Inr s else Inl err
      | Inr data \<Rightarrow>
          if data = [] then Inr s
          else (case unmarshal C data of
                  Inl err \<Rightarrow> Inl err
                | Inr its \<Rightarrow> Inr (s\<lparr>items := load_loop L its Map.empty\<rparr>)))"

section \<open>Operations\<close>

definition set_error :: "golib \<Rightarrow> error option \<Rightarrow> item \<Rightarrow> item" where
  "set_error L lastErr it = (case lastErr of None \<Rightarrow> it | Some e \<Rightarrow> it\<lparr>LastError := Error L e\<rparr>)"

text \<open>\<open>time.Time.UnixNano\<close>: nanoseconds since 1970, at 64 bits.\<close>

definition UnixNano :: "time \<Rightarrow> int" where
  "UnixNano t = wrap64 (t - 62135596800 * 1000000000)"

definition active :: "item \<Rightarrow> bool" where
  "active it \<longleftrightarrow> Status it = StatusPending \<or> Status it = StatusProcessing"

definition new_item :: "golib \<Rightarrow> store_env \<Rightarrow> string \<Rightarrow> string \<Rightarrow> error option \<Rightarrow> item" where
  "new_item L E recipient rawMessage lastErr =
     set_error L lastErr
       \<lparr>ID = sha256_hex L (FormatInt (UnixNano (se_now E)) @ ''|'' @ hex_string (se_rand E)
                @ ''|'' @ hex_string rawMessage),
        Fingerprint = payloadFingerprint L recipient rawMessage,
        ItemRecipient = recipient, RawMessage = rawMessage, LastError = [],
        Status = StatusPending, Attempt = 0,
        NextRetryAt = se_now E, CreatedAt = se_now E, UpdatedAt = se_now E\<rparr>"

definition duplicate_of :: "string \<Rightarrow> item \<Rightarrow> bool" where
  "duplicate_of fingerprint existing \<longleftrightarrow>
     Fingerprint existing \<noteq> [] \<and> Fingerprint existing = fingerprint \<and> active existing"

definition Enqueue ::
  "golib \<Rightarrow> codec \<Rightarrow> store_env \<Rightarrow> string \<Rightarrow> string \<Rightarrow> error option \<Rightarrow> FileStore
     \<Rightarrow> item result \<times> FileStore" where
  "Enqueue L C E recipient rawMessage lastErr s =
     (let fingerprint = payloadFingerprint L recipient rawMessage;
          it = (case List.find (duplicate_of fingerprint) (map_values (items s) (se_iter E (items s))) of
                  Some existing \<Rightarrow> (set_error L lastErr existing)\<lparr>UpdatedAt := se_now E\<rparr>
                | None \<Rightarrow> new_item L E recipient rawMessage lastErr)
      in case persistLocked C E (s\<lparr>items := (items s)(ID it \<mapsto> it)\<rparr>) of
           (Some err, s') \<Rightarrow> (Inl err, s')
         | (None, s') \<Rightarrow> (Inr it, s'))"

text \<open>Indexing a Go map: the zero value for a missing key.\<close>

definition zero_item :: item where
  "zero_item = \<lparr>ID = [], Fingerprint = [], ItemRecipient = [], RawMessage = [], LastError = [],
     Status = StatusOther [], Attempt = 0, NextRetryAt = 0, CreatedAt = 0, UpdatedAt = 0\<rparr>"

definition item_at :: "(string \<rightharpoonup> item) \<Rightarrow> string \<Rightarrow> item" where
  "item_at m ident = (case m ident of Some it \<Rightarrow> it | None \<Rightarrow> zero_item)"

text \<open>The ids that \<open>PickDue\<close> may take, earliest retry time first, and the loop that takes them.\<close>

definition due :: "time \<Rightarrow> item \<Rightarrow> bool" where
  "due now it \<longleftrightarrow> Status it = StatusPending \<and> \<not> NextRetryAt it > now"

definition due_ids :: "store_env \<Rightarrow> time \<Rightarrow> FileStore \<Rightarrow> string list" where
  "due_ids E now s =
     sort_slice (\<lambda>a b. NextRetryAt (item_at (items s) a) < NextRetryAt (item_at (items s) b))
       (filter (\<lambda>ident. due now (item_at (items s) ident)) (se_iter E (items s)))"

definition mark_processing :: "time \<Rightarrow> item \<Rightarrow> item" where
  "mark_processing now it = it\<lparr>Status := StatusProcessing, UpdatedAt := now\<rparr>"

fun pick_loop :: "time \<Rightarrow> string list \<Rightarrow> (string \<rightharpoonup> item) \<Rightarrow> item list \<times> (string \<rightharpoonup> item)" where
  "pick_loop now [] m = ([], m)"
| "pick_loop now (ident # ids) m =
     (let it = mark_processing now (item_at m ident);
          (out, m') = pick_loop now ids (m(ident \<mapsto> it))
      in (it # out, m'))"

definition PickDue ::
  "codec \<Rightarrow> store_env \<Rightarrow> int \<Rightarrow> time \<Rightarrow> FileStore \<Rightarrow> item list result \<times> FileStore" where
  "PickDue C E limit0 now s =
     (let limit = (if limit0 \<le> 0 then 10 else limit0);
          (out, m) = pick_loop now (take (nat limit) (due_ids E now s)) (items s);
          s1 = s\<lparr>items := m\<rparr>
      in if out = [] then (Inr out, s1)
         else case persistLocked C E s1 of
           (Some err, s2) \<Rightarrow> (Inl err, s2)
         | (None, s2) \<Rightarrow> (Inr out, s2))"

definition not_found :: "string \<Rightarrow> error" where
  "not_found ident = ErrorString (''dlq item not found: '' @ ident)"

definition MarkDone :: "codec \<Rightarrow> store_env \<Rightarrow> string \<Rightarrow> FileStore \<Rightarrow> error option \<times> FileStore" where
  "MarkDone C E ident s =
     (case items s ident of
        None \<Rightarrow> (Some (not_found ident), s)
      | Some it \<Rightarrow>
          persistLocked C E
            (s\<lparr>items := (items s)(ident \<mapsto> it\<lparr>Status := StatusDone, UpdatedAt := se_now E\<rparr>)\<rparr>))"

definition retried :: "golib \<Rightarrow> time \<Rightarrow> time \<Rightarrow> error option \<Rightarrow> int \<Rightarrow> item \<Rightarrow> item" where
  "retried L now nextRetryAt lastErr maxRetries it0 =
     (let it = set_error L lastErr (it0\<lparr>Attempt := wrap64 (Attempt it0 + 1), UpdatedAt := now\<rparr>) in
      if maxRetries > 0 \<and> Attempt it \<ge> maxRetries then it\<lparr>Status := StatusFailed\<rparr>
      else it\<lparr>Status := StatusPending, NextRetryAt := nextRetryAt\<rparr>)"

definition MarkRetry ::
  "golib \<Rightarrow> codec \<Rightarrow> store_env \<Rightarrow> string \<Rightarrow> time \<Rightarrow> error option \<Rightarrow> int \<Rightarrow> FileStore
     \<Rightarrow> error option \<times> FileStore" where
  "MarkRetry L C E ident nextRetryAt lastErr maxRetries s =
     (case items s ident of
        None \<Rightarrow> (Some (not_found ident), s)
      | Some it \<Rightarrow>
          persistLocked C E
            (s\<lparr>items := (items s)(ident \<mapsto> retried L (se_now E) nextRetryAt lastErr maxRetries it)\<rparr>))"

section \<open>Queries\<close>

definition count_status :: "dlq_stats \<Rightarrow> item \<Rightarrow> dlq_stats" where
  "count_status st it =
     (case Status it of
        StatusPending \<Rightarrow> st\<lparr>Pending := Pending st + 1\<rparr>
      | StatusProcessing \<Rightarrow> st\<lparr>Pending := Pending st + 1\<rparr>
      | StatusFailed \<Rightarrow> st\<lparr>Failed := Failed st + 1\<rparr>
      | StatusDone \<Rightarrow> st\<lparr>Done := Done st + 1\<rparr>
      | StatusOther _ \<Rightarrow> st)"

definition Stats :: "store_env \<Rightarrow> FileStore \<Rightarrow> dlq_stats" where
  "Stats E s =
     foldl count_status \<lparr>Pending = 0, Failed = 0, Done = 0\<rparr> (map_values (items s) (se_iter E (items s)))"

text \<open>The loop over the creation times, where the zero time stands for none yet.\<close>

fun oldest_loop :: "time \<Rightarrow> item list \<Rightarrow> time" where
  "oldest_loop oldest [] = oldest"
| "oldest_loop oldest (it # its) =
     (if \<not> active it then oldest_loop oldest its
      else if oldest = 0 \<or> CreatedAt it < oldest then oldest_loop (CreatedAt it) its
      else oldest_loop oldest its)"

text \<open>\<open>time.Time.Sub\<close> saturates at the ends of the duration range.\<close>

definition time_Sub :: "time \<Rightarrow> time \<Rightarrow> duration" where
  "time_Sub a b = max (- (2 ^ 63)) (min MaxInt64 (a - b))"

definition OldestPendingAge :: "store_env \<Rightarrow> time \<Rightarrow> FileStore \<Rightarrow> duration \<times> bool" where
  "OldestPendingAge E now s =
     (let oldest = oldest_loop 0 (map_values (items s) (se_iter E (items s))) in
      if oldest = 0 then (0, False)
      else if now < oldest then (0, True)
      else (time_Sub now oldest, True))"

definition Get :: "string \<Rightarrow> FileStore \<Rightarrow> item option" where
  "Get ident s = items s ident"

definition List_items :: "store_env \<Rightarrow> int \<Rightarrow> FileStore \<Rightarrow> item list" where
  "List_items E limit0 s =
     (let limit = (if limit0 \<le> 0 then 20 else limit0) in
      take (nat limit)
        (sort_slice (\<lambda>a b. UpdatedAt a > UpdatedAt b) (map_values (items s) (se_iter E (items s)))))"

section \<open>The comparisons of the store's sorts\<close>

interpretation by_created: slice_order "\<lambda>a b. CreatedAt a < CreatedAt b"
  by (rule slice_order_key)

interpretation by_updated: slice_order "\<lambda>a b. UpdatedAt a > UpdatedAt b"
  by (rule slice_order_key_desc)

interpretation by_retry: slice_order "\<lambda>a b. NextRetryAt (item_at m a) < NextRetryAt (item_at m b)" for m
  by (rule slice_order_key)

section \<open>Saving\<close>

lemma persist_items [simp]: "items (snd (persistLocked C E s)) = items s"
  by (auto simp: persistLocked_def Let_def split: option.splits sum.splits prod.splits)

lemma persist_itemsD: "persistLocked C E s = (r, s') \<Longrightarrow> items s' = items s"
  using persist_items [of C E s] by simp

lemma persist_failed: "persistLocked C E s = (Some err, s') \<Longrightarrow> dlqfile s' = dlqfile s"
  by (auto simp: persistLocked_def Let_def split: option.splits sum.splits prod.splits)

lemma persist_done:
  assumes "persistLocked C E s = (None, s')"
  obtains bytes where "marshal C (sort_created (map_values (items s) (se_iter E (items s)))) = Inr bytes"
    and "dlqfile s' = Some (bytes @ [CHR 0x0A])" and "items s' = items s"
  using assms by (auto simp: persistLocked_def Let_def split: option.splits sum.splits prod.splits)

section \<open>Well-formed stores and restarts\<close>

definition store_inv :: "(string \<rightharpoonup> item) \<Rightarrow> bool" where
  "store_inv m \<longleftrightarrow> finite (dom m) \<and> (\<forall>k it. m k = Some it \<longrightarrow> ID it = k)"

lemma store_inv_upd: "store_inv m \<Longrightarrow> ID it = k \<Longrightarrow> store_inv (m(k \<mapsto> it))"
  by (auto simp: store_inv_def)

lemma store_invD: "store_inv m \<Longrightarrow> m k = Some it \<Longrightarrow> ID it = k"
  by (auto simp: store_inv_def)

lemma ID_load_item [simp]: "ID (load_item L it) = ID it"
  by (simp add: load_item_def Let_def)

lemma load_loop_inv: "store_inv m \<Longrightarrow> store_inv (load_loop L its m)"
  by (induction its arbitrary: m) (simp_all add: store_inv_upd)

lemma load_loop_distinct:
  "distinct (map ID its) \<Longrightarrow>
     load_loop L its m k = (case List.find (\<lambda>it. ID it = k) its of Some it \<Rightarrow> Some (load_item L it) | None \<Rightarrow> m k)"
proof (induction its arbitrary: m)
  case (Cons a its)
  then have "List.find (\<lambda>it. ID it = k) its = None" if "ID a = k"
    using that Cons.prems by (auto simp: find_None_iff image_iff)
  then show ?case using Cons by (cases "ID a = k") (auto split: option.splits)
qed simp

lemma find_SomeD: "List.find P xs = Some x \<Longrightarrow> x \<in> set xs \<and> P x"
  by (auto simp: find_Some_iff)

text \<open>
  The map a restart should build from the one that was saved: the same items, interrupted ones
  pending again; an item saved without a fingerprint gets the one of its payload.
\<close>

definition resumed_status :: "status \<Rightarrow> status" where
  "resumed_status st = (case st of StatusProcessing \<Rightarrow> StatusPending | _ \<Rightarrow> st)"

definition recovered :: "golib \<Rightarrow> (string \<rightharpoonup> item) \<Rightarrow> (string \<rightharpoonup> item)" where
  "recovered L m k =
     (case m k of
        None \<Rightarrow> None
      | Some it \<Rightarrow>
          Some (it\<lparr>Status := resumed_status (Status it),
                   Fingerprint := (if Fingerprint it = [] then payloadFingerprint L (ItemRecipient it) (RawMessage it)
                                   else Fingerprint it)\<rparr>))"

lemma recovered_load: "recovered L m k = map_option (load_item L) (m k)"
  by (auto simp: recovered_def load_item_def Let_def resumed_status_def split: option.splits status.splits)

lemma map_values_ID: "store_inv m \<Longrightarrow> set ks \<subseteq> dom m \<Longrightarrow> map ID (map_values m ks) = ks"
  by (induction ks) (auto simp: store_inv_def)

lemma store_inv_ran: "store_inv m \<Longrightarrow> it \<in> ran m \<longleftrightarrow> m (ID it) = Some it"
  unfolding store_inv_def ran_def by blast

lemma find_by_ID:
  assumes "store_inv m" "mset its = mset (map_values m ks)" "map_order m ks"
  shows "List.find (\<lambda>it. ID it = k) its = m k"
proof -
  have s: "set its = ran m"
    using assms(2) set_map_values_order [OF assms(3)] by (metis set_mset_mset)
  then have mem: "it \<in> set its \<longleftrightarrow> m (ID it) = Some it" for it
    using store_inv_ran [OF assms(1)] by simp
  show ?thesis
  proof (cases "List.find (\<lambda>it. ID it = k) its")
    case None
    then have "m k \<noteq> Some it" for it
      using mem [of it] store_invD [OF assms(1), of k it] by (auto simp: find_None_iff)
    then show ?thesis using None by (cases "m k") auto
  next
    case (Some b)
    then show ?thesis using mem find_SomeD [OF Some] by metis
  qed
qed

lemma sort_created_perm:
  assumes "store_inv m" "iterates E m"
  shows "set (sort_created (map_values m (se_iter E m))) = ran m"
    and "distinct (map ID (sort_created (map_values m (se_iter E m))))"
proof -
  let ?vs = "map_values m (se_iter E m)"
  have ks: "distinct (se_iter E m)" "set (se_iter E m) = dom m"
    using assms(2) by (simp_all add: iterates_def map_order_def)
  have ms: "mset (sort_created ?vs) = mset ?vs" by (simp add: sort_created_def)
  then show "set (sort_created ?vs) = ran m"
    using set_map_values_order [of m "se_iter E m"] assms(2) by (metis iterates_def set_mset_mset)
  have "distinct (map ID ?vs)" using map_values_ID [OF assms(1)] ks by simp
  then show "distinct (map ID (sort_created ?vs))"
    using ms by (metis mset_eq_imp_distinct_iff mset_map)
qed

lemma sort_created_sorted: "sorted_wrt (\<lambda>a b. CreatedAt a \<le> CreatedAt b) (sort_created its)"
  using by_created.sorted_sort_slice [of its] by (simp add: sort_created_def not_less)

text \<open>
  C16: Saving is atomic: it never changes the items in memory; when it reports an error the
  queue file is the one from before, and when it reports none the file holds the encoding of a
  list that has every item in memory exactly once and nothing else, oldest first.
\<close>

theorem persist_atomic:
  assumes "store_inv (items s)" "iterates E (items s)"
  shows "(case persistLocked C E s of
      (Some err, s') \<Rightarrow> dlqfile s' = dlqfile s \<and> items s' = items s
    | (None, s') \<Rightarrow> items s' = items s \<and>
        (\<exists>its bytes. marshal C its = Inr bytes \<and> dlqfile s' = Some (bytes @ [CHR 0x0A])
           \<and> set its = ran (items s) \<and> distinct (map ID its)
           \<and> sorted_wrt (\<lambda>a b. CreatedAt a \<le> CreatedAt b) its))"
proof (cases "persistLocked C E s")
  case (Pair r s')
  then have its: "items s' = items s" by (rule persist_itemsD)
  show ?thesis
  proof (cases r)
    case None
    obtain bytes where "marshal C (sort_created (map_values (items s) (se_iter E (items s)))) = Inr bytes"
        "dlqfile s' = Some (bytes @ [CHR 0x0A])"
      using persist_done Pair None by blast
    then show ?thesis
      using Pair None its sort_created_perm [OF assms] sort_created_sorted by auto
  next
    case (Some e)
    then show ?thesis using Pair its persist_failed by simp
  qed
qed

text \<open>The contract of \<open>encoding/json\<close> for one list of items: it is read back as it was written.\<close>

definition codec_ok :: "codec \<Rightarrow> item list \<Rightarrow> bool" where
  "codec_ok C its \<longleftrightarrow>
     (case marshal C its of Inl _ \<Rightarrow> True | Inr bytes \<Rightarrow> unmarshal C (bytes @ [CHR 0x0A]) = Inr its)"

text \<open>
  C8: A restart after a successful save finds every item again, unchanged but that items whose
  processing was interrupted are pending again.
\<close>

theorem restart_recovers:
  assumes "store_inv (items s)" and "iterates E (items s)"
    and "codec_ok C (sort_created (map_values (items s) (se_iter E (items s))))"
    and "persistLocked C E s = (None, s')"
  shows "\<exists>bytes. dlqfile s' = Some bytes \<and>
    NewFileStore L C (Inr bytes) (dlqfile s') None
      = Inr \<lparr>items = recovered L (items s), dlqfile = dlqfile s', tmpfile = None\<rparr>"
proof -
  let ?its = "sort_created (map_values (items s) (se_iter E (items s)))"
  obtain bytes where m: "marshal C ?its = Inr bytes" "dlqfile s' = Some (bytes @ [CHR 0x0A])"
    using assms(4) by (rule persist_done)
  then have u: "unmarshal C (bytes @ [CHR 0x0A]) = Inr ?its"
    using assms(3) by (simp add: codec_ok_def)
  have o: "map_order (items s) (se_iter E (items s))" using assms(2) by (simp add: iterates_def)
  have ms: "mset ?its = mset (map_values (items s) (se_iter E (items s)))"
    by (simp add: sort_created_def)
  have "mset (map ID ?its) = mset (map ID (map_values (items s) (se_iter E (items s))))"
    by (simp add: ms)
  then have "distinct (map ID ?its)"
    using map_values_ID [OF assms(1), of "se_iter E (items s)"] o
    by (metis map_order_def mset_eq_imp_distinct_iff order_refl)
  then have "load_loop L ?its Map.empty = recovered L (items s)"
    using find_by_ID [OF assms(1) ms o]
    by (auto simp: load_loop_distinct recovered_load fun_eq_iff split: option.splits)
  then show ?thesis using m u by (simp add: NewFileStore_def Let_def)
qed

text \<open>Concrete values for the instances below.\<close>

definition demo_fs :: fs_io where
  "demo_fs = \<lparr>io_mkdir = None, io_write = None, io_rename = None\<rparr>"

definition demo_env :: "string list \<Rightarrow> store_env" where
  "demo_env ks = \<lparr>se_now = 50, se_rand = ''r'', se_iter = (\<lambda>_. ks), se_fs = demo_fs\<rparr>"

definition demo_item :: "string \<Rightarrow> status \<Rightarrow> time \<Rightarrow> item" where
  "demo_item k st t = \<lparr>ID = k, Fingerprint = ''f'' @ k, ItemRecipient = ''1@d'', RawMessage = ''m'' @ k,
     LastError = [], Status = st, Attempt = 0, NextRetryAt = t, CreatedAt = t, UpdatedAt = t\<rparr>"

definition demo_store :: FileStore where
  "demo_store = \<lparr>items = [''a'' \<mapsto> demo_item ''a'' StatusPending 7, ''b'' \<mapsto> demo_item ''b'' StatusPending 3,
       ''c'' \<mapsto> demo_item ''c'' StatusDone 1], dlqfile = None, tmpfile = None\<rparr>"

definition demo_codec :: "item list \<Rightarrow> codec" where
  "demo_codec its = \<lparr>marshal = (\<lambda>_. Inr ''[...]''), unmarshal = (\<lambda>_. Inr its)\<rparr>"

lemmas demo_defs = demo_fs_def demo_env_def demo_item_def demo_store_def demo_codec_def

lemma demo_inv: "store_inv (items demo_store)"
  by (auto simp: store_inv_def demo_defs split: if_splits)

lemma demo_iterates: "iterates (demo_env [''c'', ''a'', ''b'']) (items demo_store)"
  by (auto simp: iterates_def map_order_def demo_defs split: if_splits)

theorem persist_atomic_witness:
  "\<exists>its. set its = ran (items demo_store) \<and> distinct (map ID its)
     \<and> sorted_wrt (\<lambda>a b. CreatedAt a \<le> CreatedAt b) its
     \<and> dlqfile (snd (persistLocked (demo_codec []) (demo_env [''c'', ''a'', ''b'']) demo_store))
         = Some (''[...]'' @ [CHR 0x0A])"
proof -
  let ?E = "demo_env [''c'', ''a'', ''b'']"
  have "fst (persistLocked (demo_codec []) ?E demo_store) = None" by code_simp
  then have "persistLocked (demo_codec []) ?E demo_store
      = (None, snd (persistLocked (demo_codec []) ?E demo_store))" by (metis prod.collapse)
  then show ?thesis
    using persist_atomic [OF demo_inv demo_iterates, of "demo_codec []"] by (auto simp: demo_codec_def)
qed

theorem restart_recovers_witness:
  "\<exists>bytes. dlqfile (snd (persistLocked
        (demo_codec [demo_item ''c'' StatusDone 1, demo_item ''b'' StatusPending 3, demo_item ''a'' StatusPending 7])
        (demo_env [''c'', ''a'', ''b'']) demo_store)) = Some bytes"
proof -
  let ?its = "[demo_item ''c'' StatusDone 1, demo_item ''b'' StatusPending 3, demo_item ''a'' StatusPending 7]"
  let ?E = "demo_env [''c'', ''a'', ''b'']"
  have "codec_ok (demo_codec ?its) (sort_created (map_values (items demo_store) (se_iter ?E (items demo_store))))"
    by code_simp
  moreover have "fst (persistLocked (demo_codec ?its) ?E demo_store) = None" by code_simp
  then have "persistLocked (demo_codec ?its) ?E demo_store
    = (None, snd (persistLocked (demo_codec ?its) ?E demo_store))" by (metis prod.collapse)
  ultimately show ?thesis
    using restart_recovers [OF demo_inv demo_iterates, of "demo_codec ?its" _ ascii_golib] by blast
qed

section \<open>No operation loses a message\<close>

text \<open>What an item is about: everything but its progress.\<close>

definition same_message :: "item \<Rightarrow> item \<Rightarrow> bool" where
  "same_message a b \<longleftrightarrow> ID b = ID a \<and> Fingerprint b = Fingerprint a \<and> ItemRecipient b = ItemRecipient a
     \<and> RawMessage b = RawMessage a \<and> CreatedAt b = CreatedAt a"

definition keeps :: "(string \<rightharpoonup> item) \<Rightarrow> (string \<rightharpoonup> item) \<Rightarrow> bool" where
  "keeps m m' \<longleftrightarrow> (\<forall>k it. m k = Some it \<longrightarrow> (\<exists>it'. m' k = Some it' \<and> same_message it it'))"

lemma keeps_refl [simp]: "keeps m m"
  by (simp add: keeps_def same_message_def)

lemma keeps_trans: "keeps a b \<Longrightarrow> keeps b c \<Longrightarrow> keeps a c"
  by (fastforce simp: keeps_def same_message_def)

lemma keepsD: "keeps m m' \<Longrightarrow> m k = Some it \<Longrightarrow> \<exists>it'. m' k = Some it' \<and> same_message it it'"
  by (simp add: keeps_def)

lemma keeps_upd: "(\<And>it0. m k = Some it0 \<Longrightarrow> same_message it0 it) \<Longrightarrow> keeps m (m(k \<mapsto> it))"
  by (auto simp: keeps_def same_message_def)

lemma set_error_sel [simp]:
  "ID (set_error L e it) = ID it" "Fingerprint (set_error L e it) = Fingerprint it"
  "ItemRecipient (set_error L e it) = ItemRecipient it" "RawMessage (set_error L e it) = RawMessage it"
  "CreatedAt (set_error L e it) = CreatedAt it" "Status (set_error L e it) = Status it"
  "Attempt (set_error L e it) = Attempt it" "NextRetryAt (set_error L e it) = NextRetryAt it"
  "UpdatedAt (set_error L e it) = UpdatedAt it"
  by (simp_all add: set_error_def split: option.splits)

lemma retried_same [simp]: "same_message it (retried L now t e r it)"
  by (simp add: same_message_def retried_def Let_def)

lemma mark_processing_same [simp]: "same_message it (mark_processing now it)"
  by (simp add: same_message_def mark_processing_def)

lemma ID_retried [simp]: "ID (retried L now t e r it) = ID it"
  by (simp add: retried_def Let_def)

lemma ID_mark_processing [simp]: "ID (mark_processing now it) = ID it"
  by (simp add: mark_processing_def)

text \<open>What \<open>Enqueue\<close> stores, and the map it leaves.\<close>

definition enqueued :: "golib \<Rightarrow> store_env \<Rightarrow> string \<Rightarrow> string \<Rightarrow> error option \<Rightarrow> (string \<rightharpoonup> item) \<Rightarrow> item" where
  "enqueued L E recipient rawMessage e m =
     (case List.find (duplicate_of (payloadFingerprint L recipient rawMessage)) (map_values m (se_iter E m)) of
        Some existing \<Rightarrow> (set_error L e existing)\<lparr>UpdatedAt := se_now E\<rparr>
      | None \<Rightarrow> new_item L E recipient rawMessage e)"

lemma Enqueue_items:
  "items (snd (Enqueue L C E rc raw e s)) =
     (items s)(ID (enqueued L E rc raw e (items s)) \<mapsto> enqueued L E rc raw e (items s))"
  by (auto simp: Enqueue_def enqueued_def Let_def dest!: persist_itemsD split: prod.splits option.splits)

lemma Enqueue_result: "Enqueue L C E rc raw e s = (Inr it, s') \<Longrightarrow> it = enqueued L E rc raw e (items s)"
  by (auto simp: Enqueue_def enqueued_def Let_def split: prod.splits option.splits)

lemma MarkDone_items:
  "items (snd (MarkDone C E k s)) = (case items s k of None \<Rightarrow> items s
     | Some it \<Rightarrow> (items s)(k \<mapsto> it\<lparr>Status := StatusDone, UpdatedAt := se_now E\<rparr>))"
  by (simp add: MarkDone_def split: option.splits)

lemma MarkRetry_items:
  "items (snd (MarkRetry L C E k t e r s)) = (case items s k of None \<Rightarrow> items s
     | Some it \<Rightarrow> (items s)(k \<mapsto> retried L (se_now E) t e r it))"
  by (simp add: MarkRetry_def split: option.splits)

lemma pick_loop_distinct:
  "distinct ids \<Longrightarrow> pick_loop now ids m =
     (map (\<lambda>k. mark_processing now (item_at m k)) ids,
      \<lambda>k. if k \<in> set ids then Some (mark_processing now (item_at m k)) else m k)"
proof (induction ids arbitrary: m)
  case (Cons a ids)
  have "item_at (m(a \<mapsto> x)) k = item_at m k" if "k \<in> set ids" for k x
    using that Cons.prems by (auto simp: item_at_def)
  then show ?case
    using Cons by (auto simp: Let_def fun_eq_iff item_at_def)
qed auto

text \<open>The ids one call of \<open>PickDue\<close> takes.\<close>

definition picked :: "store_env \<Rightarrow> int \<Rightarrow> time \<Rightarrow> FileStore \<Rightarrow> string list" where
  "picked E limit now s = take (nat (if limit \<le> 0 then 10 else limit)) (due_ids E now s)"

lemma distinct_picked: "iterates E (items s) \<Longrightarrow> distinct (picked E limit now s)"
  by (simp add: picked_def due_ids_def iterates_def map_order_def)

lemma picked_due:
  assumes "iterates E (items s)" "k \<in> set (picked E limit now s)"
  shows "\<exists>it. items s k = Some it \<and> due now it"
proof -
  have "k \<in> set (se_iter E (items s))" "due now (item_at (items s) k)"
    using assms(2) by (auto simp: picked_def due_ids_def dest!: in_set_takeD)
  then show ?thesis
    using assms(1) by (auto simp: iterates_def map_order_def item_at_def)
qed

lemma PickDue_items:
  assumes "iterates E (items s)"
  shows "items (snd (PickDue C E limit now s)) =
    (\<lambda>k. if k \<in> set (picked E limit now s) then Some (mark_processing now (item_at (items s) k)) else items s k)"
  using pick_loop_distinct [OF distinct_picked [OF assms], of now limit now "items s"]
  by (auto simp: PickDue_def picked_def Let_def dest!: persist_itemsD split: prod.splits option.splits)

lemma PickDue_result:
  assumes "iterates E (items s)" "PickDue C E limit now s = (Inr out, s')"
  shows "out = map (\<lambda>k. mark_processing now (item_at (items s) k)) (picked E limit now s)"
  using pick_loop_distinct [OF distinct_picked [OF assms(1)], of now limit now "items s"] assms(2)
  by (auto simp: PickDue_def picked_def Let_def split: prod.splits option.splits if_splits)

lemma map_order_values: "iterates E m \<Longrightarrow> set (map_values m (se_iter E m)) = ran m"
  by (simp add: iterates_def set_map_values_order)

text \<open>\<open>Enqueue\<close> either refreshes the one stored item it duplicates or adds a new one.\<close>

lemma enqueued_cases:
  assumes "store_inv m" "iterates E m"
  obtains (refreshed) it0 where "m (ID it0) = Some it0" "active it0"
      "Fingerprint it0 = payloadFingerprint L rc raw" "Fingerprint it0 \<noteq> []"
      "enqueued L E rc raw e m = (set_error L e it0)\<lparr>UpdatedAt := se_now E\<rparr>"
    | (new) "enqueued L E rc raw e m = new_item L E rc raw e"
      "\<And>k it. m k = Some it \<Longrightarrow> active it \<Longrightarrow> Fingerprint it \<noteq> []
         \<Longrightarrow> Fingerprint it \<noteq> payloadFingerprint L rc raw"
proof (cases "List.find (duplicate_of (payloadFingerprint L rc raw)) (map_values m (se_iter E m))")
  case None
  then have "\<not> duplicate_of (payloadFingerprint L rc raw) it" if "it \<in> ran m" for it
    using that map_order_values [OF assms(2)] by (simp add: find_None_iff)
  then show ?thesis
    using None new by (force simp: enqueued_def duplicate_of_def ran_def)
next
  case (Some it0)
  then have "it0 \<in> ran m" "duplicate_of (payloadFingerprint L rc raw) it0"
    using find_SomeD [OF Some] map_order_values [OF assms(2)] by simp_all
  then show ?thesis
    using Some store_inv_ran [OF assms(1)]
    by (intro refreshed [of it0]) (auto simp: enqueued_def duplicate_of_def)
qed

lemma Enqueue_keeps:
  assumes "store_inv (items s)" "iterates E (items s)" "items s (ID (new_item L E rc raw e)) = None"
  shows "keeps (items s) (items (snd (Enqueue L C E rc raw e s)))"
  unfolding Enqueue_items
  by (rule keeps_upd, rule enqueued_cases [OF assms(1,2), of L rc raw e])
    (use assms(3) in \<open>simp_all add: same_message_def\<close>)

lemma PickDue_keeps: "iterates E (items s) \<Longrightarrow> keeps (items s) (items (snd (PickDue C E limit now s)))"
  by (auto simp: PickDue_items keeps_def item_at_def) (simp add: same_message_def)

lemma MarkDone_keeps: "keeps (items s) (items (snd (MarkDone C E k s)))"
  unfolding MarkDone_items by (auto intro!: keeps_upd simp: same_message_def split: option.splits)

lemma MarkRetry_keeps: "keeps (items s) (items (snd (MarkRetry L C E k t e r s)))"
  unfolding MarkRetry_items by (auto intro!: keeps_upd split: option.splits)

lemma Enqueue_inv: "store_inv (items s) \<Longrightarrow> store_inv (items (snd (Enqueue L C E rc raw e s)))"
  by (simp add: Enqueue_items store_inv_upd)

lemma PickDue_inv:
  assumes "store_inv (items s)" "iterates E (items s)"
  shows "store_inv (items (snd (PickDue C E limit now s)))"
proof -
  let ?m = "items (snd (PickDue C E limit now s))"
  have "ID it = k" if "?m k = Some it" for k it
    using that picked_due [OF assms(2), of k limit now] store_invD [OF assms(1), of k]
    by (auto simp: PickDue_items [OF assms(2)] item_at_def split: if_splits)
  moreover have "dom ?m \<subseteq> dom (items s)"
    using picked_due [OF assms(2)] by (auto simp: PickDue_items [OF assms(2)] split: if_splits) blast
  ultimately show ?thesis
    using assms(1) by (auto simp: store_inv_def intro: finite_subset)
qed

lemma MarkDone_inv: "store_inv (items s) \<Longrightarrow> store_inv (items (snd (MarkDone C E k s)))"
  unfolding MarkDone_items by (auto intro!: store_inv_upd dest: store_invD split: option.splits)

lemma MarkRetry_inv: "store_inv (items s) \<Longrightarrow> store_inv (items (snd (MarkRetry L C E k t e r s)))"
  unfolding MarkRetry_items by (auto intro!: store_inv_upd dest: store_invD split: option.splits)

lemmas ops_inv = Enqueue_inv PickDue_inv MarkDone_inv MarkRetry_inv
lemmas ops_keep = Enqueue_keeps PickDue_keeps MarkDone_keeps MarkRetry_keeps

text \<open>
  One operation of the running store. \<open>R\<close> limits the items that \<open>MarkRetry\<close> is called on: the
  worker retries what it has picked, while the administrator's replay takes any item.
\<close>

inductive store_step :: "golib \<Rightarrow> codec \<Rightarrow> (item \<Rightarrow> bool) \<Rightarrow> FileStore \<Rightarrow> FileStore \<Rightarrow> bool"
  for L C R where
  step_enqueue: "iterates E (items s) \<Longrightarrow> items s (ID (new_item L E rc raw e)) = None
    \<Longrightarrow> store_step L C R s (snd (Enqueue L C E rc raw e s))"
| step_pick: "iterates E (items s) \<Longrightarrow> store_step L C R s (snd (PickDue C E limit now s))"
| step_done: "store_step L C R s (snd (MarkDone C E k s))"
| step_retry: "(\<forall>it. items s k = Some it \<longrightarrow> R it)
    \<Longrightarrow> store_step L C R s (snd (MarkRetry L C E k t e r s))"

lemma store_step_safe: "store_step L C R s s' \<Longrightarrow> store_inv (items s) \<Longrightarrow> store_inv (items s') \<and> keeps (items s) (items s')"
  by (induction rule: store_step.induct) (simp_all add: ops_inv ops_keep)

text \<open>
  C3: Once a message is in the queue no sequence of operations, successful or failing, removes
  it or changes what is to be delivered to whom, and the queue stays well formed: each item is
  stored under its own id. (New ids, hashes of time and randomness, are assumed unused.)
\<close>

theorem no_message_lost:
  assumes "(store_step L C R)\<^sup>*\<^sup>* s s'" and "store_inv (items s)"
  shows "store_inv (items s') \<and>
    (\<forall>k it. items s k = Some it \<longrightarrow> (\<exists>it'. items s' k = Some it' \<and> same_message it it'))"
proof -
  have "store_inv (items s') \<and> keeps (items s) (items s')"
    using assms by (induction rule: rtranclp_induct) (auto dest: store_step_safe keeps_trans)
  then show ?thesis by (auto dest: keepsD)
qed

theorem no_message_lost_witness:
  "\<exists>it. items (snd (MarkDone (demo_codec []) (demo_env []) ''a'' demo_store)) ''a'' = Some it
     \<and> RawMessage it = ''ma''"
proof -
  have "(store_step ascii_golib (demo_codec []) active)\<^sup>*\<^sup>* demo_store
      (snd (MarkDone (demo_codec []) (demo_env []) ''a'' demo_store))"
    by (intro r_into_rtranclp step_done)
  moreover have "items demo_store ''a'' = Some (demo_item ''a'' StatusPending 7)" by code_simp
  ultimately obtain it where "items (snd (MarkDone (demo_codec []) (demo_env []) ''a'' demo_store)) ''a'' = Some it"
    "same_message (demo_item ''a'' StatusPending 7) it"
    using no_message_lost [OF _ demo_inv] by blast
  then show ?thesis by (auto simp: same_message_def demo_item_def)
qed

section \<open>Deduplication\<close>

definition unique_active :: "(string \<rightharpoonup> item) \<Rightarrow> bool" where
  "unique_active m \<longleftrightarrow> (\<forall>k k' it it'. m k = Some it \<longrightarrow> m k' = Some it' \<longrightarrow> active it \<longrightarrow> active it'
     \<longrightarrow> Fingerprint it = Fingerprint it' \<longrightarrow> Fingerprint it \<noteq> [] \<longrightarrow> k = k')"

text \<open>An update of one item keeps the property if the item was active with the same fingerprint.\<close>

lemma unique_active_upd:
  assumes "unique_active m" "m k = Some it0" "active it \<Longrightarrow> active it0" "Fingerprint it = Fingerprint it0"
  shows "unique_active (m(k \<mapsto> it))"
  using assms unfolding unique_active_def by (auto split: if_splits)

lemma unique_active_new:
  assumes "unique_active m" "\<And>k it'. m k = Some it' \<Longrightarrow> active it' \<Longrightarrow> Fingerprint it' \<noteq> []
    \<Longrightarrow> Fingerprint it' \<noteq> Fingerprint it"
  shows "unique_active (m(k \<mapsto> it))"
  using assms unfolding unique_active_def by (auto split: if_splits) metis+

lemma Enqueue_unique:
  assumes "store_inv (items s)" "iterates E (items s)" "unique_active (items s)"
  shows "unique_active (items (snd (Enqueue L C E rc raw e s)))"
proof -
  have "unique_active ((items s)(ID x \<mapsto> x))" if x: "x = enqueued L E rc raw e (items s)" for x
  proof (rule enqueued_cases [OF assms(1,2), of L rc raw e])
    fix it0
    assume h: "items s (ID it0) = Some it0" "active it0"
      "enqueued L E rc raw e (items s) = (set_error L e it0)\<lparr>UpdatedAt := se_now E\<rparr>"
    show ?thesis
      using h x unique_active_upd [OF assms(3) h(1), of x] by simp
  next
    assume h: "enqueued L E rc raw e (items s) = new_item L E rc raw e"
      "\<And>k it. items s k = Some it \<Longrightarrow> active it \<Longrightarrow> Fingerprint it \<noteq> []
         \<Longrightarrow> Fingerprint it \<noteq> payloadFingerprint L rc raw"
    have "Fingerprint x = payloadFingerprint L rc raw" using h(1) x by (simp add: new_item_def)
    then show ?thesis using h(2) unique_active_new [OF assms(3), of x "ID x"] by simp
  qed
  then show ?thesis by (simp add: Enqueue_items)
qed

lemma PickDue_unique:
  assumes "iterates E (items s)" "unique_active (items s)"
  shows "unique_active (items (snd (PickDue C E limit now s)))"
proof -
  let ?m' = "items (snd (PickDue C E limit now s))"
  have before: "\<exists>it0. items s k = Some it0 \<and> (active it \<longrightarrow> active it0) \<and> Fingerprint it = Fingerprint it0"
    if "?m' k = Some it" for k it
    using that picked_due [OF assms(1), of k limit now]
    by (auto simp: PickDue_items [OF assms(1)] item_at_def mark_processing_def due_def active_def
        split: if_splits)
  show ?thesis
    unfolding unique_active_def using assms(2) [unfolded unique_active_def] before by metis
qed

lemma MarkDone_unique: "unique_active (items s) \<Longrightarrow> unique_active (items (snd (MarkDone C E k s)))"
  unfolding MarkDone_items by (auto intro!: unique_active_upd simp: active_def split: option.splits)

lemma MarkRetry_unique:
  "unique_active (items s) \<Longrightarrow> (\<And>it. items s k = Some it \<Longrightarrow> active it)
     \<Longrightarrow> unique_active (items (snd (MarkRetry L C E k t e r s)))"
  unfolding MarkRetry_items
  by (auto intro!: unique_active_upd simp: retried_def Let_def split: option.splits)

lemma store_step_unique:
  "store_step L C active s s' \<Longrightarrow> store_inv (items s) \<Longrightarrow> unique_active (items s) \<Longrightarrow> unique_active (items s')"
  by (induction rule: store_step.induct)
    (simp_all add: Enqueue_unique PickDue_unique MarkDone_unique MarkRetry_unique)

text \<open>
  C17: Deduplication: as long as retries are made of items in work, no sequence of operations
  brings two items for the same payload (recipient and message) into the queue that are both
  waiting or in work.
\<close>

theorem active_payloads_unique:
  assumes "(store_step L C active)\<^sup>*\<^sup>* s s'" and "store_inv (items s)" and "unique_active (items s)"
  shows "unique_active (items s')"
proof -
  have "store_inv (items s') \<and> unique_active (items s')"
    using assms
    by (induction rule: rtranclp_induct) (auto dest: store_step_safe store_step_unique)
  then show ?thesis by simp
qed

lemma demo_unique: "unique_active (items demo_store)"
  by (auto simp: unique_active_def demo_defs active_def split: if_splits)

theorem active_payloads_unique_witness:
  "unique_active (items (snd (MarkDone (demo_codec []) (demo_env []) ''b''
     (snd (PickDue (demo_codec []) (demo_env [''c'', ''a'', ''b'']) 1 9 demo_store)))))"
proof -
  have "store_step ascii_golib (demo_codec []) active demo_store
      (snd (PickDue (demo_codec []) (demo_env [''c'', ''a'', ''b'']) 1 9 demo_store))"
    by (intro step_pick demo_iterates)
  then have "(store_step ascii_golib (demo_codec []) active)\<^sup>*\<^sup>* demo_store
      (snd (MarkDone (demo_codec []) (demo_env []) ''b''
        (snd (PickDue (demo_codec []) (demo_env [''c'', ''a'', ''b'']) 1 9 demo_store))))"
    using rtranclp.rtrancl_into_rtrancl r_into_rtranclp step_done by metis
  then show ?thesis by (rule active_payloads_unique [OF _ demo_inv demo_unique])
qed

text \<open>
  C14: What \<open>Enqueue\<close> does, whether or not saving succeeds: a payload already waiting or in work
  is not added again but only gets the new error text and time; any other payload becomes a new
  pending item, due at once, with no attempts.
\<close>

theorem Enqueue_spec:
  assumes "store_inv (items s)" and "iterates E (items s)" and "Enqueue L C E rc raw e s = (r, s')"
  shows "let dup = (\<lambda>it. Fingerprint it \<noteq> [] \<and> Fingerprint it = payloadFingerprint L rc raw
                      \<and> (Status it = StatusPending \<or> Status it = StatusProcessing)) in
    (if \<exists>it. it \<in> ran (items s) \<and> dup it
     then \<exists>it0. items s (ID it0) = Some it0 \<and> dup it0
       \<and> items s' = (items s)(ID it0 \<mapsto> it0\<lparr>LastError := (case e of None \<Rightarrow> LastError it0 | Some err \<Rightarrow> Error L err),
                                        UpdatedAt := se_now E\<rparr>)
     else \<exists>it. items s' = (items s)(ID it \<mapsto> it) \<and> Status it = StatusPending \<and> Attempt it = 0
       \<and> NextRetryAt it \<le> se_now E \<and> ItemRecipient it = rc \<and> RawMessage it = raw
       \<and> Fingerprint it = payloadFingerprint L rc raw \<and> LastError it = (case e of None \<Rightarrow> [] | Some err \<Rightarrow> Error L err))
    \<and> (\<forall>it. r = Inr it \<longrightarrow> items s' (ID it) = Some it)"
proof -
  let ?x = "enqueued L E rc raw e (items s)" and ?fp = "payloadFingerprint L rc raw"
  have s': "items s' = (items s)(ID ?x \<mapsto> ?x)" using Enqueue_items [of L C E rc raw e s] assms(3) by simp
  have ret: "\<forall>it. r = Inr it \<longrightarrow> items s' (ID it) = Some it"
    using Enqueue_result [of L C E rc raw e s] s' assms(3) by auto
  have dup: "duplicate_of ?fp it \<longleftrightarrow> Fingerprint it \<noteq> [] \<and> Fingerprint it = ?fp
      \<and> (Status it = StatusPending \<or> Status it = StatusProcessing)" for it
    by (auto simp: duplicate_of_def active_def)
  note vals = map_order_values [OF assms(2)]
  show ?thesis
  proof (cases "List.find (duplicate_of ?fp) (map_values (items s) (se_iter E (items s)))")
    case None
    then have "\<not> (\<exists>it. it \<in> ran (items s) \<and> duplicate_of ?fp it)"
      using vals by (auto simp: find_None_iff)
    moreover have "?x = new_item L E rc raw e" using None by (simp add: enqueued_def)
    moreover have "Status (new_item L E rc raw e) = StatusPending" "Attempt (new_item L E rc raw e) = 0"
        "NextRetryAt (new_item L E rc raw e) \<le> se_now E" "ItemRecipient (new_item L E rc raw e) = rc"
        "RawMessage (new_item L E rc raw e) = raw" "Fingerprint (new_item L E rc raw e) = ?fp"
        "LastError (new_item L E rc raw e) = (case e of None \<Rightarrow> [] | Some err \<Rightarrow> Error L err)"
      by (simp_all add: new_item_def set_error_def split: option.splits)
    ultimately show ?thesis using s' ret unfolding Let_def dup by auto
  next
    case (Some it0)
    then have it0: "items s (ID it0) = Some it0" "duplicate_of ?fp it0"
      using find_SomeD [OF Some] vals store_inv_ran [OF assms(1)] by auto
    moreover have "it0 \<in> ran (items s)" using it0(1) by (rule ranI)
    moreover have "?x = it0\<lparr>LastError := (case e of None \<Rightarrow> LastError it0 | Some err \<Rightarrow> Error L err), UpdatedAt := se_now E\<rparr>"
      using Some by (simp add: enqueued_def set_error_def split: option.splits)
    ultimately show ?thesis using s' ret unfolding Let_def dup by auto
  qed
qed

theorem Enqueue_spec_witness:
  "\<exists>it. items (snd (Enqueue ascii_golib (demo_codec []) (demo_env [''c'', ''a'', ''b'']) ''2@d'' ''x'' None demo_store))
       (ID it) = Some it \<and> RawMessage it = ''x''"
proof -
  let ?E = "demo_env [''c'', ''a'', ''b'']"
  have "ran (items demo_store) = set (map_values (items demo_store) (se_iter ?E (items demo_store)))"
    using map_order_values [OF demo_iterates] by simp
  moreover have "list_all (\<lambda>it. Fingerprint it \<noteq> payloadFingerprint ascii_golib ''2@d'' ''x'')
      (map_values (items demo_store) (se_iter ?E (items demo_store)))" by code_simp
  ultimately have "\<not> (\<exists>it. it \<in> ran (items demo_store) \<and> Fingerprint it = payloadFingerprint ascii_golib ''2@d'' ''x'')"
    by (auto simp: list_all_iff)
  moreover obtain r s' where q: "Enqueue ascii_golib (demo_codec []) ?E ''2@d'' ''x'' None demo_store = (r, s')"
    by (rule prod.exhaust)
  ultimately obtain it where "items s' = (items demo_store)(ID it \<mapsto> it)" "RawMessage it = ''x''"
    using Enqueue_spec [OF demo_inv demo_iterates q] unfolding Let_def by (auto split: if_splits dest: ranI)
  then show ?thesis using q by (auto intro!: exI [of _ it])
qed

section \<open>Picking due items\<close>

lemma items_by_picked:
  assumes "store_inv (items s)" "iterates E (items s)" "k \<in> set (picked E limit now s)"
  shows "ID (item_at (items s) k) = k" "items s k = Some (item_at (items s) k)" "due now (item_at (items s) k)"
  using picked_due [OF assms(2,3)] store_invD [OF assms(1)] by (auto simp: item_at_def)

lemma PickDue_left_out:
  assumes "iterates E (items s)" and "PickDue C E limit now s = (Inr out, s')"
    and "items s k = Some it0" "due now it0" "k \<notin> set (picked E limit now s)"
  shows "length out = nat (if limit \<le> 0 then 10 else limit)" "it \<in> set out \<Longrightarrow> NextRetryAt it \<le> NextRetryAt it0"
proof -
  let ?n = "nat (if limit \<le> 0 then 10 else limit)"
  note out = PickDue_result [OF assms(1,2)]
  have "k \<in> set (due_ids E now s)"
    using assms by (auto simp: due_ids_def iterates_def map_order_def item_at_def)
  then have k: "k \<in> set (drop ?n (due_ids E now s))"
    using assms(5) unfolding picked_def by (metis Un_iff append_take_drop_id set_append)
  then show "length out = ?n"
    by (cases "?n \<le> length (due_ids E now s)") (simp_all add: out picked_def)
  have "\<not> NextRetryAt (item_at (items s) k) < NextRetryAt (item_at (items s) j)" if "j \<in> set (picked E limit now s)" for j
    using that k unfolding picked_def due_ids_def by (rule by_retry.take_sort_slice_least)
  then show "NextRetryAt it \<le> NextRetryAt it0" if "it \<in> set out"
    using that assms(3) by (auto simp: out item_at_def mark_processing_def not_less)
qed

text \<open>
  C15: \<open>PickDue\<close> returns, earliest first, at most \<open>limit\<close> (10 when none is given) distinct items,
  each of them pending and due before the call, and marks exactly those as in work; a due item
  is left out only when the limit is reached and everything returned is due no later.
\<close>

theorem PickDue_spec:
  assumes "store_inv (items s)" and "iterates E (items s)" and "PickDue C E limit now s = (Inr out, s')"
  shows "distinct (map ID out) \<and> length out \<le> nat (if limit \<le> 0 then 10 else limit)
    \<and> sorted_wrt (\<lambda>a b. NextRetryAt a \<le> NextRetryAt b) out
    \<and> (\<forall>it \<in> set out. \<exists>it0. items s (ID it) = Some it0 \<and> Status it0 = StatusPending \<and> NextRetryAt it0 \<le> now
          \<and> it = it0\<lparr>Status := StatusProcessing, UpdatedAt := now\<rparr>)
    \<and> (\<forall>it \<in> set out. items s' (ID it) = Some it) \<and> (\<forall>k. k \<notin> ID ` set out \<longrightarrow> items s' k = items s k)
    \<and> (\<forall>k it0. items s k = Some it0 \<longrightarrow> Status it0 = StatusPending \<and> NextRetryAt it0 \<le> now \<longrightarrow> k \<notin> ID ` set out \<longrightarrow>
          length out = nat (if limit \<le> 0 then 10 else limit)
          \<and> (\<forall>it \<in> set out. NextRetryAt it \<le> NextRetryAt it0))"
proof -
  let ?at = "item_at (items s)" and ?p = "picked E limit now s"
    and ?n = "nat (if limit \<le> 0 then 10 else limit)" and ?mark = "\<lambda>k. mark_processing now (item_at (items s) k)"
  have out: "out = map ?mark ?p" by (rule PickDue_result [OF assms(2,3)])
  note at = items_by_picked [OF assms(1,2), of _ limit now]
  have ids: "map ID out = ?p" using at(1) by (simp add: out o_def map_idI)
  then have img: "ID ` set out = set ?p" by (metis set_map)
  have dist: "distinct (map ID out)" using ids distinct_picked [OF assms(2)] by simp
  have len: "length out \<le> ?n" by (simp add: out picked_def)
  have "sorted_wrt (\<lambda>a b. \<not> NextRetryAt (?at b) < NextRetryAt (?at a)) ?p"
    unfolding picked_def due_ids_def by (rule sorted_wrt_take) (rule by_retry.sorted_sort_slice)
  then have srt: "sorted_wrt (\<lambda>a b. NextRetryAt a \<le> NextRetryAt b) out"
    by (simp add: out sorted_wrt_map mark_processing_def not_less)
  have was: "\<exists>it0. items s (ID it) = Some it0 \<and> due now it0 \<and> it = mark_processing now it0"
    if "it \<in> set out" for it
    using that at by (auto simp: out)
  have s': "items s' = (\<lambda>k. if k \<in> ID ` set out then map_option (mark_processing now) (items s k) else items s k)"
    using PickDue_items [OF assms(2), of C limit now] at(2) assms(3) by (fastforce simp: img fun_eq_iff)
  have now_in_work: "items s' (ID it) = Some it" if "it \<in> set out" for it using was [OF that] that by (auto simp: s')
  have others: "items s' k = items s k" if "k \<notin> ID ` set out" for k using that by (simp add: s')
  have "due now it0 \<longleftrightarrow> Status it0 = StatusPending \<and> NextRetryAt it0 \<le> now" for it0 by (auto simp: due_def)
  then show ?thesis
    using dist len srt was now_in_work others PickDue_left_out [OF assms(2,3)]
    unfolding img mark_processing_def by (simp only:) blast
qed

theorem PickDue_spec_witness:
  "\<exists>out. fst (PickDue (demo_codec []) (demo_env [''c'', ''a'', ''b'']) 1 9 demo_store) = Inr out
     \<and> map ID out = [''b''] \<and> distinct (map ID out)"
proof -
  let ?E = "demo_env [''c'', ''a'', ''b'']"
  have "fst (PickDue (demo_codec []) ?E 1 9 demo_store)
      = Inr [mark_processing 9 (demo_item ''b'' StatusPending 3)]" by code_simp
  moreover obtain s' where "PickDue (demo_codec []) ?E 1 9 demo_store
      = (Inr [mark_processing 9 (demo_item ''b'' StatusPending 3)], s')"
    using calculation by (metis prod.collapse)
  ultimately show ?thesis
    using PickDue_spec [OF demo_inv demo_iterates] by (simp add: demo_item_def)
qed

text \<open>An item in work, or done, stays so until \<open>MarkRetry\<close> is called on it.\<close>

definition settled :: "item \<Rightarrow> bool" where
  "settled it \<longleftrightarrow> Status it = StatusProcessing \<or> Status it = StatusDone"

lemma settled_not_due: "settled it \<Longrightarrow> \<not> due now it"
  by (auto simp: settled_def due_def)

lemma Enqueue_settled:
  assumes "store_inv (items s)" "iterates E (items s)" "items s (ID (new_item L E rc raw e)) = None"
    "items s k = Some it" "settled it"
  shows "\<exists>it'. items (snd (Enqueue L C E rc raw e s)) k = Some it' \<and> settled it'"
  unfolding Enqueue_items
  by (rule enqueued_cases [OF assms(1,2), of L rc raw e])
    (use assms(3-5) in \<open>auto simp: settled_def\<close>)

lemma store_step_settled:
  "store_step L C (\<lambda>it. ID it \<noteq> k) s s' \<Longrightarrow> store_inv (items s) \<Longrightarrow> items s k = Some it \<Longrightarrow> settled it
     \<Longrightarrow> \<exists>it'. items s' k = Some it' \<and> settled it'"
proof (induction rule: store_step.induct)
  case (step_enqueue E s rc raw e)
  then show ?case by (simp add: Enqueue_settled)
next
  case (step_pick E s limit now)
  then show ?case
    using picked_due [OF step_pick.hyps, of k limit now]
    by (auto simp: PickDue_items settled_not_due)
next
  case (step_done E k' s)
  then show ?case by (auto simp: MarkDone_items settled_def split: option.splits)
next
  case (step_retry s k' E t e r)
  then show ?case
    by (auto simp: MarkRetry_items dest: store_invD split: option.splits)
qed

text \<open>
  C18: Work is handed out once: after \<open>PickDue\<close> has taken an item, no later \<open>PickDue\<close> returns it,
  whatever other operations run in between, until \<open>MarkRetry\<close> is called on it. This holds too
  when \<open>PickDue\<close> itself failed to save and reported only an error: then its caller never learns
  of the items, nobody retries them, and they stay in work until a restart.
\<close>

theorem picked_not_picked_again:
  assumes "store_inv (items s)" and "iterates E (items s)" and "PickDue C E limit now s = (r, s1)"
    and "k \<in> set (picked E limit now s)"
    and "(store_step L C (\<lambda>it. ID it \<noteq> k))\<^sup>*\<^sup>* s1 s2"
    and "iterates E' (items s2)" and "PickDue C E' limit' now' s2 = (Inr out, s3)"
  shows "k \<notin> ID ` set out"
proof -
  have inv1: "store_inv (items s1)" using PickDue_inv [OF assms(1,2), of C limit now] assms(3) by simp
  have "\<exists>it. items s1 k = Some it \<and> settled it"
    using PickDue_items [OF assms(2), of C limit now] assms(3,4)
    by (simp add: settled_def mark_processing_def)
  with assms(5) have "store_inv (items s2) \<and> (\<exists>it. items s2 k = Some it \<and> settled it)"
    by (induction rule: rtranclp_induct) (use inv1 in \<open>auto dest: store_step_safe store_step_settled\<close>)
  moreover then have "k \<notin> set (picked E' limit' now' s2)"
    using picked_due [OF assms(6)] settled_not_due by fastforce
  ultimately show ?thesis
    using items_by_picked(1) [OF _ assms(6)] PickDue_result [OF assms(6,7)] by auto
qed

theorem picked_not_picked_again_witness:
  "''b'' \<notin> ID ` set (projr (fst (PickDue (demo_codec []) (demo_env [''c'', ''a'', ''b'']) 5 9
     (snd (PickDue (demo_codec []) (demo_env [''c'', ''a'', ''b'']) 1 9 demo_store)))))"
proof -
  let ?E = "demo_env [''c'', ''a'', ''b'']"
  let ?s1 = "snd (PickDue (demo_codec []) ?E 1 9 demo_store)"
  have "''b'' \<in> set (picked ?E 1 9 demo_store)" by code_simp
  moreover have "iterates ?E (items ?s1)"
    using demo_iterates PickDue_items [OF demo_iterates, of "demo_codec []" 1 9]
      PickDue_keeps [OF demo_iterates, of "demo_codec []" 1 9] picked_due [OF demo_iterates, of _ 1 9]
    by (auto simp: iterates_def map_order_def dom_def demo_env_def split: if_splits)
  moreover have "fst (PickDue (demo_codec []) ?E 5 9 ?s1)
      = Inr [mark_processing 9 (demo_item ''a'' StatusPending 7)]" by code_simp
  ultimately show ?thesis
    using picked_not_picked_again [OF demo_inv demo_iterates, of "demo_codec []" 1 9 _ ?s1 "''b''" ascii_golib ?s1 ?E 5 9]
    by (metis prod.collapse rtranclp.rtrancl_refl sum.sel(2))
qed

section \<open>Retries\<close>

text \<open>A run of failed deliveries of one item: the environment, next retry time and error of each.\<close>

fun retry_all ::
  "golib \<Rightarrow> codec \<Rightarrow> string \<Rightarrow> int \<Rightarrow> (store_env \<times> time \<times> error option) list \<Rightarrow> FileStore \<Rightarrow> FileStore" where
  "retry_all L C k maxRetries [] s = s"
| "retry_all L C k maxRetries ((E, t, e) # fs) s =
     retry_all L C k maxRetries fs (snd (MarkRetry L C E k t e maxRetries s))"

lemma retry_all_item:
  assumes "items s k = Some it" "0 \<le> Attempt it" "Attempt it + int (length fs) \<le> MaxInt64" "fs \<noteq> []"
  shows "\<exists>it'. items (retry_all L C k r fs s) k = Some it' \<and> Attempt it' = Attempt it + int (length fs)
    \<and> Status it' = (if r > 0 \<and> Attempt it' \<ge> r then StatusFailed else StatusPending)
    \<and> (Status it' = StatusPending \<longrightarrow> NextRetryAt it' = fst (snd (last fs)))"
  using assms
proof (induction fs arbitrary: s it)
  case (Cons f fs)
  obtain E t e where f: "f = (E, t, e)" by (cases f)
  let ?s = "snd (MarkRetry L C E k t e r s)" and ?it = "retried L (se_now E) t e r it"
  have i: "items ?s k = Some ?it" using Cons.prems(1) by (simp add: MarkRetry_items)
  have a: "Attempt ?it = Attempt it + 1"
    using Cons.prems by (simp add: retried_def Let_def wrap64_id in_int64_def)
  show ?case
  proof (cases fs)
    case Nil
    then show ?thesis using i f a by (auto simp: retried_def Let_def)
  next
    case (Cons g gs)
    have "0 \<le> Attempt ?it" "Attempt ?it + int (length fs) \<le> MaxInt64" using Cons.prems a by simp_all
    from Cons.IH [OF i this] Cons show ?thesis by (simp add: f a algebra_simps)
  qed
qed simp

text \<open>
  C32: The retry bound: a new item that keeps failing is pending, due at the time given with the
  last failure, until its \<open>maxRetries\<close>-th failure, which makes it failed for good; without a
  bound (\<open>maxRetries\<close> not positive) it stays pending for ever.
\<close>

theorem retry_bound:
  assumes "items s k = Some it" and "Attempt it = 0" and "fs \<noteq> []" and "int (length fs) \<le> MaxInt64"
  shows "\<exists>it'. items (retry_all L C k maxRetries fs s) k = Some it'
    \<and> Attempt it' = int (length fs)
    \<and> Status it' = (if 0 < maxRetries \<and> maxRetries \<le> int (length fs) then StatusFailed else StatusPending)
    \<and> (Status it' = StatusPending \<longrightarrow> NextRetryAt it' = fst (snd (last fs)))"
  using retry_all_item [OF assms(1), of fs L C maxRetries] assms by auto

theorem retry_bound_witness:
  "\<exists>it'. items (retry_all ascii_golib (demo_codec []) ''a'' 2
       [(demo_env [], 60, None), (demo_env [], 70, Some ContextCanceled)] demo_store) ''a'' = Some it'
     \<and> Attempt it' = 2 \<and> Status it' = StatusFailed"
  using retry_bound [of demo_store "''a''" "demo_item ''a'' StatusPending 7"
      "[(demo_env [], 60, None), (demo_env [], 70, Some ContextCanceled)]" ascii_golib "demo_codec []" 2]
  by (auto simp: demo_store_def demo_item_def)

section \<open>Counting\<close>

lemma count_loop:
  "foldl count_status st its =
     \<lparr>Pending = Pending st + of_nat (length (filter active its)),
      Failed = Failed st + of_nat (length (filter (\<lambda>it. Status it = StatusFailed) its)),
      Done = Done st + of_nat (length (filter (\<lambda>it. Status it = StatusDone) its))\<rparr>"
proof (induction its arbitrary: st)
  case (Cons a its)
  then show ?case by (cases "Status a") (simp_all add: count_status_def active_def)
qed simp

lemma length_filter_values:
  assumes "map_order m ks" "store_inv m"
  shows "length (filter P (map_values m ks)) = card {k. \<exists>it. m k = Some it \<and> P it}"
proof -
  have "map ID (map_values m ks) = ks"
    using map_values_ID [OF assms(2)] assms(1) by (simp add: map_order_def)
  then have d: "distinct (map ID (map_values m ks))" using assms(1) by (simp add: map_order_def)
  then have "distinct (map ID (filter P (map_values m ks)))" by (rule distinct_map_filter)
  then have "length (filter P (map_values m ks)) = card (ID ` set (filter P (map_values m ks)))"
    by (metis distinct_card length_map set_map)
  moreover have "ID ` set (filter P (map_values m ks)) = {k. \<exists>it. m k = Some it \<and> P it}"
    using set_map_values_order [OF assms(1)] store_inv_ran [OF assms(2)] store_invD [OF assms(2)]
    by (auto simp: image_iff) metis
  ultimately show ?thesis by simp
qed

text \<open>
  \<open>Stats\<close> counts the queue whatever the order of iteration: items waiting or in work,
  failed and done ones, modulo \<open>2 ^ 64\<close>; each item is counted at most once.
\<close>

lemma Stats_counts:
  assumes "store_inv (items s)" and "iterates E (items s)"
  shows "Stats E s =
    \<lparr>Pending = of_nat (card {k. \<exists>it. items s k = Some it \<and> active it}),
     Failed = of_nat (card {k. \<exists>it. items s k = Some it \<and> Status it = StatusFailed}),
     Done = of_nat (card {k. \<exists>it. items s k = Some it \<and> Status it = StatusDone})\<rparr>"
  using assms(2) by (simp add: Stats_def count_loop iterates_def length_filter_values [OF _ assms(1)])

lemma oldest_loop_spec:
  assumes "\<forall>it \<in> set its. active it \<longrightarrow> CreatedAt it \<noteq> 0"
  shows "(oldest_loop t its = 0 \<longleftrightarrow> t = 0 \<and> (\<forall>it \<in> set its. \<not> active it))
    \<and> (t \<noteq> 0 \<longrightarrow> oldest_loop t its \<le> t)
    \<and> (\<forall>it \<in> set its. active it \<longrightarrow> oldest_loop t its \<le> CreatedAt it)
    \<and> (oldest_loop t its = t \<or> (\<exists>it \<in> set its. active it \<and> oldest_loop t its = CreatedAt it))"
  using assms
proof (induction its arbitrary: t)
  case (Cons a its)
  note IH = Cons.IH [of t] Cons.IH [of "CreatedAt a"]
  have h: "\<forall>it \<in> set its. active it \<longrightarrow> CreatedAt it \<noteq> 0" "active a \<longrightarrow> CreatedAt a \<noteq> 0"
    using Cons.prems by simp_all
  consider "\<not> active a" | "active a" "t = 0 \<or> CreatedAt a < t" | "active a" "\<not> (t = 0 \<or> CreatedAt a < t)"
    by blast
  then show ?case
  proof cases
    case 1
    then show ?thesis using IH(1) [OF h(1)] by simp
  next
    case 2
    then show ?thesis using IH(2) [OF h(1)] h(2) by (auto simp del: oldest_loop.simps(1))
  next
    case 3
    then show ?thesis using IH(1) [OF h(1)] by auto
  qed
qed simp

text \<open>
  \<open>OldestPendingAge\<close> reports whether anything is waiting or in work and, if so, the age of
  the oldest such item, at least 0, whatever the order of iteration (for creation times that
  are not Go's zero time, and ages within the range of a duration).
\<close>

lemma OldestPendingAge_spec:
  assumes "iterates E (items s)" and "\<forall>it \<in> ran (items s). active it \<longrightarrow> CreatedAt it \<noteq> 0 \<and> now - CreatedAt it \<le> MaxInt64"
  shows "case OldestPendingAge E now s of
      (age, False) \<Rightarrow> age = 0 \<and> (\<forall>it \<in> ran (items s). \<not> active it)
    | (age, True) \<Rightarrow> (\<exists>it \<in> ran (items s). active it \<and> age = max 0 (now - CreatedAt it))
        \<and> (\<forall>it \<in> ran (items s). active it \<longrightarrow> now - CreatedAt it \<le> age)"
proof -
  let ?its = "map_values (items s) (se_iter E (items s))"
  define t where "t = oldest_loop 0 ?its"
  have its: "set ?its = ran (items s)" by (rule map_order_values [OF assms(1)])
  have t: "t = 0 \<longleftrightarrow> (\<forall>it \<in> ran (items s). \<not> active it)"
    "\<forall>it \<in> ran (items s). active it \<longrightarrow> t \<le> CreatedAt it"
    "t = 0 \<or> (\<exists>it \<in> ran (items s). active it \<and> t = CreatedAt it)"
    using oldest_loop_spec [of ?its 0] assms(2) unfolding t_def its by blast+
  show ?thesis
  proof (cases "t = 0")
    case True
    then show ?thesis using t(1) by (simp add: OldestPendingAge_def flip: t_def)
  next
    case False
    then obtain it where it: "it \<in> ran (items s)" "active it" "t = CreatedAt it" using t(3) by blast
    moreover have "now - t \<le> MaxInt64" using assms(2) it by blast
    ultimately show ?thesis
      using False t(2)
      by (auto simp: OldestPendingAge_def Let_def time_Sub_def simp flip: t_def intro!: bexI [of _ it])
  qed
qed

section \<open>Fingerprints\<close>

lemma hex_string_no_bar: "CHR ''|'' \<notin> set (hex_string s)"
proof -
  have "hex_digit d \<noteq> CHR ''|''" if "0 \<le> d" "d < 16" for d
  proof -
    have "byte (hex_digit d) \<noteq> byte (CHR ''|'')" using that byte_hex_digit [OF that] by auto
    then show ?thesis by metis
  qed
  then have "hex_digit (byte c div 16) \<noteq> CHR ''|''" "hex_digit (byte c mod 16) \<noteq> CHR ''|''" for c :: char
    using nibbles [OF byte_range, of c] by blast+
  then show ?thesis unfolding hex_string_def by (induction s) (auto simp del: of_char_of, metis+)
qed

lemma append_last_sep:
  assumes "a @ c # b = a' @ c # b'" "c \<notin> set b" "c \<notin> set b'"
  shows "a = a' \<and> b = b'"
proof -
  have t: "takeWhile (\<lambda>x. x \<noteq> c) (rev (u @ c # v)) = rev v" if "c \<notin> set v" for u v
    using that takeWhile_append2 [of "rev v" "\<lambda>x. x \<noteq> c" "c # rev u"] by force
  have "rev b = rev b'" using t [OF assms(2), of a] t [OF assms(3), of a'] assms(1) by simp
  then show ?thesis using assms(1) by simp
qed

text \<open>What the fingerprint is a digest of determines the payload.\<close>

definition payload :: "string \<Rightarrow> string \<Rightarrow> string" where
  "payload recipient rawMessage = recipient @ ''|'' @ hex_string rawMessage"

lemma payload_inj: "payload r m = payload r' m' \<Longrightarrow> r = r' \<and> m = m'"
  using append_last_sep [of r "CHR ''|''" "hex_string m" r' "hex_string m'"] hex_string_no_bar hex_string_inj
  by (auto simp: payload_def)

text \<open>Every item carries the fingerprint of its payload, and no two payloads collide with \<open>p\<close>.\<close>

definition fingerprints_ok :: "golib \<Rightarrow> (string \<rightharpoonup> item) \<Rightarrow> bool" where
  "fingerprints_ok L m \<longleftrightarrow>
     (\<forall>it \<in> ran m. Fingerprint it = payloadFingerprint L (ItemRecipient it) (RawMessage it))"

definition no_collision :: "golib \<Rightarrow> string \<Rightarrow> (string \<rightharpoonup> item) \<Rightarrow> bool" where
  "no_collision L p m \<longleftrightarrow>
     (\<forall>it \<in> ran m. sha256_hex L (payload (ItemRecipient it) (RawMessage it)) = sha256_hex L p
        \<longrightarrow> payload (ItemRecipient it) (RawMessage it) = p)"

text \<open>After \<open>Enqueue\<close>, successful or not, the message is in the queue and active.\<close>

lemma Enqueue_present:
  assumes "store_inv (items s)" "iterates E (items s)" "fingerprints_ok L (items s)"
    "no_collision L (payload rc raw) (items s)"
  shows "\<exists>it. items (snd (Enqueue L C E rc raw e s)) (ID it) = Some it \<and> active it
    \<and> ItemRecipient it = rc \<and> RawMessage it = raw"
proof -
  have "active x \<and> ItemRecipient x = rc \<and> RawMessage x = raw"
    if x: "x = enqueued L E rc raw e (items s)" for x
  proof (rule enqueued_cases [OF assms(1,2), of L rc raw e])
    fix it0
    assume h: "items s (ID it0) = Some it0" "active it0" "Fingerprint it0 = payloadFingerprint L rc raw"
      "enqueued L E rc raw e (items s) = (set_error L e it0)\<lparr>UpdatedAt := se_now E\<rparr>"
    have "it0 \<in> ran (items s)" using h(1) by (rule ranI)
    then have "payload (ItemRecipient it0) (RawMessage it0) = payload rc raw"
      using assms(3,4) h(3) unfolding fingerprints_ok_def no_collision_def payloadFingerprint_def payload_def
      by metis
    then have "ItemRecipient it0 = rc \<and> RawMessage it0 = raw" by (rule payload_inj)
    then show ?thesis using x h(2,4) by (simp add: active_def)
  next
    assume "enqueued L E rc raw e (items s) = new_item L E rc raw e"
    then show ?thesis using x by (simp add: new_item_def active_def)
  qed
  then show ?thesis by (auto simp: Enqueue_items intro!: exI [of _ "enqueued L E rc raw e (items s)"])
qed

lemma Enqueue_fingerprints:
  assumes "store_inv (items s)" "iterates E (items s)" "fingerprints_ok L (items s)"
  shows "fingerprints_ok L (items (snd (Enqueue L C E rc raw e s)))"
proof -
  let ?x = "enqueued L E rc raw e (items s)"
  have "Fingerprint ?x = payloadFingerprint L (ItemRecipient ?x) (RawMessage ?x)"
    by (rule enqueued_cases [OF assms(1,2), of L rc raw e])
      (use assms(3) in \<open>auto simp: new_item_def fingerprints_ok_def dest: ranI\<close>)
  then show ?thesis
    using assms(3) by (auto simp: fingerprints_ok_def Enqueue_items ran_def)
qed

lemma keeps_fingerprints:
  "keeps m m' \<Longrightarrow> dom m' = dom m \<Longrightarrow> fingerprints_ok L m \<Longrightarrow> fingerprints_ok L m'"
proof -
  assume k: "keeps m m'" "dom m' = dom m" "fingerprints_ok L m"
  have "Fingerprint it' = payloadFingerprint L (ItemRecipient it') (RawMessage it')" if "m' k = Some it'" for k it'
  proof -
    have "k \<in> dom m'" by (rule domI [of m' k, OF that])
    then obtain it where it: "m k = Some it" unfolding k(2) by (rule domD [THEN exE])
    then have "same_message it it'" using keepsD [OF k(1) it] that by simp
    moreover have "Fingerprint it = payloadFingerprint L (ItemRecipient it) (RawMessage it)"
      using k(3) ranI [of m k it] it by (simp add: fingerprints_ok_def)
    ultimately show ?thesis by (simp add: same_message_def)
  qed
  then show ?thesis by (auto simp: fingerprints_ok_def ran_def)
qed

lemma PickDue_dom: "iterates E (items s) \<Longrightarrow> dom (items (snd (PickDue C E limit now s))) = dom (items s)"
  using picked_due [of E s _ limit now] by (auto simp: PickDue_items split: if_splits) blast

lemma MarkDone_dom: "dom (items (snd (MarkDone C E k s))) = dom (items s)"
  by (auto simp: MarkDone_items split: option.splits)

lemma MarkRetry_dom: "dom (items (snd (MarkRetry L C E k t e r s))) = dom (items s)"
  by (auto simp: MarkRetry_items split: option.splits)

lemma store_step_fingerprints:
  "store_step L C R s s' \<Longrightarrow> store_inv (items s) \<Longrightarrow> fingerprints_ok L (items s) \<Longrightarrow> fingerprints_ok L (items s')"
  by (induction rule: store_step.induct)
    (auto intro: Enqueue_fingerprints keeps_fingerprints [OF PickDue_keeps PickDue_dom]
      keeps_fingerprints [OF MarkDone_keeps MarkDone_dom] keeps_fingerprints [OF MarkRetry_keeps MarkRetry_dom])

end
