(* ===== verification/System.thy ===== *)
theory System
  imports Context Recipient Email Metrics Dlq_Store
begin

text \<open>
  The state the parts of the program share, and the outside world.

  \<open>'w\<close> is the state of everything outside: the MAX service, the clock, the disk and, since the
  program's goroutines run concurrently, the other goroutines. \<open>external\<close> holds the calls that
  leave the program; each takes the world and returns its answer with the world afterwards. A
  send also answers what the rate limiter in front of the sender records on the way: it has the
  program's metrics, and nothing but its own three figures in them.
  \<open>sys\<close> is the state inside: the alias table, the metrics and the dead-letter queue, the last
  two of which may be switched off (nil pointers in the code).
\<close>

type_synonym 'w send = "'w \<Rightarrow> (error option \<times> limiter_update list) \<times> 'w"

record 'w external =
  x_now :: "'w \<Rightarrow> time \<times> 'w"
  x_wait :: "context_values \<Rightarrow> duration \<Rightarrow> 'w \<Rightarrow> error option \<times> 'w"
  x_SendText :: "context_values \<Rightarrow> string \<Rightarrow> string \<Rightarrow> bool \<Rightarrow> 'w send"
  x_SendFile :: "context_values \<Rightarrow> string \<Rightarrow> Attachment \<Rightarrow> bool \<Rightarrow> 'w send"
  x_store :: "'w \<Rightarrow> store_env \<times> 'w"
  x_Int63n :: "int \<Rightarrow> 'w \<Rightarrow> int \<times> 'w"

record 'w sys =
  sys_parser :: rcpt_parser
  sys_metrics :: "Collector option"
  sys_dlq :: "FileStore option"
  sys_world :: 'w

text \<open>An operation of the outside world run in the whole state.\<close>

definition in_world :: "('w \<Rightarrow> 'a \<times> 'w) \<Rightarrow> 'w sys \<Rightarrow> 'a \<times> 'w sys" where
  "in_world f s = (case f (sys_world s) of (r, w) \<Rightarrow> (r, s\<lparr>sys_world := w\<rparr>))"

text \<open>An update of the metrics, if there are any.\<close>

definition with_metrics :: "(Collector \<Rightarrow> Collector) \<Rightarrow> 'w sys \<Rightarrow> 'w sys" where
  "with_metrics f s = s\<lparr>sys_metrics := map_option f (sys_metrics s)\<rparr>"

text \<open>A send in the whole state: the metrics get what the rate limiter records.\<close>

definition in_send :: "'w send \<Rightarrow> 'w sys \<Rightarrow> error option \<times> 'w sys" where
  "in_send fn s = (case in_world fn s of ((r, us), s1) \<Rightarrow> (r, with_metrics (fold apply_update us) s1))"

lemma in_world_frame [simp]:
  "sys_parser (snd (in_world f s)) = sys_parser s" "sys_metrics (snd (in_world f s)) = sys_metrics s"
  "sys_dlq (snd (in_world f s)) = sys_dlq s"
  by (simp_all add: in_world_def split: prod.splits)

lemma in_worldD:
  "in_world f s = (r, s') \<Longrightarrow> sys_parser s' = sys_parser s \<and> sys_metrics s' = sys_metrics s
     \<and> sys_dlq s' = sys_dlq s \<and> f (sys_world s) = (r, sys_world s')"
  by (auto simp: in_world_def split: prod.splits)

lemma with_metrics_frame [simp]:
  "sys_parser (with_metrics f s) = sys_parser s" "sys_dlq (with_metrics f s) = sys_dlq s"
  "sys_world (with_metrics f s) = sys_world s"
  "sys_metrics (with_metrics f s) = map_option f (sys_metrics s)"
  by (simp_all add: with_metrics_def)

lemma in_sendD:
  "in_send fn s = (r, s') \<Longrightarrow> \<exists>us. fn (sys_world s) = ((r, us), sys_world s') \<and> sys_parser s' = sys_parser s
     \<and> sys_dlq s' = sys_dlq s \<and> sys_metrics s' = map_option (fold apply_update us) (sys_metrics s)"
  by (auto simp: in_send_def in_world_def split: prod.splits)

text \<open>The metrics without the figures of the rate limiter.\<close>

definition limiter_free :: "Collector \<Rightarrow> Collector" where
  "limiter_free c = c\<lparr>maxSendRateLimited := 0, maxSendQueueDepth := 0, maxSendQueueDrop := 0\<rparr>"

lemma limiter_free_update [simp]: "limiter_free (apply_update u c) = limiter_free c"
  by (cases u) (simp_all add: limiter_free_def counter_defs)

lemma limiter_free_updates [simp]: "limiter_free (fold apply_update us c) = limiter_free c"
  by (induction us arbitrary: c) simp_all

definition other_metrics :: "'w sys \<Rightarrow> Collector option" where
  "other_metrics s = map_option limiter_free (sys_metrics s)"

lemma other_metrics_send: "sys_metrics s' = map_option (fold apply_update us) (sys_metrics s) \<Longrightarrow> other_metrics s' = other_metrics s"
  by (simp add: other_metrics_def option.map_comp comp_def)

text \<open>An operation of the queue in the whole state, with what it reads from outside.\<close>

definition with_store ::
  "'w external \<Rightarrow> (store_env \<Rightarrow> FileStore \<Rightarrow> 'a \<times> FileStore) \<Rightarrow> FileStore \<Rightarrow> 'w sys \<Rightarrow> 'a \<times> 'w sys" where
  "with_store X f st s =
     (case in_world (x_store X) s of
        (E, s1) \<Rightarrow> (case f E st of (r, st') \<Rightarrow> (r, s1\<lparr>sys_dlq := Some st'\<rparr>)))"

section \<open>Watching the calls that leave the program\<close>

text \<open>
  For stating what was sent: the same world with a record of the sends and waits. \<open>logged\<close> leaves
  the answers as they are.
\<close>

datatype call =
    CText string string bool "error option"
  | CFile string Attachment bool "error option"
  | CWait duration "error option"

definition log_call :: "('a \<Rightarrow> call) \<Rightarrow> ('w \<Rightarrow> 'a \<times> 'w) \<Rightarrow> 'w \<times> call list \<Rightarrow> 'a \<times> ('w \<times> call list)" where
  "log_call c f w = (case f (fst w) of (r, w') \<Rightarrow> (r, (w', snd w @ [c r])))"

definition no_log :: "('w \<Rightarrow> 'a \<times> 'w) \<Rightarrow> 'w \<times> call list \<Rightarrow> 'a \<times> ('w \<times> call list)" where
  "no_log f w = (case f (fst w) of (r, w') \<Rightarrow> (r, (w', snd w)))"

text \<open>Of a send, its result is recorded.\<close>

definition log_send :: "(error option \<Rightarrow> call) \<Rightarrow> 'w send \<Rightarrow> ('w \<times> call list) send" where
  "log_send c = log_call (\<lambda>answer. c (fst answer))"

definition logged :: "'w external \<Rightarrow> ('w \<times> call list) external" where
  "logged X = \<lparr>x_now = no_log (x_now X),
     x_wait = (\<lambda>ctx d. log_call (CWait d) (x_wait X ctx d)),
     x_SendText = (\<lambda>ctx chat t q. log_send (CText chat t q) (x_SendText X ctx chat t q)),
     x_SendFile = (\<lambda>ctx chat a q. log_send (CFile chat a q) (x_SendFile X ctx chat a q)),
     x_store = no_log (x_store X), x_Int63n = (\<lambda>n. no_log (x_Int63n X n))\<rparr>"

abbreviation sys_log :: "('w \<times> call list) sys \<Rightarrow> call list" where
  "sys_log s \<equiv> snd (sys_world s)"

lemma in_world_no_log [simp]: "sys_log (snd (in_world (no_log f) s)) = sys_log s"
  by (simp add: in_world_def no_log_def split: prod.splits)

lemma in_world_log_call: "in_world (log_call c f) s = (r, s') \<Longrightarrow> sys_log s' = sys_log s @ [c r]"
  by (auto simp: in_world_def log_call_def split: prod.splits)

lemma in_send_log_send: "in_send (log_send c f) s = (r, s') \<Longrightarrow> sys_log s' = sys_log s @ [c r]"
  by (auto simp: in_send_def log_send_def split: prod.splits dest!: in_world_log_call)

end
