(* ===== verification/Limited_Sender.thy ===== *)
theory Limited_Sender
  imports Metrics
begin

text \<open>
  \<open>internal/max/limited_sender.go\<close>: a token bucket in front of the sender. Many goroutines call
  \<open>acquire\<close> at the same time while another one refills the bucket, so the model is a step
  relation: each call of \<open>acquire\<close> is a thread with a phase, and every channel operation, atomic
  update and metrics call is one step, in any interleaving.

  \<open>tokens\<close> and \<open>queueSlots\<close> are buffered channels of empty values, so each is the number of values
  in it. \<open>select\<close> takes any ready case, and its default only when no case is ready.
\<close>

section \<open>Configuration\<close>

record RateLimiterConfig =
  RPS :: int
  Burst :: int
  QueueCapacity :: int
  QueueWait :: duration

record limits =
  burst :: nat
  queue_cap :: nat
  queueWait :: duration
  interval :: duration

text \<open>\<open>NewRateLimitedSender\<close>: no limiter at all for a rate that is not positive.\<close>

definition NewRateLimitedSender :: "RateLimiterConfig \<Rightarrow> limits option" where
  "NewRateLimitedSender cfg =
     (if RPS cfg \<le> 0 then None
      else
        let b = (if Burst cfg \<le> 0 then 1 else Burst cfg);
            q = (if QueueCapacity cfg < 0 then 0 else QueueCapacity cfg);
            w = (if QueueWait cfg \<le> 0 then 500000000 else QueueWait cfg);
            i = 1000000000 div RPS cfg
        in Some \<lparr>burst = nat b, queue_cap = nat q, queueWait = w, interval = (if i \<le> 0 then 1 else i)\<rparr>)"

section \<open>Threads\<close>

text \<open>Where a call of \<open>acquire\<close> is; \<open>r\<close> is the error it will return.\<close>

datatype phase =
    Start
  | Queue
  | Entered
  | PublishUp int
  | Waiting
  | Leaving "error option"
  | SlotFreed "error option"
  | PublishDown int "error option"
  | Finished "error option"

record 't limiter =
  tokens :: nat
  queueSlots :: nat
  queueDepth :: int
  lim_metrics :: "Collector option"
  phases :: "'t \<rightharpoonup> phase"

definition limiter_init :: "limits \<Rightarrow> Collector option \<Rightarrow> 't limiter" where
  "limiter_init c m = \<lparr>tokens = burst c, queueSlots = 0, queueDepth = 0,
     lim_metrics = map_option (SetMaxSendQueueDepth 0) m, phases = Map.empty\<rparr>"

definition goto :: "'t \<Rightarrow> phase \<Rightarrow> 't limiter \<Rightarrow> 't limiter" where
  "goto t p s = s\<lparr>phases := (phases s)(t \<mapsto> p)\<rparr>"

definition lim_observe :: "(Collector \<Rightarrow> Collector) \<Rightarrow> 't limiter \<Rightarrow> 't limiter" where
  "lim_observe f s = s\<lparr>lim_metrics := map_option f (lim_metrics s)\<rparr>"

text \<open>\<open>updateQueueDepth\<close>, its update of the counter; publishing the new value is a step of its own.\<close>

definition add_depth :: "int \<Rightarrow> int \<Rightarrow> int" where
  "add_depth depth delta = (let n = wrap64 (depth + delta) in if n < 0 then 0 else n)"

text \<open>What a step does, for counting: refill the bucket, let a call through, or anything else.\<close>

datatype label = Tick | Grant | Tau

inductive lim_step :: "limits \<Rightarrow> 't limiter \<Rightarrow> label \<Rightarrow> 't limiter \<Rightarrow> bool" for c where
  refill: "lim_step c s Tick (if tokens s < burst c then s\<lparr>tokens := tokens s + 1\<rparr> else s)"
| call: "phases s t = None \<Longrightarrow> lim_step c s Tau (goto t Start s)"
| start_cancelled: "phases s t = Some Start \<Longrightarrow> lim_step c s Tau (goto t (Finished (Some e)) s)"
| start_token: "phases s t = Some Start \<Longrightarrow> 0 < tokens s
    \<Longrightarrow> lim_step c s Grant (goto t (Finished None) (s\<lparr>tokens := tokens s - 1\<rparr>))"
| start_default: "phases s t = Some Start \<Longrightarrow> tokens s = 0 \<Longrightarrow> lim_step c s Tau (goto t Queue s)"
| queue_slot: "phases s t = Some Queue \<Longrightarrow> queueSlots s < queue_cap c
    \<Longrightarrow> lim_step c s Tau (goto t Entered (s\<lparr>queueSlots := queueSlots s + 1\<rparr>))"
| queue_full: "phases s t = Some Queue \<Longrightarrow> queue_cap c \<le> queueSlots s
    \<Longrightarrow> lim_step c s Tau (goto t (Finished (Some (QueueTimeoutError 0)))
          (lim_observe IncMaxSendRateLimited (lim_observe IncMaxSendQueueDropped s)))"
| depth_up: "phases s t = Some Entered
    \<Longrightarrow> lim_step c s Tau (goto t (PublishUp (add_depth (queueDepth s) 1)) (s\<lparr>queueDepth := add_depth (queueDepth s) 1\<rparr>))"
| publish_up: "phases s t = Some (PublishUp n)
    \<Longrightarrow> lim_step c s Tau (goto t Waiting (lim_observe (SetMaxSendQueueDepth (word_of_int n)) s))"
| wait_cancelled: "phases s t = Some Waiting \<Longrightarrow> lim_step c s Tau (goto t (Leaving (Some e)) s)"
| wait_timeout: "phases s t = Some Waiting
    \<Longrightarrow> lim_step c s Tau (goto t (Leaving (Some (QueueTimeoutError (queueWait c))))
          (lim_observe IncMaxSendRateLimited (lim_observe IncMaxSendQueueDropped s)))"
| wait_token: "phases s t = Some Waiting \<Longrightarrow> 0 < tokens s
    \<Longrightarrow> lim_step c s Grant (goto t (Leaving None) (lim_observe IncMaxSendRateLimited (s\<lparr>tokens := tokens s - 1\<rparr>)))"
| free_slot: "phases s t = Some (Leaving r)
    \<Longrightarrow> lim_step c s Tau (goto t (SlotFreed r) (s\<lparr>queueSlots := queueSlots s - 1\<rparr>))"
| depth_down: "phases s t = Some (SlotFreed r)
    \<Longrightarrow> lim_step c s Tau (goto t (PublishDown (add_depth (queueDepth s) (-1)) r)
          (s\<lparr>queueDepth := add_depth (queueDepth s) (-1)\<rparr>))"
| publish_down: "phases s t = Some (PublishDown n r)
    \<Longrightarrow> lim_step c s Tau (goto t (Finished r) (lim_observe (SetMaxSendQueueDepth (word_of_int n)) s))"

inductive lim_run :: "limits \<Rightarrow> 't limiter \<Rightarrow> label list \<Rightarrow> 't limiter \<Rightarrow> bool" for c where
  run_nil: "lim_run c s [] s"
| run_step: "lim_run c s ls s' \<Longrightarrow> lim_step c s' l s'' \<Longrightarrow> lim_run c s (ls @ [l]) s''"

inductive_cases lim_stepE: "lim_step c s l s'"

section \<open>Counting threads\<close>

definition count_phase :: "(phase \<Rightarrow> bool) \<Rightarrow> ('t \<rightharpoonup> phase) \<Rightarrow> nat" where
  "count_phase P ph = card {t. \<exists>p. ph t = Some p \<and> P p}"

lemma count_phase_upd:
  assumes "finite (dom ph)"
  shows "int (count_phase P (ph(t \<mapsto> p))) = int (count_phase P ph) + of_bool (P p)
    - of_bool (case ph t of None \<Rightarrow> False | Some q \<Rightarrow> P q)"
proof -
  let ?A = "{u. \<exists>p. ph u = Some p \<and> P p}"
  have fin: "finite ?A" by (rule finite_subset [OF _ assms]) auto
  have "{u. \<exists>q. (ph(t \<mapsto> p)) u = Some q \<and> P q} = (if P p then insert t ?A else ?A - {t})" by auto
  moreover have "t \<in> ?A \<longleftrightarrow> (case ph t of None \<Rightarrow> False | Some q \<Rightarrow> P q)" by (auto split: option.splits)
  moreover have "t \<in> ?A \<Longrightarrow> 0 < card ?A" using fin by (auto simp: card_gt_0_iff)
  ultimately show ?thesis
    using fin by (auto simp: count_phase_def card_insert_if card_Diff_singleton_if of_nat_diff Suc_le_eq)
qed

fun holds_slot :: "phase \<Rightarrow> bool" where
  "holds_slot Entered = True"
| "holds_slot (PublishUp n) = True"
| "holds_slot Waiting = True"
| "holds_slot (Leaving r) = True"
| "holds_slot _ = False"

fun counted :: "phase \<Rightarrow> bool" where
  "counted (PublishUp n) = True"
| "counted Waiting = True"
| "counted (Leaving r) = True"
| "counted (SlotFreed r) = True"
| "counted _ = False"

fun let_through :: "phase \<Rightarrow> bool" where
  "let_through (Leaving r) = (r = None)"
| "let_through (SlotFreed r) = (r = None)"
| "let_through (PublishDown n r) = (r = None)"
| "let_through (Finished r) = (r = None)"
| "let_through _ = False"

text \<open>The channels stay within their capacities, and a slot is taken exactly by the threads in line.\<close>

definition limiter_inv :: "limits \<Rightarrow> 't limiter \<Rightarrow> bool" where
  "limiter_inv c s \<longleftrightarrow> finite (dom (phases s)) \<and> tokens s \<le> burst c
     \<and> int (queueSlots s) = int (count_phase holds_slot (phases s)) \<and> queueSlots s \<le> queue_cap c"

lemma limiter_inv_init: "limiter_inv c (limiter_init c m)"
  by (simp add: limiter_inv_def limiter_init_def count_phase_def)

lemma goto_sel [simp]:
  "phases (goto t p s) = (phases s)(t \<mapsto> p)" "tokens (goto t p s) = tokens s"
  "queueSlots (goto t p s) = queueSlots s" "queueDepth (goto t p s) = queueDepth s"
  by (simp_all add: goto_def)

lemma lim_observe_sel [simp]:
  "phases (lim_observe f s) = phases s" "tokens (lim_observe f s) = tokens s"
  "queueSlots (lim_observe f s) = queueSlots s" "queueDepth (lim_observe f s) = queueDepth s"
  by (simp_all add: lim_observe_def)

lemma slot_taken: "limiter_inv c s \<Longrightarrow> phases s t = Some p \<Longrightarrow> holds_slot p \<Longrightarrow> 0 < queueSlots s"
proof -
  assume i: "limiter_inv c s" and t: "phases s t = Some p" "holds_slot p"
  have "finite {u. \<exists>q. phases s u = Some q \<and> holds_slot q}"
    by (rule finite_subset [of _ "dom (phases s)"]) (use i in \<open>auto simp: limiter_inv_def\<close>)
  then have "0 < count_phase holds_slot (phases s)"
    using t by (auto simp: count_phase_def card_gt_0_iff)
  then show ?thesis using i by (simp add: limiter_inv_def)
qed

lemma lim_step_inv: "lim_step c s l s' \<Longrightarrow> limiter_inv c s \<Longrightarrow> limiter_inv c s'"
proof (induction rule: lim_step.induct)
  case (free_slot s t r)
  then have "0 < queueSlots s" using slot_taken [of c s t "Leaving r"] by simp
  then show ?case using free_slot by (auto simp: limiter_inv_def count_phase_upd of_nat_diff)
qed (auto simp: limiter_inv_def count_phase_upd)

text \<open>The bucket: tokens and calls let through never exceed what was put in.\<close>

definition ticks :: "label list \<Rightarrow> nat" where
  "ticks ls = length (filter (\<lambda>l. l = Tick) ls)"

definition grants :: "label list \<Rightarrow> nat" where
  "grants ls = length (filter (\<lambda>l. l = Grant) ls)"

lemma lim_step_let_through:
  "lim_step c s l s' \<Longrightarrow> finite (dom (phases s)) \<Longrightarrow>
     int (count_phase let_through (phases s')) = int (count_phase let_through (phases s)) + of_bool (l = Grant)
     \<and> int (tokens s') + of_bool (l = Grant) \<le> int (tokens s) + of_bool (l = Tick)"
  by (induction rule: lim_step.induct) (simp_all add: count_phase_upd)

lemma lim_run_counts:
  "lim_run c s ls s' \<Longrightarrow> limiter_inv c s \<Longrightarrow> limiter_inv c s'
     \<and> int (count_phase let_through (phases s')) = int (count_phase let_through (phases s)) + int (grants ls)
     \<and> int (tokens s') + int (grants ls) \<le> int (tokens s) + int (ticks ls)"
proof (induction rule: lim_run.induct)
  case (run_step s ls s' l s'')
  have "limiter_inv c s''" using run_step lim_step_inv by blast
  moreover have "finite (dom (phases s'))" using run_step by (simp add: limiter_inv_def)
  note lim_step_let_through [OF run_step.hyps(2) this]
  ultimately show ?case using run_step by (cases l) (auto simp: ticks_def grants_def)
qed (simp add: ticks_def grants_def)

text \<open>
  C11: The rate limit holds under every interleaving: the calls of \<open>acquire\<close> that are let through
  never outnumber the burst plus the ticks of the refill timer; the bucket never holds more
  than the burst, and never more callers wait in line than the queue has room for.
\<close>

theorem rate_limit:
  assumes "lim_run c (limiter_init c m) ls s"
  shows "count_phase let_through (phases s) = grants ls \<and> grants ls \<le> burst c + ticks ls
    \<and> tokens s \<le> burst c \<and> queueSlots s = count_phase holds_slot (phases s) \<and> queueSlots s \<le> queue_cap c"
proof -
  note r = lim_run_counts [OF assms limiter_inv_init]
  have "count_phase let_through (phases (limiter_init c m :: 'a limiter)) = 0" "tokens (limiter_init c m :: 'a limiter) = burst c"
    by (simp_all add: limiter_init_def count_phase_def)
  then show ?thesis using r by (auto simp: limiter_inv_def)
qed

theorem rate_limit_witness:
  "count_phase let_through
     (phases (goto (1 :: nat) (Finished None)
       ((goto 1 Start (limiter_init \<lparr>burst = 1, queue_cap = 0, queueWait = 5, interval = 1\<rparr> None))\<lparr>tokens := 0\<rparr>))) = 1"
proof -
  let ?c = "\<lparr>burst = 1, queue_cap = 0, queueWait = 5, interval = 1\<rparr>"
  let ?s0 = "limiter_init ?c None :: nat limiter"
  have "lim_step ?c ?s0 Tau (goto 1 Start ?s0)"
    by (rule call) (simp add: limiter_init_def)
  moreover have "lim_step ?c (goto 1 Start ?s0) Grant (goto 1 (Finished None) ((goto 1 Start ?s0)\<lparr>tokens := tokens (goto 1 Start ?s0) - 1\<rparr>))"
    by (rule start_token) (simp_all add: limiter_init_def)
  ultimately have "lim_run ?c ?s0 (([] @ [Tau]) @ [Grant]) (goto 1 (Finished None) ((goto 1 Start ?s0)\<lparr>tokens := tokens (goto 1 Start ?s0) - 1\<rparr>))"
    by (rule run_step [OF run_step [OF run_nil]])
  from rate_limit [OF this] show ?thesis by (simp add: grants_def limiter_init_def)
qed

section \<open>The queue depth\<close>

lemma count_phase_le: "finite (dom ph) \<Longrightarrow> count_phase P ph \<le> card (dom ph)"
  unfolding count_phase_def by (intro card_mono) auto

lemma count_phase_pos: "finite (dom ph) \<Longrightarrow> ph t = Some p \<Longrightarrow> P p \<Longrightarrow> 0 < count_phase P ph"
  using finite_subset [of "{u. \<exists>q. ph u = Some q \<and> P q}" "dom ph"]
  by (auto simp: count_phase_def card_gt_0_iff)

lemma add_depth_exact: "0 \<le> d + e \<Longrightarrow> d + e < 2 ^ 63 \<Longrightarrow> add_depth d e = d + e"
  by (simp add: add_depth_def wrap64_id in_int64_def)

text \<open>The counter is the number of threads that are counted, while there are fewer than \<open>2 ^ 63\<close>.\<close>

definition depth_ok :: "'t limiter \<Rightarrow> bool" where
  "depth_ok s \<longleftrightarrow> finite (dom (phases s)) \<and> queueDepth s = int (count_phase counted (phases s))"

lemma lim_step_dom: "lim_step c s l s' \<Longrightarrow> finite (dom (phases s)) \<Longrightarrow> finite (dom (phases s')) \<and> card (dom (phases s)) \<le> card (dom (phases s'))"
  by (induction rule: lim_step.induct) (auto simp: card_insert_if)

lemma lim_step_depth:
  "lim_step c s l s' \<Longrightarrow> depth_ok s \<Longrightarrow> int (card (dom (phases s))) < 2 ^ 63 \<Longrightarrow> depth_ok s'"
proof (induction rule: lim_step.induct)
  case (depth_up s t)
  let ?ph = "(phases s)(t \<mapsto> PublishUp (add_depth (queueDepth s) 1))"
  have f: "finite (dom (phases s))" using depth_up by (simp add: depth_ok_def)
  then have c: "int (count_phase counted ?ph) = int (count_phase counted (phases s)) + 1"
    using depth_up by (simp add: count_phase_upd)
  have "dom ?ph = dom (phases s)" using depth_up by auto
  then have "count_phase counted ?ph \<le> card (dom (phases s))" using f count_phase_le [of ?ph counted] by simp
  then have "int (count_phase counted (phases s)) + 1 < 2 ^ 63" using c depth_up.prems(2) by linarith
  then have "add_depth (queueDepth s) 1 = queueDepth s + 1"
    using depth_up by (intro add_depth_exact) (simp_all add: depth_ok_def)
  then show ?case using depth_up c by (simp add: depth_ok_def)
next
  case (depth_down s t r)
  have f: "finite (dom (phases s))" using depth_down by (simp add: depth_ok_def)
  have "0 < count_phase counted (phases s)" using count_phase_pos [OF f depth_down.hyps, of counted] by simp
  moreover have "count_phase counted (phases s) \<le> card (dom (phases s))" by (rule count_phase_le [OF f])
  ultimately have "add_depth (queueDepth s) (-1) = queueDepth s + (-1)"
    using depth_down by (intro add_depth_exact) (auto simp: depth_ok_def)
  then show ?case using depth_down by (simp add: depth_ok_def count_phase_upd)
qed (auto simp: depth_ok_def count_phase_upd)

lemma lim_run_depth:
  "lim_run c s ls s' \<Longrightarrow> depth_ok s \<Longrightarrow> int (card (dom (phases s'))) < 2 ^ 63 \<Longrightarrow> depth_ok s'"
proof (induction rule: lim_run.induct)
  case (run_step s ls s' l s'')
  have f: "finite (dom (phases s))" using run_step by (simp add: depth_ok_def)
  have "finite (dom (phases u))" if "lim_run c s ls' u" for ls' u
    using that f by (induction rule: lim_run.induct) (auto dest: lim_step_dom)
  then have "card (dom (phases s')) \<le> card (dom (phases s''))" using run_step lim_step_dom by blast
  then have "int (card (dom (phases s'))) < 2 ^ 63" "depth_ok s'" using run_step by auto
  then show ?case using run_step lim_step_depth by blast
qed

text \<open>
  The depth counter is exact under every interleaving: it is the number of callers that are
  between joining the queue and leaving it, so it never goes below zero (the code's reset to
  zero is dead), and when all calls have returned it is zero again.
\<close>

lemma queue_depth_exact:
  assumes "lim_run c (limiter_init c m) ls s" and "int (card (dom (phases s))) < 2 ^ 63"
  shows "queueDepth s = int (count_phase counted (phases s))
    \<and> ((\<forall>p \<in> ran (phases s). \<exists>r. p = Finished r) \<longrightarrow> queueDepth s = 0)"
proof -
  have "depth_ok (limiter_init c m :: 'a limiter)" by (simp add: depth_ok_def limiter_init_def count_phase_def)
  then have d: "queueDepth s = int (count_phase counted (phases s))"
    using lim_run_depth [OF assms(1)] assms(2) by (simp add: depth_ok_def)
  moreover have "count_phase counted (phases s) = 0" if "\<forall>p \<in> ran (phases s). \<exists>r. p = Finished r"
  proof -
    have "{t. \<exists>p. phases s t = Some p \<and> counted p} = {}" using that by (fastforce simp: ran_def)
    then show ?thesis unfolding count_phase_def by (simp only: card.empty)
  qed
  ultimately show ?thesis by simp
qed

section \<open>One call\<close>

text \<open>
  What one call of \<open>acquire\<close> comes to: a token or a cancelled context at once, no room in the
  line, or a wait in the line, with the depths it publishes when it joins and when it leaves.
  Which of these it is, and the depths, depend on the other callers.
\<close>

datatype wait_end = GotToken | WaitCancelled error | WaitTimedOut

datatype acquire_path = Immediate | Refused error | QueueFull | Queued int wait_end int

text \<open>What the call returns, and what it records in the metrics.\<close>

fun wait_result :: "limits \<Rightarrow> wait_end \<Rightarrow> error option" where
  "wait_result c GotToken = None"
| "wait_result c (WaitCancelled e) = Some e"
| "wait_result c WaitTimedOut = Some (QueueTimeoutError (queueWait c))"

fun wait_updates :: "wait_end \<Rightarrow> limiter_update list" where
  "wait_updates GotToken = [RateLimited]"
| "wait_updates (WaitCancelled e) = []"
| "wait_updates WaitTimedOut = [QueueDropped, RateLimited]"

fun acquire_result :: "limits \<Rightarrow> acquire_path \<Rightarrow> error option" where
  "acquire_result c Immediate = None"
| "acquire_result c (Refused e) = Some e"
| "acquire_result c QueueFull = Some (QueueTimeoutError 0)"
| "acquire_result c (Queued n e m) = wait_result c e"

fun acquire_updates :: "acquire_path \<Rightarrow> limiter_update list" where
  "acquire_updates Immediate = []"
| "acquire_updates (Refused e) = []"
| "acquire_updates QueueFull = [QueueDropped, RateLimited]"
| "acquire_updates (Queued n e m) = QueueDepth (word_of_int n) # wait_updates e @ [QueueDepth (word_of_int m)]"

text \<open>
  These are the results and the records of the step relation: while one caller is alone, its
  phase says what it has recorded so far, and when it has returned that is one of the paths.
\<close>

fun recorded_so_far :: "limits \<Rightarrow> phase \<Rightarrow> limiter_update list \<Rightarrow> bool" where
  "recorded_so_far c (PublishUp n) us = (us = [])"
| "recorded_so_far c Waiting us = (\<exists>n. us = [QueueDepth (word_of_int n)])"
| "recorded_so_far c (Leaving r) us = (\<exists>n e. r = wait_result c e \<and> us = QueueDepth (word_of_int n) # wait_updates e)"
| "recorded_so_far c (SlotFreed r) us = (\<exists>n e. r = wait_result c e \<and> us = QueueDepth (word_of_int n) # wait_updates e)"
| "recorded_so_far c (PublishDown m r) us = (\<exists>n e. r = wait_result c e \<and> us = QueueDepth (word_of_int n) # wait_updates e)"
| "recorded_so_far c (Finished r) us = (\<exists>p. r = acquire_result c p \<and> us = acquire_updates p)"
| "recorded_so_far c _ us = (us = [])"

definition solo :: "limits \<Rightarrow> 't \<Rightarrow> Collector option \<Rightarrow> 't limiter \<Rightarrow> bool" where
  "solo c t m s \<longleftrightarrow> (\<exists>p us. phases s = [t \<mapsto> p] \<and> recorded_so_far c p us
     \<and> lim_metrics s = map_option (fold apply_update us) m)"

lemma lim_metrics_sel [simp]:
  "lim_metrics (goto t p s) = lim_metrics s" "lim_metrics (lim_observe f s) = map_option f (lim_metrics s)"
  by (simp_all add: goto_def lim_observe_def)

lemma solo_goto:
  assumes "solo c t m s" "phases s u = Some p" "phases s0 = phases s"
    and "lim_metrics s0 = map_option (fold apply_update us') (lim_metrics s)"
    and "\<And>us. recorded_so_far c p us \<Longrightarrow> recorded_so_far c q (us @ us')"
  shows "solo c t m (goto u q s0)"
proof -
  from assms(1) obtain p0 us where s: "phases s = [t \<mapsto> p0]" "recorded_so_far c p0 us"
    "lim_metrics s = map_option (fold apply_update us) m"
    unfolding solo_def by blast
  then have "u = t" "p0 = p" using assms(2) by (auto split: if_splits)
  then have "phases (goto u q s0) = [t \<mapsto> q]" "recorded_so_far c q (us @ us')"
    "lim_metrics (goto u q s0) = map_option (fold apply_update (us @ us')) m"
    using s assms(3-5) by (simp_all add: option.map_comp comp_def)
  then show ?thesis unfolding solo_def by blast
qed

lemma solo_step:
  assumes "lim_step c s l s'" "solo c t m s" "dom (phases s') \<subseteq> {t}"
  shows "solo c t m s'"
  using assms
proof (induction rule: lim_step.induct)
  case (refill s)
  then show ?case by (auto simp: solo_def)
next
  case (call s u)
  then show ?case by (auto simp: solo_def split: if_splits)
next
  case (start_cancelled s u e)
  show ?case
    by (rule solo_goto [OF start_cancelled.prems(1) start_cancelled.hyps(1), where us' = "[]"])
      (auto simp: option.map_id option.map_comp comp_def intro: exI [of _ "Refused e"])
next
  case (start_token s u)
  show ?case
    by (rule solo_goto [OF start_token.prems(1) start_token.hyps(1), where us' = "[]"])
      (auto simp: option.map_id option.map_comp comp_def intro: exI [of _ Immediate])
next
  case (start_default s u)
  show ?case
    by (rule solo_goto [OF start_default.prems(1) start_default.hyps(1), where us' = "[]"])
      (auto simp: option.map_id option.map_comp comp_def)
next
  case (queue_slot s u)
  show ?case
    by (rule solo_goto [OF queue_slot.prems(1) queue_slot.hyps(1), where us' = "[]"])
      (auto simp: option.map_id option.map_comp comp_def)
next
  case (queue_full s u)
  show ?case
    by (rule solo_goto [OF queue_full.prems(1) queue_full.hyps(1), where us' = "[QueueDropped, RateLimited]"])
      (auto simp: option.map_id option.map_comp comp_def intro: exI [of _ QueueFull])
next
  case (depth_up s u)
  show ?case
    by (rule solo_goto [OF depth_up.prems(1) depth_up.hyps(1), where us' = "[]"])
      (auto simp: option.map_id option.map_comp comp_def)
next
  case (publish_up s u n)
  show ?case
    by (rule solo_goto [OF publish_up.prems(1) publish_up.hyps(1), where us' = "[QueueDepth (word_of_int n)]"])
      (auto simp: option.map_id option.map_comp comp_def)
next
  case (wait_cancelled s u e)
  show ?case
    by (rule solo_goto [OF wait_cancelled.prems(1) wait_cancelled.hyps(1), where us' = "[]"])
      (auto simp: option.map_id option.map_comp comp_def intro!: exI [of _ "WaitCancelled e"])
next
  case (wait_timeout s u)
  show ?case
    by (rule solo_goto [OF wait_timeout.prems(1) wait_timeout.hyps(1), where us' = "[QueueDropped, RateLimited]"])
      (auto simp: option.map_id option.map_comp comp_def intro!: exI [of _ WaitTimedOut])
next
  case (wait_token s u)
  show ?case
    by (rule solo_goto [OF wait_token.prems(1) wait_token.hyps(1), where us' = "[RateLimited]"])
      (auto simp: option.map_id option.map_comp comp_def intro!: exI [of _ GotToken])
next
  case (free_slot s u r)
  show ?case
    by (rule solo_goto [OF free_slot.prems(1) free_slot.hyps(1), where us' = "[]"])
      (auto simp: option.map_id option.map_comp comp_def)
next
  case (depth_down s u r)
  show ?case
    by (rule solo_goto [OF depth_down.prems(1) depth_down.hyps(1), where us' = "[]"])
      (auto simp: option.map_id option.map_comp comp_def)
next
  case (publish_down s u n r)
  have "\<exists>p. r = acquire_result c p \<and> us @ [QueueDepth (word_of_int n)] = acquire_updates p"
    if "recorded_so_far c (PublishDown n r) us" for us
    using that by (auto intro: exI [of _ "Queued k e n" for k e])
  then show ?case
    by (intro solo_goto [OF publish_down.prems(1) publish_down.hyps(1), where us' = "[QueueDepth (word_of_int n)]"]) auto
qed

text \<open>A call that is alone returns and records what one of the paths says.\<close>

lemma solo_acquire:
  assumes "lim_run c s ls s'" "phases s = [t \<mapsto> Start]" "dom (phases s') \<subseteq> {t}" "phases s' t = Some (Finished r)"
  shows "\<exists>p. r = acquire_result c p \<and> lim_metrics s' = map_option (fold apply_update (acquire_updates p)) (lim_metrics s)"
proof -
  have "solo c t (lim_metrics s) s'"
    using assms(1-3)
  proof (induction rule: lim_run.induct)
    case (run_nil s)
    have "recorded_so_far c Start [] \<and> lim_metrics s = map_option (fold apply_update []) (lim_metrics s)"
      by (simp add: option.map_id)
    then show ?case using run_nil unfolding solo_def by blast
  next
    case (run_step s ls s' l s'')
    have "dom (phases s') \<subseteq> dom (phases s'')" using run_step.hyps(2) by (induction rule: lim_step.induct) auto
    then have "dom (phases s') \<subseteq> {t}" using run_step.prems(2) by (rule subset_trans)
    then have "solo c t (lim_metrics s) s'" using run_step.IH run_step.prems(1) by simp
    then show ?case by (rule solo_step [OF run_step.hyps(2) _ run_step.prems(2)])
  qed
  then show ?thesis using assms(4) by (auto simp: solo_def)
qed

end
