(* ===== verification/Max_Sender.thy ===== *)
theory Max_Sender
  imports System Limited_Sender
begin

text \<open>
  The senders of \<open>internal/max\<close>: \<open>sender.go\<close> (the interface and the stub), \<open>bot_sender.go\<close> (the
  MAX bot API), and the two sending methods of \<open>limited_sender.go\<close>, which wait for the token bucket
  and pass the call on; the bucket itself is the theory \<open>Limited_Sender\<close>. Which of its paths a
  call of \<open>acquire\<close> takes depends on the other callers, so here that is an argument; what the call
  then returns and records in the metrics is not.

  Of the vendored API client the message builder, the recipient check of \<open>Messages.Send\<close> and the
  classification of errors are modelled; the HTTP requests below them are the fields of
  \<open>max_api\<close>.
\<close>

section \<open>The API client\<close>

record max_message =
  msg_userID :: int
  msg_chatID :: int
  msg_Text :: string
  msg_Attachments :: "(string \<times> string) list"
  msg_Notify :: bool

definition NewMessage :: max_message where
  "NewMessage = \<lparr>msg_userID = 0, msg_chatID = 0, msg_Text = [], msg_Attachments = [], msg_Notify = True\<rparr>"

definition SetChat :: "int \<Rightarrow> max_message \<Rightarrow> max_message" where
  "SetChat chatID m = m\<lparr>msg_chatID := chatID\<rparr>"

definition SetText :: "string \<Rightarrow> max_message \<Rightarrow> max_message" where
  "SetText t m = m\<lparr>msg_Text := t\<rparr>"

definition SetNotify :: "bool \<Rightarrow> max_message \<Rightarrow> max_message" where
  "SetNotify notify m = m\<lparr>msg_Notify := notify\<rparr>"

text \<open>\<open>AddFile\<close> of an upload, of which the code keeps the token.\<close>

definition AddFile :: "string \<Rightarrow> max_message \<Rightarrow> max_message" where
  "AddFile token m = m\<lparr>msg_Attachments := msg_Attachments m @ [(''file'', token)]\<rparr>"

lemmas message_defs = NewMessage_def SetChat_def SetText_def SetNotify_def AddFile_def

text \<open>\<open>api_post\<close> is \<open>POST /messages\<close>, \<open>api_upload\<close> the upload of a file under a name.\<close>

record 'w max_api =
  api_post :: "context_values \<Rightarrow> max_message \<Rightarrow> 'w \<Rightarrow> error option \<times> 'w"
  api_upload :: "context_values \<Rightarrow> string \<Rightarrow> string \<Rightarrow> 'w \<Rightarrow> string result \<times> 'w"
  api_wait :: "context_values \<Rightarrow> duration \<Rightarrow> 'w \<Rightarrow> error option \<times> 'w"

definition messages_Send :: "'w max_api \<Rightarrow> context_values \<Rightarrow> max_message \<Rightarrow> 'w \<Rightarrow> error option \<times> 'w" where
  "messages_Send api ctx msg w =
     (if msg_chatID msg = 0 \<and> msg_userID msg = 0
        then (Some (ErrorString ''chat or user recipient is required''), w)
      else api_post api ctx msg w)"

definition IsAttachmentNotReady :: "golib \<Rightarrow> api_error \<Rightarrow> bool" where
  "IsAttachmentNotReady L e \<longleftrightarrow>
     (let t = ToLower L (ae_Code e @ '' '' @ ae_Message e @ '' '' @ ae_Details e) in
      Contains t ''attachment.not.ready'' \<or> Contains t ''not.ready'' \<or> Contains t ''not.processed'')"

text \<open>An error that says the file is still being processed, wherever it is wrapped.\<close>

definition not_ready :: "golib \<Rightarrow> error \<Rightarrow> bool" where
  "not_ready L err \<longleftrightarrow>
     (case As_APIError err of None \<Rightarrow> False | Some apiErr \<Rightarrow> IsAttachmentNotReady L apiErr)"

section \<open>The interface\<close>

text \<open>
  The answer of a sender, \<open>'r\<close>, is an error or none, and for the rate-limited one also what it
  records in the metrics.
\<close>

record ('r, 'w) sender =
  SendText :: "context_values \<Rightarrow> string \<Rightarrow> string \<Rightarrow> bool \<Rightarrow> 'w \<Rightarrow> 'r \<times> 'w"
  SendFile :: "context_values \<Rightarrow> string \<Rightarrow> Attachment \<Rightarrow> bool \<Rightarrow> 'w \<Rightarrow> 'r \<times> 'w"

type_synonym 'w plain_sender = "(error option, 'w) sender"
type_synonym 'w metered_sender = "(error option \<times> limiter_update list, 'w) sender"

text \<open>The stub prints a line and never fails.\<close>

definition bool_text :: "bool \<Rightarrow> string" where
  "bool_text b = (if b then ''true'' else ''false'')"

definition StubSender :: "golib \<Rightarrow> (string \<Rightarrow> 'w \<Rightarrow> 'w) \<Rightarrow> 'w plain_sender" where
  "StubSender L print = \<lparr>
     SendText = (\<lambda>_ chatID t silent w.
       (None, print (''[MAX:TEXT] chat='' @ chatID @ '' silent='' @ bool_text silent @ '' text=''
                       @ strconv_Quote L t @ [CHR 0x0A]) w)),
     SendFile = (\<lambda>_ chatID a silent w.
       (None, print (''[MAX:FILE] chat='' @ chatID @ '' silent='' @ bool_text silent @ '' file='' @ Filename a
                       @ '' size='' @ FormatInt (SizeBytes a) @ [CHR 0x0A]) w))\<rparr>"

text \<open>
  The rate-limited sender in front of another one: \<open>acquire\<close> says which path the call takes. And
  a sender without the limiter, which records nothing.
\<close>

definition limited_sender ::
  "limits \<Rightarrow> (context_values \<Rightarrow> 'w \<Rightarrow> acquire_path \<times> 'w) \<Rightarrow> 'w plain_sender \<Rightarrow> 'w metered_sender" where
  "limited_sender lim acquire next = \<lparr>
     SendText = (\<lambda>ctx chatID t silent w.
       (case acquire ctx w of
          (path, w1) \<Rightarrow>
            (case acquire_result lim path of
               Some err \<Rightarrow> ((Some err, acquire_updates path), w1)
             | None \<Rightarrow> (case SendText next ctx chatID t silent w1 of (r, w2) \<Rightarrow> ((r, acquire_updates path), w2))))),
     SendFile = (\<lambda>ctx chatID a silent w.
       (case acquire ctx w of
          (path, w1) \<Rightarrow>
            (case acquire_result lim path of
               Some err \<Rightarrow> ((Some err, acquire_updates path), w1)
             | None \<Rightarrow> (case SendFile next ctx chatID a silent w1 of (r, w2) \<Rightarrow> ((r, acquire_updates path), w2)))))\<rparr>"

definition unlimited_sender :: "'w plain_sender \<Rightarrow> 'w metered_sender" where
  "unlimited_sender next = \<lparr>
     SendText = (\<lambda>ctx chatID t silent w. (case SendText next ctx chatID t silent w of (r, w1) \<Rightarrow> ((r, []), w1))),
     SendFile = (\<lambda>ctx chatID a silent w. (case SendFile next ctx chatID a silent w of (r, w1) \<Rightarrow> ((r, []), w1)))\<rparr>"

section \<open>The bot sender\<close>

definition attachmentReadyMaxAttempts :: nat where
  "attachmentReadyMaxAttempts = 5"

definition attachmentReadyRetryDelay :: duration where
  "attachmentReadyRetryDelay = 300000000"

definition parseChatID :: "golib \<Rightarrow> string \<Rightarrow> int result" where
  "parseChatID L chatID =
     (case strconv_ParseInt (TrimSpace chatID) of
        Inl err \<Rightarrow> Inl (WrapError (''invalid chat_id '' @ strconv_Quote L chatID @ '': '') err [])
      | Inr chatIDInt \<Rightarrow> Inr chatIDInt)"

text \<open>The loop of \<open>sendFileMessage\<close>: \<open>n\<close> is the number of attempts left, this one included.\<close>

fun file_attempts ::
  "golib \<Rightarrow> 'w max_api \<Rightarrow> context_values \<Rightarrow> max_message \<Rightarrow> duration \<Rightarrow> nat \<Rightarrow> 'w \<Rightarrow> error option \<times> 'w" where
  "file_attempts L api ctx msg delay 0 w = (Some (ErrorString ''send file message: exhausted retries''), w)"
| "file_attempts L api ctx msg delay (Suc n) w =
     (case messages_Send api ctx msg w of
        (None, w1) \<Rightarrow> (None, w1)
      | (Some err, w1) \<Rightarrow>
          if \<not> not_ready L err \<or> n = 0 then (Some (WrapError ''send file message: '' err []), w1)
          else
            (case api_wait api ctx delay w1 of
               (Some cerr, w2) \<Rightarrow> (Some (WrapError ''send file message: '' cerr []), w2)
             | (None, w2) \<Rightarrow>
                 file_attempts L api ctx msg (if delay < 2000000000 then delay * 2 else delay) n w2))"

definition sendFileMessage ::
  "golib \<Rightarrow> 'w max_api \<Rightarrow> context_values \<Rightarrow> max_message \<Rightarrow> 'w \<Rightarrow> error option \<times> 'w" where
  "sendFileMessage L api ctx msg w =
     file_attempts L api ctx msg attachmentReadyRetryDelay attachmentReadyMaxAttempts w"

definition bot_SendText ::
  "golib \<Rightarrow> 'w max_api \<Rightarrow> context_values \<Rightarrow> string \<Rightarrow> string \<Rightarrow> bool \<Rightarrow> 'w \<Rightarrow> error option \<times> 'w" where
  "bot_SendText L api ctx chatID t silent w =
     (case parseChatID L chatID of
        Inl err \<Rightarrow> (Some err, w)
      | Inr chatIDInt \<Rightarrow>
          (case messages_Send api ctx (SetNotify (\<not> silent) (SetText t (SetChat chatIDInt NewMessage))) w of
             (Some err, w1) \<Rightarrow> (Some (WrapError ''send text message: '' err []), w1)
           | (None, w1) \<Rightarrow> (None, w1)))"

definition bot_SendFile ::
  "golib \<Rightarrow> 'w max_api \<Rightarrow> context_values \<Rightarrow> string \<Rightarrow> Attachment \<Rightarrow> bool \<Rightarrow> 'w \<Rightarrow> error option \<times> 'w" where
  "bot_SendFile L api ctx chatID a silent w =
     (case parseChatID L chatID of
        Inl err \<Rightarrow> (Some err, w)
      | Inr chatIDInt \<Rightarrow>
          (let fileName0 = TrimSpace (Filename a);
               fileName = (if fileName0 = [] then ''attachment.bin'' else fileName0) in
           case api_upload api ctx (Data a) fileName w of
             (Inl err, w1) \<Rightarrow>
               (Some (WrapError (''upload attachment '' @ strconv_Quote L fileName @ '': '') err []), w1)
           | (Inr uploaded, w1) \<Rightarrow>
               sendFileMessage L api ctx
                 (AddFile uploaded (SetNotify (\<not> silent) (SetChat chatIDInt NewMessage))) w1))"

definition BotSender :: "golib \<Rightarrow> 'w max_api \<Rightarrow> 'w plain_sender" where
  "BotSender L api = \<lparr>SendText = bot_SendText L api, SendFile = bot_SendFile L api\<rparr>"

text \<open>
  The client that \<open>NewBotSender\<close> builds: the timeout of a request leaves the send timeout five
  seconds; a base URL that cannot be parsed is ignored.
\<close>

record bot_client =
  c_timeout :: duration
  c_pollTimeout :: duration
  c_baseURL :: "string option"
  c_token :: string

definition NewBotSender ::
  "(string \<Rightarrow> bool) \<Rightarrow> string \<Rightarrow> string \<Rightarrow> duration \<Rightarrow> bot_client result" where
  "NewBotSender url_ok baseURL token sendTimeout =
     (let t = wrap64 (sendTimeout + 5 * 1000000000);
          clientTimeout = (if sendTimeout > 0 \<and> t > 35 * 1000000000 then t else 35 * 1000000000) in
      if TrimSpace token = []
        then Inl (WrapError ''create bot api client: '' (ErrorString ''bot token is empty'') [])
      else Inr \<lparr>c_timeout = clientTimeout, c_pollTimeout = 30 * 1000000000,
                c_baseURL = (if TrimSpace baseURL \<noteq> [] \<and> url_ok baseURL then Some baseURL else None),
                c_token = token\<rparr>)"


section \<open>Watching the requests\<close>

datatype api_event =
    Posted max_message "error option"
  | Uploaded string string "string result"
  | Waited duration "error option"

definition record_event :: "('a \<Rightarrow> api_event) \<Rightarrow> ('w \<Rightarrow> 'a \<times> 'w) \<Rightarrow> 'w \<times> api_event list \<Rightarrow> 'a \<times> 'w \<times> api_event list" where
  "record_event ev f w = (case f (fst w) of (r, w') \<Rightarrow> (r, w', snd w @ [ev r]))"

text \<open>The same API with a record of its requests and the waits between them.\<close>

definition logged_api :: "'w max_api \<Rightarrow> ('w \<times> api_event list) max_api" where
  "logged_api api = \<lparr>
     api_post = (\<lambda>ctx m. record_event (Posted m) (api_post api ctx m)),
     api_upload = (\<lambda>ctx d name. record_event (Uploaded d name) (api_upload api ctx d name)),
     api_wait = (\<lambda>ctx d. record_event (Waited d) (api_wait api ctx d))\<rparr>"











text \<open>An API whose files never get ready.\<close>

definition busy_api :: "unit max_api" where
  "busy_api = \<lparr>api_post = (\<lambda>_ _ w. (Some (APIError \<lparr>ae_Code = ''attachment.not.ready'', ae_Message = [],
       ae_Details = [], ae_StatusCode = 400\<rparr>), w)),
     api_upload = (\<lambda>_ _ _ w. (Inr ''token'', w)), api_wait = (\<lambda>_ _ w. (None, w))\<rparr>"



section \<open>Chat identifiers\<close>

text \<open>The number a string of digits stands for, and the number of a chat identifier.\<close>

fun digits_value :: "int \<Rightarrow> string \<Rightarrow> int" where
  "digits_value acc [] = acc"
| "digits_value acc (c # s) = digits_value (acc * 10 + (byte c - 48)) s"

definition chat_number :: "string \<Rightarrow> int" where
  "chat_number s = (if HasPrefix s ''-'' then - digits_value 0 (drop 1 s) else digits_value 0 s)"

lemma digits_value_ge:
  "list_all is_digit s \<Longrightarrow> 0 \<le> acc \<Longrightarrow> acc \<le> digits_value acc s"
proof (induction acc s rule: digits_value.induct)
  case (2 acc c s)
  then have "acc * 10 + (byte c - 48) \<le> digits_value (acc * 10 + (byte c - 48)) s"
    by (simp add: is_digit_def)
  then show ?case using 2 by (simp add: is_digit_def)
qed simp

lemma parse_uint_digits:
  "list_all is_digit s \<Longrightarrow> 0 \<le> acc \<Longrightarrow> acc < 2 ^ 64 \<Longrightarrow>
     parse_uint acc s = (if digits_value acc s < 2 ^ 64 then Inr (digits_value acc s) else Inl ErrRange)"
proof (induction acc s rule: parse_uint.induct)
  case (2 acc c s)
  let ?n = "acc * 10 + (byte c - 48)"
  from 2 have n: "0 \<le> ?n" and "list_all is_digit s" using is_digit_def [of c] by simp_all
  then have "?n \<le> digits_value ?n s" by (simp add: digits_value_ge)
  then show ?case using 2 n \<open>list_all is_digit s\<close> by (auto simp: Let_def)
qed simp

lemma ParseInt_digits:
  assumes "list_all is_digit s" and "s \<noteq> []"
  shows "ParseInt fn s = (if digits_value 0 s < 2 ^ 63 then Inr (digits_value 0 s) else Inl (NumError fn s ErrRange))"
    and "ParseInt fn (CHR ''-'' # s) =
      (if digits_value 0 s \<le> 2 ^ 63 then Inr (- digits_value 0 s) else Inl (NumError fn (CHR ''-'' # s) ErrRange))"
proof -
  obtain c t where s: "s = c # t" using assms(2) by (cases s) auto
  then have "c \<noteq> CHR ''+'' \<and> c \<noteq> CHR ''-''" using assms(1) by (auto simp: is_digit_def)
  then show "ParseInt fn s = (if digits_value 0 s < 2 ^ 63 then Inr (digits_value 0 s) else Inl (NumError fn s ErrRange))"
    using parse_uint_digits [OF assms(1), of 0] s by (auto simp: ParseInt_def Let_def)
  show "ParseInt fn (CHR ''-'' # s) =
      (if digits_value 0 s \<le> 2 ^ 63 then Inr (- digits_value 0 s) else Inl (NumError fn (CHR ''-'' # s) ErrRange))"
    using parse_uint_digits [OF assms(1), of 0] assms(2) by (auto simp: ParseInt_def Let_def)
qed

lemma canonical_cases:
  assumes "canonical_chat_id cid"
  obtains (positive) "list_all is_digit cid" "cid \<noteq> []" "\<not> HasPrefix cid ''-''"
    | (negative) d where "cid = CHR ''-'' # d" "list_all is_digit d" "d \<noteq> []"
proof (cases "HasPrefix cid ''-''")
  case True
  then obtain d where "cid = CHR ''-'' # d" by (auto simp: HasPrefix_iff)
  then show ?thesis using assms negative by (auto simp: canonical_chat_id_def TrimPrefix_def HasPrefix_def)
next
  case False
  then show ?thesis using assms positive by (auto simp: canonical_chat_id_def TrimPrefix_def Let_def)
qed

lemma canonical_graphic: "canonical_chat_id cid \<Longrightarrow> list_all graphic cid \<and> cid \<noteq> []"
  by (erule canonical_cases) (auto simp: list_all_iff digit_graphic, simp_all add: graphic_def)

lemma TrimSpace_canonical:
  assumes "canonical_chat_id cid"
  shows "TrimSpace cid = cid"
proof (rule TrimSpace_graphic)
  have "graphic (hd cid) \<and> graphic (last cid)"
    using canonical_graphic [OF assms] by (simp add: list_all_iff)
  then show "cid = [] \<or> graphic (hd cid) \<and> graphic (last cid)" ..
qed

lemma digits_value_nonneg: "list_all is_digit s \<Longrightarrow> 0 \<le> digits_value 0 s"
  using digits_value_ge [of s 0] by simp

lemma parseChatID_canonical:
  assumes "canonical_chat_id cid"
  shows "parseChatID L cid =
    (if in_int64 (chat_number cid) then Inr (chat_number cid)
     else Inl (WrapError (''invalid chat_id '' @ strconv_Quote L cid @ '': '') (NumError ''ParseInt'' cid ErrRange) []))"
  using assms
proof (cases rule: canonical_cases)
  case positive
  then have "chat_number cid = digits_value 0 cid" by (simp add: chat_number_def)
  then show ?thesis
    using positive digits_value_nonneg [of cid]
    by (simp add: parseChatID_def TrimSpace_canonical assms ParseInt_digits in_int64_def)
next
  case (negative d)
  then have "chat_number cid = - digits_value 0 d" by (simp add: chat_number_def HasPrefix_def)
  then show ?thesis
    using negative digits_value_nonneg [of d] assms TrimSpace_canonical [of cid]
    by (simp add: parseChatID_def ParseInt_digits in_int64_def)
qed


lemma Parse_canonical: "Parse L p address = Inr pr \<Longrightarrow> t \<in> set (Targets pr) \<Longrightarrow> canonical_chat_id (ChatID t)"
  using ChatID_target_of by (auto simp: Parse_Inr_iff)

text \<open>
  C12: The text for a target of an accepted address is posted, once, to the chat whose number is
  the target's identifier, unchanged, and silently exactly for a silent target; the call
  succeeds exactly if the request did. Nothing is sent, and the call fails, only for the number
  0 and for numbers beyond 64 bits, which the address syntax allows.
\<close>

theorem text_reaches_parsed_chat:
  assumes "Parse L p address = Inr pr" and "t \<in> set (Targets pr)"
    and "SendText (BotSender L (logged_api api)) ctx (ChatID t) msg (Silent t) (w, []) = (r, w', evs)"
  shows "if in_int64 (chat_number (ChatID t)) \<and> chat_number (ChatID t) \<noteq> 0
    then (\<exists>a. evs = [Posted \<lparr>msg_userID = 0, msg_chatID = chat_number (ChatID t), msg_Text = msg,
                             msg_Attachments = [], msg_Notify = (\<not> Silent t)\<rparr> a]
              \<and> (r = None \<longleftrightarrow> a = None))
    else evs = [] \<and> r \<noteq> None"
proof -
  have "canonical_chat_id (ChatID t)" using Parse_canonical assms(1,2) by blast
  from assms(3) show ?thesis
    unfolding BotSender_def
    by (auto simp: bot_SendText_def parseChatID_canonical [OF \<open>canonical_chat_id (ChatID t)\<close>] messages_Send_def
        logged_api_def record_event_def message_defs split: prod.splits option.splits if_splits)
qed

theorem text_reaches_parsed_chat_witness:
  "\<exists>a. snd (snd (SendText (BotSender ascii_golib (logged_api busy_api)) Background ''-42'' ''hi'' True ((), []))) =
     [Posted \<lparr>msg_userID = 0, msg_chatID = - 42, msg_Text = ''hi'', msg_Attachments = [], msg_Notify = False\<rparr> a]"
proof -
  let ?t = "\<lparr>ChatID = ''-42'', Silent = True, Local = ''chatid-42.silent''\<rparr>"
  let ?run = "SendText (BotSender ascii_golib (logged_api busy_api)) Background ''-42'' ''hi'' True ((), [])"
  have parse: "Parse ascii_golib (NewParser ascii_golib ''d'' Map.empty) ''chatid-42.silent@d'' =
      Inr \<lparr>Targets = [?t], RawLocal = ''chatid-42.silent'', RawAddr = ''chatid-42.silent@d'',
           SourceLocal = ''chatid-42.silent'', AliasUsed = False\<rparr>"
    by code_simp
  have "chat_number ''-42'' = - 42" by code_simp
  moreover have "SendText (BotSender ascii_golib (logged_api busy_api)) Background (ChatID ?t) ''hi'' (Silent ?t) ((), [])
      = (fst ?run, fst (snd ?run), snd (snd ?run))"
    by (simp only: prod.collapse RecipientTarget.simps)
  note text_reaches_parsed_chat [OF parse _ this]
  ultimately show ?thesis by (simp add: in_int64_def split: if_splits) blast
qed

end
