(* ===== verification/Text_Split.thy ===== *)
theory Text_Split
  imports Go_Conv
begin

text \<open>
  The text helpers of \<open>internal/relay/service.go\<close>: the plain text made of an HTML body, and the
  splitting of long messages into chunks of at most 4000 bytes, at white space where there is
  some in the second half of the chunk and at the start of a rune otherwise.
\<close>

definition maxTextMessageBytes :: int where
  "maxTextMessageBytes = 4000"

definition fallback :: "string \<Rightarrow> string \<Rightarrow> string" where
  "fallback v d = (if TrimSpace v = [] then d else v)"

definition html_breaks :: "(string \<times> string) list" where
  "html_breaks = [(''<br>'', [CHR 0x0A]), (''<br/>'', [CHR 0x0A]), (''<p>'', [CHR 0x0A]), (''</p>'', [CHR 0x0A])]"

definition stripHTMLBasic :: "string \<Rightarrow> string" where
  "stripHTMLBasic s = TrimSpace (remove_byte (remove_byte (Replace html_breaks s) CHR ''<'') CHR ''>'')"

section \<open>Splitting\<close>

text \<open>The loop that moves the cut back to the start of a rune.\<close>

fun back_up :: "string \<Rightarrow> nat \<Rightarrow> nat" where
  "back_up text 0 = 0"
| "back_up text (Suc n) =
     (if Suc n < length text \<and> \<not> RuneStart (text ! Suc n) then back_up text n else Suc n)"

definition blanks :: string where
  "blanks = [CHR 0x0A, CHR 0x0D, CHR 0x09, CHR 0x20]"

definition bestTextSplit :: "string \<Rightarrow> int \<Rightarrow> nat" where
  "bestTextSplit text maxBytes =
     (if int (length text) \<le> maxBytes then length text
      else
        let cut0 = back_up text (nat maxBytes);
            cut = (if cut0 = 0 then nat maxBytes else cut0);
            idx = (case LastIndexAny (take cut text) blanks of Some i \<Rightarrow> int i | None \<Rightarrow> -1)
        in if idx \<ge> maxBytes div 2 then nat (idx + 1) else cut)"

lemma back_up_le: "back_up text n \<le> n"
  by (induction n) auto

lemma bestTextSplit_bounds:
  assumes "0 < maxBytes" "maxBytes < int (length text)"
  shows "0 < bestTextSplit text maxBytes" "int (bestTextSplit text maxBytes) \<le> maxBytes"
proof -
  define cut where "cut = (if back_up text (nat maxBytes) = 0 then nat maxBytes else back_up text (nat maxBytes))"
  have cut: "0 < cut" "int cut \<le> maxBytes"
    using assms back_up_le [of "text" "nat maxBytes"] by (auto simp: cut_def)
  have "i < cut" if "LastIndexAny (take cut text) blanks = Some i" for i
    using LastIndexAny_Some [OF that] by simp
  then show "0 < bestTextSplit text maxBytes" "int (bestTextSplit text maxBytes) \<le> maxBytes"
    using assms cut by (auto simp: bestTextSplit_def Let_def simp flip: cut_def split: option.splits)
qed

text \<open>The loop of \<open>splitTextMessage\<close>, which runs it for a positive limit only.\<close>

function split_loop :: "int \<Rightarrow> string \<Rightarrow> string list" where
  "split_loop maxBytes text =
     (if 0 < maxBytes \<and> int (length text) > maxBytes then
        (let cut = bestTextSplit text maxBytes in take cut text # split_loop maxBytes (drop cut text))
      else if text \<noteq> [] then [text] else [])"
  by pat_completeness auto
termination
proof (relation "measure (\<lambda>(m, t). length t)", goal_cases)
  case (2 m t cut)
  then show ?case using bestTextSplit_bounds [of m t] by auto
qed simp

declare split_loop.simps [simp del]

definition splitTextMessage :: "string \<Rightarrow> int \<Rightarrow> string list" where
  "splitTextMessage text maxBytes =
     (if maxBytes \<le> 0 \<or> int (length text) \<le> maxBytes then [text] else split_loop maxBytes text)"

lemma split_loop_spec:
  "0 < maxBytes \<Longrightarrow> concat (split_loop maxBytes text) = text
     \<and> (\<forall>p \<in> set (split_loop maxBytes text). p \<noteq> [] \<and> int (length p) \<le> maxBytes)"
proof (induction maxBytes "text" rule: split_loop.induct)
  case (1 maxBytes t)
  show ?case
  proof (cases "int (length t) > maxBytes")
    case True
    let ?c = "bestTextSplit t maxBytes"
    have "split_loop maxBytes t = take ?c t # split_loop maxBytes (drop ?c t)"
      using 1(2) True by (subst split_loop.simps) (simp add: Let_def)
    moreover have "int (length (take ?c t)) \<le> maxBytes" "take ?c t \<noteq> []"
      using bestTextSplit_bounds [OF 1(2) True] True 1(2) by auto
    moreover have "concat (split_loop maxBytes (drop ?c t)) = drop ?c t
      \<and> (\<forall>p \<in> set (split_loop maxBytes (drop ?c t)). p \<noteq> [] \<and> int (length p) \<le> maxBytes)"
      using 1(1) [of ?c] 1(2) True by simp
    ultimately show ?thesis by simp
  next
    case False
    then show ?thesis by (subst split_loop.simps, subst (2) split_loop.simps) simp
  qed
qed

lemma split_nonempty: "splitTextMessage text maxBytes \<noteq> []"
  unfolding splitTextMessage_def by (subst split_loop.simps) (simp add: Let_def)

text \<open>
  C19: Splitting a text loses, adds and reorders nothing, and no chunk is longer than the limit;
  chunks are never empty but for the one chunk of an empty text.
\<close>

theorem split_preserves:
  assumes "0 < maxBytes"
  shows "concat (splitTextMessage text maxBytes) = text
    \<and> (\<forall>p \<in> set (splitTextMessage text maxBytes). int (length p) \<le> maxBytes \<and> (text \<noteq> [] \<longrightarrow> p \<noteq> []))"
  using split_loop_spec [OF assms, of "text"] assms by (auto simp: splitTextMessage_def)

theorem split_preserves_witness: "concat (splitTextMessage ''hello world'' 8) = ''hello world''"
  using split_preserves [of 8 "''hello world''"] by simp

text \<open>Cutting between runes.\<close>

lemma RuneStart_boundary: "k < length s \<Longrightarrow> RuneStart (s ! k) \<longleftrightarrow> rune_boundary s k"
  by (simp add: RuneStart_def rune_boundary_def byte_at_def)

lemma back_up_boundary:
  "n < length text \<Longrightarrow> back_up text n \<noteq> 0 \<Longrightarrow> rune_boundary text (back_up text n)"
  by (induction n) (auto simp: RuneStart_boundary split: if_splits)

lemma back_up_zero: "n < length text \<Longrightarrow> back_up text n = 0 \<Longrightarrow> 0 < k \<Longrightarrow> k \<le> n \<Longrightarrow> \<not> rune_boundary text k"
proof (induction n)
  case (Suc n)
  then show ?case by (cases "k = Suc n") (auto simp: RuneStart_boundary split: if_splits)
qed simp

lemma ascii_not_cont: "c \<in> set blanks \<Longrightarrow> \<not> cont (byte c) \<and> byte c < 128"
  by (auto simp: blanks_def cont_def)
lemma boundary_after_ascii:
  assumes "valid_utf8 s" "i < length s" "byte (s ! i) < 128"
  shows "rune_boundary s (Suc i)"
proof -
  have "rune_boundary s i" using assms by (auto simp: rune_boundary_def byte_at_def cont_def)
  then have "valid_utf8 (drop i s)" using valid_utf8_cut [OF assms(1)] by blast
  then have "valid_utf8 (drop (Suc i) s)"
    using assms(2,3) by (simp flip: Cons_nth_drop_Suc)
  then have "rune_boundary (drop (Suc i) s) 0" by (rule valid_utf8_first)
  then show ?thesis by (simp add: rune_boundary_def byte_at_drop)
qed

lemma bestTextSplit_boundary:
  assumes "valid_utf8 s" "4 \<le> maxBytes" "maxBytes < int (length s)"
  shows "rune_boundary s (bestTextSplit s maxBytes)"
proof -
  let ?n = "nat maxBytes"
  have n: "?n < length s" "4 \<le> ?n" using assms by auto
  obtain j where j: "j \<le> ?n" "?n < j + 4" "rune_boundary s j"
    using valid_utf8_boundary_near [OF assms(1), of ?n] n by auto
  have nz: "back_up s ?n \<noteq> 0"
    using back_up_zero [OF n(1), of j] j n by auto
  let ?cut = "back_up s ?n"
  have cut: "rune_boundary s ?cut" "?cut \<le> ?n"
    using back_up_boundary [OF n(1) nz] back_up_le by auto
  have "rune_boundary s (Suc i)" if "LastIndexAny (take ?cut s) blanks = Some i" for i
  proof (rule boundary_after_ascii [OF assms(1)])
    show "i < length s" using LastIndexAny_Some [OF that] by simp
    show "byte (s ! i) < 128" using LastIndexAny_Some [OF that] ascii_not_cont by fastforce
  qed
  moreover have "nat (1 + int i) = Suc i" for i by simp
  ultimately show ?thesis
    using assms cut nz by (auto simp: bestTextSplit_def Let_def add.commute split: option.splits)
qed

lemma split_loop_utf8:
  "4 \<le> maxBytes \<Longrightarrow> valid_utf8 s \<Longrightarrow> p \<in> set (split_loop maxBytes s) \<Longrightarrow> valid_utf8 p"
proof (induction maxBytes s rule: split_loop.induct)
  case (1 maxBytes s)
  show ?case
  proof (cases "int (length s) > maxBytes")
    case True
    let ?c = "bestTextSplit s maxBytes"
    have "valid_utf8 (take ?c s)" "valid_utf8 (drop ?c s)"
      using valid_utf8_cut [OF 1(3) bestTextSplit_boundary [OF 1(3,2) True]] by auto
    moreover have "split_loop maxBytes s = take ?c s # split_loop maxBytes (drop ?c s)"
      using 1(2) True by (subst split_loop.simps) (simp add: Let_def)
    ultimately show ?thesis using 1(1) [of ?c] 1(2,4) True by auto
  next
    case False
    then show ?thesis using 1(3,4) by (subst (asm) split_loop.simps) (auto split: if_splits)
  qed
qed

text \<open>
  C20: Splitting a text in valid UTF-8 never cuts a character in two: every chunk is valid UTF-8
  again, for any limit of at least four bytes.
\<close>

theorem split_keeps_utf8:
  assumes "valid_utf8 s" and "4 \<le> maxBytes" and "p \<in> set (splitTextMessage s maxBytes)"
  shows "valid_utf8 p"
  using assms split_loop_utf8 by (auto simp: splitTextMessage_def split: if_splits)

theorem split_keeps_utf8_witness:
  "list_all valid_utf8 (splitTextMessage [CHR ''a'', CHR ''b'', CHR ''c'', CHR 0xD0, CHR 0xB6, CHR 0xD0, CHR 0xB6] 4)"
proof -
  have "valid_utf8 [CHR ''a'', CHR ''b'', CHR ''c'', CHR 0xD0, CHR 0xB6, CHR 0xD0, CHR 0xB6]"
    by (simp add: valid_utf8.simps DecodeRune_def byte_at_def cont_def RuneError_def)
  then show ?thesis unfolding list_all_iff using split_keeps_utf8 [where maxBytes = 4] by fastforce
qed

end
