(* ===== verification/Relay.thy ===== *)
theory Relay
  imports System Text_Split "HOL-Library.Sublist"
begin

text \<open>
  \<open>internal/relay/service.go\<close>: one message to one recipient address. It is parsed, sent as text
  chunks and files to every target of the address with a bounded number of attempts each, and
  put in the dead-letter queue when a send fails. Every call that changes state is here, the
  metrics included; log lines are not.
\<close>

section \<open>The service\<close>

record 'w service =
  s_lib :: golib
  s_mime :: mime_lib
  s_codec :: codec
  s_ext :: "'w external"
  s_Email :: email_parser
  MaxSendRetries :: int
  RetryBaseDelay :: duration

text \<open>\<open>sendWithRetry\<close>: \<open>n\<close> is the number of retries left.\<close>

fun attempt_loop ::
  "'w external \<Rightarrow> context_values \<Rightarrow> duration \<Rightarrow> 'w send \<Rightarrow> nat \<Rightarrow> 'w sys
     \<Rightarrow> error option \<times> 'w sys" where
  "attempt_loop X ctx delay fn n s =
     (case in_send fn s of
        (None, s1) \<Rightarrow> (None, s1)
      | (Some err, s1) \<Rightarrow>
          (case n of
             0 \<Rightarrow> (Some err, s1)
           | Suc m \<Rightarrow>
               (case in_world (x_wait X ctx delay) s1 of
                  (Some cerr, s2) \<Rightarrow> (Some cerr, s2)
                | (None, s2) \<Rightarrow> attempt_loop X ctx delay fn m s2)))"

declare attempt_loop.simps [simp del]

definition sendWithRetry ::
  "'w service \<Rightarrow> context_values \<Rightarrow> 'w send \<Rightarrow> 'w sys \<Rightarrow> error option \<times> 'w sys" where
  "sendWithRetry S ctx fn s =
     (let maxRetries = (if MaxSendRetries S < 0 then 0 else MaxSendRetries S);
          delay = (if RetryBaseDelay S \<le> 0 then 300000000 else RetryBaseDelay S)
      in attempt_loop (s_ext S) ctx delay fn (nat maxRetries) s)"

section \<open>Metrics\<close>

text \<open>\<open>s.Metrics.ObserveLatency(stage, time.Since(startedAt))\<close> when there are metrics.\<close>

definition observe_since :: "'w service \<Rightarrow> string \<Rightarrow> time \<Rightarrow> 'w sys \<Rightarrow> 'w sys" where
  "observe_since S stage startedAt s =
     (case sys_metrics s of
        None \<Rightarrow> s
      | Some _ \<Rightarrow>
          (case in_world (x_now (s_ext S)) s of
             (now, s1) \<Rightarrow> with_metrics (ObserveLatency (s_lib S) stage (time_Sub now startedAt)) s1))"

definition observe_delivery ::
  "'w service \<Rightarrow> string \<Rightarrow> bool \<Rightarrow> string \<Rightarrow> string \<Rightarrow> 'w sys \<Rightarrow> 'w sys" where
  "observe_delivery S rcpt delivered chat source s =
     (case sys_metrics s of
        None \<Rightarrow> s
      | Some _ \<Rightarrow>
          (case in_world (x_now (s_ext S)) s of
             (now, s1) \<Rightarrow> with_metrics (ObserveDelivery (s_lib S) now rcpt delivered chat source) s1))"

section \<open>Delivery\<close>

text \<open>What follows a failed send: \<open>pre\<close> is the text before the error in the one returned.\<close>

definition delivery_failed ::
  "'w service \<Rightarrow> context_values \<Rightarrow> string \<Rightarrow> string \<Rightarrow> string \<Rightarrow> string \<Rightarrow> string \<Rightarrow> error \<Rightarrow> 'w sys
     \<Rightarrow> error option \<times> 'w sys" where
  "delivery_failed S ctx rcpt raw source chat pre err s =
     (let s1 = observe_delivery S rcpt False chat source (with_metrics IncFailed s) in
      case sys_dlq s1 of
        None \<Rightarrow> (Some (WrapError pre err []), s1)
      | Some st \<Rightarrow>
          if shouldBypassDLQ ctx then (Some (WrapError pre err []), s1)
          else
            (case with_store (s_ext S) (\<lambda>E. Enqueue (s_lib S) (s_codec S) E rcpt raw (Some err)) st s1 of
               (Inl qerr, s2) \<Rightarrow>
                 (Some (WrapError pre err ('' (dlq enqueue: '' @ Error (s_lib S) qerr @ '')'')), s2)
             | (Inr _, s2) \<Rightarrow> (Some (WrapError pre err []), with_metrics IncDLQEnqueued s2)))"

text \<open>One send with its retries, its latency and, if it fails, what follows.\<close>

definition send_one ::
  "'w service \<Rightarrow> context_values \<Rightarrow> string \<Rightarrow> string \<Rightarrow> string \<Rightarrow> string \<Rightarrow> string
     \<Rightarrow> 'w send \<Rightarrow> 'w sys \<Rightarrow> error option \<times> 'w sys" where
  "send_one S ctx rcpt raw source chat pre fn s =
     (case in_world (x_now (s_ext S)) s of
        (sendStartedAt, s1) \<Rightarrow>
          (case sendWithRetry S ctx fn s1 of
             (r, s2) \<Rightarrow>
               (let s3 = observe_since S ''max_send'' sendStartedAt s2 in
                case r of
                  Some err \<Rightarrow> delivery_failed S ctx rcpt raw source chat pre err s3
                | None \<Rightarrow> (None, s3))))"

fun send_chunks ::
  "'w service \<Rightarrow> context_values \<Rightarrow> string \<Rightarrow> string \<Rightarrow> string \<Rightarrow> RecipientTarget \<Rightarrow> string list \<Rightarrow> 'w sys
     \<Rightarrow> error option \<times> 'w sys" where
  "send_chunks S ctx rcpt raw source target [] s = (None, s)"
| "send_chunks S ctx rcpt raw source target (chunk # chunks) s =
     (case send_one S ctx rcpt raw source (ChatID target) ''send text: ''
             (x_SendText (s_ext S) ctx (ChatID target) chunk (Silent target)) s of
        (Some err, s1) \<Rightarrow> (Some err, s1)
      | (None, s1) \<Rightarrow> send_chunks S ctx rcpt raw source target chunks s1)"

fun send_files ::
  "'w service \<Rightarrow> context_values \<Rightarrow> string \<Rightarrow> string \<Rightarrow> string \<Rightarrow> RecipientTarget \<Rightarrow> Attachment list \<Rightarrow> 'w sys
     \<Rightarrow> error option \<times> 'w sys" where
  "send_files S ctx rcpt raw source target [] s = (None, s)"
| "send_files S ctx rcpt raw source target (att # atts) s =
     (case send_one S ctx rcpt raw source (ChatID target) (''send file '' @ Filename att @ '': '')
             (x_SendFile (s_ext S) ctx (ChatID target) att (Silent target)) s of
        (Some err, s1) \<Rightarrow> (Some err, s1)
      | (None, s1) \<Rightarrow> send_files S ctx rcpt raw source target atts (with_metrics IncFilesSent s1))"

fun relay_targets ::
  "'w service \<Rightarrow> context_values \<Rightarrow> string \<Rightarrow> string \<Rightarrow> string \<Rightarrow> string list \<Rightarrow> Attachment list
     \<Rightarrow> RecipientTarget list \<Rightarrow> 'w sys \<Rightarrow> error option \<times> 'w sys" where
  "relay_targets S ctx rcpt raw source chunks atts [] s = (None, s)"
| "relay_targets S ctx rcpt raw source chunks atts (target # targets) s =
     (case send_chunks S ctx rcpt raw source target chunks s of
        (Some err, s1) \<Rightarrow> (Some err, s1)
      | (None, s1) \<Rightarrow>
          (case send_files S ctx rcpt raw source target atts (with_metrics IncTextSent s1) of
             (Some err, s2) \<Rightarrow> (Some err, s2)
           | (None, s2) \<Rightarrow>
               relay_targets S ctx rcpt raw source chunks atts targets
                 (observe_delivery S rcpt True (ChatID target) source (with_metrics IncRelayed s2))))"

text \<open>The text of a message: the subject, the sender and the body, the HTML one if there is no plain one.\<close>

definition no_subject :: string where
  "no_subject = [CHR 0x28, CHR 0xD0, CHR 0xB1, CHR 0xD0, CHR 0xB5, CHR 0xD0, CHR 0xB7, CHR 0x20,
     CHR 0xD1, CHR 0x82, CHR 0xD0, CHR 0xB5, CHR 0xD0, CHR 0xBC, CHR 0xD1, CHR 0x8B, CHR 0x29]"

definition message_text :: "ParsedEmail \<Rightarrow> string" where
  "message_text em =
     (let body = (if TrimSpace (TextBody em) = [] then stripHTMLBasic (HTMLBody em) else TextBody em) in
      [CHR 0xF0, CHR 0x9F, CHR 0x93, CHR 0xA7, CHR 0x20] @ fallback (Subject em) no_subject
      @ [CHR 0x0A, CHR 0xD0, CHR 0x9E, CHR 0xD1, CHR 0x82, CHR 0x3A, CHR 0x20] @ From em
      @ [CHR 0x0A, CHR 0x0A] @ body)"

text \<open>The body of \<open>Relay\<close>, before the deferred observation of its whole duration.\<close>

definition relay_body ::
  "'w service \<Rightarrow> context_values \<Rightarrow> string \<Rightarrow> string \<Rightarrow> 'w sys \<Rightarrow> error option \<times> 'w sys" where
  "relay_body S ctx rcpt raw s0 =
     (let s = with_metrics IncReceived s0 in
      case Parse (s_lib S) (sys_parser s) rcpt of
        Inl err \<Rightarrow>
          (Some (WrapError ''parse recipient: '' err []),
           observe_delivery S rcpt False [] [] (with_metrics IncFailed s))
      | Inr pr \<Rightarrow>
          (case in_world (x_now (s_ext S)) s of
             (parseStartedAt, s1) \<Rightarrow>
               (let s2 = observe_since S ''email_parse'' parseStartedAt s1 in
                case email_Parse (s_lib S) (s_mime S) (s_Email S) raw of
                  Inl err \<Rightarrow>
                    (Some (WrapError ''parse email: '' err []),
                     observe_delivery S rcpt False
                       (case Targets pr of [] \<Rightarrow> [] | t # _ \<Rightarrow> ChatID t) (SourceLocal pr)
                       (with_metrics IncFailed s2))
                | Inr em \<Rightarrow>
                    relay_targets S ctx rcpt raw (SourceLocal pr)
                      (splitTextMessage (message_text em) maxTextMessageBytes)
                      (Attachments em) (Targets pr) s2)))"

definition Relay ::
  "'w service \<Rightarrow> context_values \<Rightarrow> string \<Rightarrow> string \<Rightarrow> 'w sys \<Rightarrow> error option \<times> 'w sys" where
  "Relay S ctx rcpt raw s =
     (case in_world (x_now (s_ext S)) s of
        (startedAt, s1) \<Rightarrow>
          (case relay_body S ctx rcpt raw s1 of
             (r, s2) \<Rightarrow> (r, observe_since S ''relay_total'' startedAt s2)))"

section \<open>What each step changes\<close>

text \<open>The counters \<open>Relay\<close> keeps, apart from latencies and delivery events.\<close>

definition relay_counts :: "Collector \<Rightarrow> u64 \<times> u64 \<times> u64 \<times> u64 \<times> u64 \<times> u64" where
  "relay_counts c = (received c, relayed c, failed c, textSent c, filesSent c, dlqEnqueued c)"

definition counts :: "'w sys \<Rightarrow> (u64 \<times> u64 \<times> u64 \<times> u64 \<times> u64 \<times> u64) option" where
  "counts s = map_option relay_counts (sys_metrics s)"

lemma relay_counts_observe [simp]:
  "relay_counts (ObserveLatency L st d c) = relay_counts c"
  "relay_counts (ObserveDelivery L now a b m n c) = relay_counts c"
  by (simp_all add: relay_counts_def ObserveLatency_def ObserveDelivery_def Let_def)

lemma observe_since_frame [simp]:
  "sys_parser (observe_since S st t s) = sys_parser s" "sys_dlq (observe_since S st t s) = sys_dlq s"
  "counts (observe_since S st t s) = counts s"
  by (auto simp: observe_since_def counts_def split: option.splits prod.splits dest: in_worldD)

lemma observe_delivery_frame [simp]:
  "sys_parser (observe_delivery S a b m n s) = sys_parser s"
  "sys_dlq (observe_delivery S a b m n s) = sys_dlq s"
  "counts (observe_delivery S a b m n s) = counts s"
  by (auto simp: observe_delivery_def counts_def split: option.splits prod.splits dest: in_worldD)

lemma in_world_counts: "in_world f s = (r, s') \<Longrightarrow> counts s' = counts s"
  by (simp add: counts_def in_worldD)

lemma relay_counts_update [simp]: "relay_counts (fold apply_update us c) = relay_counts c"
  by (induction us arbitrary: c) (simp_all add: relay_counts_def)

lemma in_send_frame:
  "in_send fn s = (r, s') \<Longrightarrow> sys_parser s' = sys_parser s \<and> sys_dlq s' = sys_dlq s \<and> counts s' = counts s"
  by (auto simp: counts_def option.map_comp comp_def dest!: in_sendD)

lemma in_world_frames:
  "in_world f s = (r, s') \<Longrightarrow> sys_parser s' = sys_parser s \<and> sys_dlq s' = sys_dlq s \<and> counts s' = counts s"
  by (simp add: in_world_counts in_worldD)

lemma attempt_loop_0: "attempt_loop X ctx d fn 0 s = in_send fn s"
  by (subst attempt_loop.simps) (simp split: prod.splits option.splits)

lemma attempt_loop_Suc:
  "attempt_loop X ctx d fn (Suc m) s =
     (case in_send fn s of
        (None, s1) \<Rightarrow> (None, s1)
      | (Some err, s1) \<Rightarrow>
          (case in_world (x_wait X ctx d) s1 of
             (Some cerr, s2) \<Rightarrow> (Some cerr, s2)
           | (None, s2) \<Rightarrow> attempt_loop X ctx d fn m s2))"
  by (subst attempt_loop.simps) (auto split: prod.splits option.splits)

lemma attempt_loop_frame:
  "attempt_loop X ctx d fn n s = (r, s') \<Longrightarrow>
     sys_parser s' = sys_parser s \<and> sys_dlq s' = sys_dlq s \<and> counts s' = counts s"
proof (induction n arbitrary: s)
  case 0
  then show ?case by (simp add: attempt_loop_0 in_send_frame)
next
  case (Suc n)
  obtain r1 s1 where 1: "in_send fn s = (r1, s1)" by fastforce
  obtain r2 s2 where 2: "in_world (x_wait X ctx d) s1 = (r2, s2)" by fastforce
  show ?case
  proof (cases "r1 = None \<or> r2 \<noteq> None")
    case True
    then have "s' = s1 \<or> s' = s2"
      using Suc.prems 1 2 by (auto simp: attempt_loop_Suc split: option.splits)
    then show ?thesis using in_send_frame [OF 1] in_world_frames [OF 2] by metis
  next
    case False
    then have "attempt_loop X ctx d fn n s2 = (r, s')"
      using Suc.prems 1 2 by (auto simp: attempt_loop_Suc)
    then show ?thesis using Suc.IH in_send_frame [OF 1] in_world_frames [OF 2] by metis
  qed
qed

lemma sendWithRetry_frame:
  "sendWithRetry S ctx fn s = (r, s') \<Longrightarrow>
     sys_parser s' = sys_parser s \<and> sys_dlq s' = sys_dlq s \<and> counts s' = counts s"
  unfolding sendWithRetry_def Let_def by (drule attempt_loop_frame) simp

section \<open>Attempts\<close>

fun is_send :: "call \<Rightarrow> bool" where
  "is_send (CWait _ _) \<longleftrightarrow> False"
| "is_send _ \<longleftrightarrow> True"

text \<open>The calls of a log that delivered something.\<close>

fun is_delivery :: "call \<Rightarrow> bool" where
  "is_delivery (CText _ _ _ r) \<longleftrightarrow> r = None"
| "is_delivery (CFile _ _ _ r) \<longleftrightarrow> r = None"
| "is_delivery (CWait _ _) \<longleftrightarrow> False"

definition delivered :: "call list \<Rightarrow> call list" where
  "delivered cs = filter is_delivery cs"

lemma delivered_append [simp]: "delivered (a @ b) = delivered a @ delivered b"
  by (simp add: delivered_def)

lemma delivered_Nil [simp]: "delivered [] = []"
  by (simp add: delivered_def)

text \<open>Constructors of sends: what \<open>log_call\<close> records of \<open>SendText\<close> and \<open>SendFile\<close>.\<close>

definition send_record :: "(error option \<Rightarrow> call) \<Rightarrow> bool" where
  "send_record c \<longleftrightarrow> (\<exists>chat t q. c = CText chat t q) \<or> (\<exists>chat a q. c = CFile chat a q)"

lemma send_recordI [simp]: "send_record (CText chat t q)" "send_record (CFile chat a q)"
  unfolding send_record_def by blast+

lemma send_record_calls [simp]:
  "send_record c \<Longrightarrow> is_send (c r)" "send_record c \<Longrightarrow> is_delivery (c r) \<longleftrightarrow> r = None"
  by (auto simp: send_record_def)

lemma attempt_loop_log:
  assumes "send_record c" "attempt_loop (logged X) ctx d (log_send c f) n s = (r, s')"
  shows "\<exists>cs. sys_log s' = sys_log s @ cs \<and> 1 \<le> length (filter is_send cs)
    \<and> length (filter is_send cs) \<le> Suc n
    \<and> (case r of None \<Rightarrow> delivered cs = [c None]
       | Some err \<Rightarrow> delivered cs = [] \<and>
           (last cs = CWait d (Some err) \<or> last cs = c (Some err) \<and> length (filter is_send cs) = Suc n))"
  using assms(2)
proof (induction n arbitrary: s)
  case 0
  obtain r1 s1 where 1: "in_send (log_send c f) s = (r1, s1)" by fastforce
  then have "sys_log s1 = sys_log s @ [c r1]" by (rule in_send_log_send)
  moreover have "r = r1" "s' = s1"
    using "0.prems" 1 by (simp_all add: attempt_loop_0)
  ultimately show ?case using assms(1) by (auto simp: delivered_def split: option.splits)
next
  case (Suc n)
  obtain r1 s1 where 1: "in_send (log_send c f) s = (r1, s1)" by fastforce
  then have l1: "sys_log s1 = sys_log s @ [c r1]" by (rule in_send_log_send)
  show ?case
  proof (cases r1)
    case None
    then have "r = None" "s' = s1" using Suc.prems 1 by (simp_all add: attempt_loop_Suc)
    then show ?thesis using l1 None assms(1) by (auto simp: delivered_def)
  next
    case (Some err)
    obtain r2 s2 where 2: "in_world (x_wait (logged X) ctx d) s1 = (r2, s2)" by fastforce
    then have l2: "sys_log s2 = sys_log s1 @ [CWait d r2]"
      by (auto simp: logged_def dest: in_world_log_call)
    show ?thesis
    proof (cases r2)
      case (Some cerr)
      then have "r = Some cerr" "s' = s2"
        using Suc.prems 1 2 \<open>r1 = Some err\<close> by (simp_all add: attempt_loop_Suc)
      then show ?thesis using l1 l2 Some \<open>r1 = Some err\<close> assms(1) by (auto simp: delivered_def)
    next
      case None
      then have "attempt_loop (logged X) ctx d (log_send c f) n s2 = (r, s')"
        using Suc.prems 1 2 \<open>r1 = Some err\<close> by (simp add: attempt_loop_Suc)
      then obtain cs where cs: "sys_log s' = sys_log s2 @ cs" "1 \<le> length (filter is_send cs)"
        "length (filter is_send cs) \<le> Suc n"
        "case r of None \<Rightarrow> delivered cs = [c None]
         | Some err \<Rightarrow> delivered cs = [] \<and>
           (last cs = CWait d (Some err) \<or> last cs = c (Some err) \<and> length (filter is_send cs) = Suc n)"
        using Suc.IH by blast
      then have "cs \<noteq> []" by auto
      then show ?thesis
        using cs l1 l2 None \<open>r1 = Some err\<close> assms(1)
        by (intro exI [of _ "[c (Some err), CWait d None] @ cs"])
          (auto simp: delivered_def split: option.splits)
    qed
  qed
qed

lemma sendWithRetry_log:
  assumes "s_ext S = logged X" and "send_record c" and "sendWithRetry S ctx (log_send c f) s = (r, s')"
  shows "\<exists>cs. sys_log s' = sys_log s @ cs \<and> 1 \<le> length (filter is_send cs)
    \<and> int (length (filter is_send cs)) \<le> max 0 (MaxSendRetries S) + 1
    \<and> (case r of None \<Rightarrow> delivered cs = [c None]
       | Some err \<Rightarrow> delivered cs = [] \<and>
           ((\<exists>d. last cs = CWait d (Some err)) \<or>
            last cs = c (Some err) \<and> int (length (filter is_send cs)) = max 0 (MaxSendRetries S) + 1))"
proof -
  have n: "nat (if MaxSendRetries S < 0 then 0 else MaxSendRetries S) = nat (max 0 (MaxSendRetries S))"
    by (simp add: max_def)
  obtain d where "attempt_loop (logged X) ctx d (log_send c f) (nat (max 0 (MaxSendRetries S))) s = (r, s')"
    using assms(1,3) by (auto simp: sendWithRetry_def Let_def n)
  from attempt_loop_log [OF assms(2) this] show ?thesis
    by (fastforce split: option.splits)
qed

text \<open>
  C31: Sends are retried a bounded number of times: at least one and at most \<open>MaxSendRetries + 1\<close>
  attempts are made (one, if it is negative); success means exactly one attempt got through, the
  last; failure means none did, and the error is that of the last attempt, all having been
  made, or the one that interrupted a wait.
\<close>

theorem sendWithRetry_attempts:
  assumes "s_ext S = logged X" and "send_record c" and "sendWithRetry S ctx (log_send c f) s = (r, s')"
  shows "\<exists>cs. sys_log s' = sys_log s @ cs \<and> 1 \<le> length (filter is_send cs)
    \<and> int (length (filter is_send cs)) \<le> max 0 (MaxSendRetries S) + 1
    \<and> (case r of None \<Rightarrow> delivered cs = [c None]
       | Some err \<Rightarrow> delivered cs = [] \<and>
           ((\<exists>d. last cs = CWait d (Some err)) \<or>
            last cs = c (Some err) \<and> int (length (filter is_send cs)) = max 0 (MaxSendRetries S) + 1))"
  using assms by (rule sendWithRetry_log)

section \<open>What a recipient gets\<close>

text \<open>What a run did of a plan: all of it on success, less than all of it on failure.\<close>

definition did :: "'p list \<Rightarrow> error option \<Rightarrow> 'p list \<Rightarrow> bool" where
  "did ps r plan \<longleftrightarrow> (case r of None \<Rightarrow> ps = plan | Some _ \<Rightarrow> strict_prefix ps plan)"

lemma did_Nil: "did [] None []"
  by (simp add: did_def)

lemma did_one: "did (if r = None then [p] else []) r [p]"
  by (auto simp: did_def split: option.splits)

lemma did_stop: "did ps (Some e) plan \<Longrightarrow> did ps (Some e) (plan @ rest)"
  by (auto simp: did_def strict_prefix_def)

lemma did_go: "did ps None plan \<Longrightarrow> did qs r rest \<Longrightarrow> did (ps @ qs) r (plan @ rest)"
  by (auto simp: did_def strict_prefix_def split: option.splits)

lemma Relay_body:
  assumes "Relay S ctx rcpt raw s = (r, s')"
  obtains t s1 s2 where "in_world (x_now (s_ext S)) s = (t, s1)" "relay_body S ctx rcpt raw s1 = (r, s2)"
    "s' = observe_since S ''relay_total'' t s2"
  using assms by (auto simp: Relay_def split: prod.splits)

text \<open>
  The contract of \<open>max.Sender\<close>, with the clock, the waits and the queue file around it:
  \<open>mailbox\<close> is what the chats have got. A send that succeeds puts one post there, a send that
  fails puts nothing there, and nothing else touches it.
\<close>

locale message_sender =
  fixes X :: "'w external" and mailbox :: "'w \<Rightarrow> 'p list"
    and text_post :: "string \<Rightarrow> string \<Rightarrow> bool \<Rightarrow> 'p" and file_post :: "string \<Rightarrow> Attachment \<Rightarrow> bool \<Rightarrow> 'p"
  assumes now_quiet: "x_now X w = (now, w') \<Longrightarrow> mailbox w' = mailbox w"
    and wait_quiet: "x_wait X ctx d w = (r, w') \<Longrightarrow> mailbox w' = mailbox w"
    and store_quiet: "x_store X w = (E, w') \<Longrightarrow> mailbox w' = mailbox w"
    and text_sent: "x_SendText X ctx chat t q w = ((r, us), w') \<Longrightarrow>
      mailbox w' = mailbox w @ (if r = None then [text_post chat t q] else [])"
    and file_sent: "x_SendFile X ctx chat a q w = ((r, us), w') \<Longrightarrow>
      mailbox w' = mailbox w @ (if r = None then [file_post chat a q] else [])"
begin

definition box :: "'w sys \<Rightarrow> 'p list" where
  "box s = mailbox (sys_world s)"

definition posts_for :: "string list \<Rightarrow> Attachment list \<Rightarrow> RecipientTarget \<Rightarrow> 'p list" where
  "posts_for chunks atts t =
     map (\<lambda>ch. text_post (ChatID t) ch (Silent t)) chunks @ map (\<lambda>a. file_post (ChatID t) a (Silent t)) atts"

lemma box_with_metrics [simp]: "box (with_metrics f s) = box s"
  by (simp add: box_def)

lemma box_with_dlq [simp]: "box (s\<lparr>sys_dlq := q\<rparr>) = box s" "box (s\<lparr>sys_metrics := c\<rparr>) = box s"
  by (simp_all add: box_def)

lemma box_in_world: "in_world f s = (r, s') \<Longrightarrow> \<exists>w'. f (sys_world s) = (r, w') \<and> box s' = mailbox w'"
  by (auto simp: in_world_def box_def split: prod.splits)

lemma box_in_send: "in_send f s = (r, s') \<Longrightarrow> \<exists>us w'. f (sys_world s) = ((r, us), w') \<and> box s' = mailbox w'"
  by (auto simp: box_def dest!: in_sendD)

lemma box_now: "in_world (x_now X) s = (t, s') \<Longrightarrow> box s' = box s"
  using now_quiet by (auto simp: box_def [of s] dest: box_in_world)

lemma box_wait: "in_world (x_wait X ctx d) s = (r, s') \<Longrightarrow> box s' = box s"
  using wait_quiet by (auto simp: box_def [of s] dest: box_in_world)

lemma box_store: "with_store X f st s = (r, s') \<Longrightarrow> box s' = box s"
  using store_quiet by (auto simp: with_store_def box_def [of s] split: prod.splits dest!: box_in_world)

lemma box_attempts:
  assumes "\<And>w r us w'. fn w = ((r, us), w') \<Longrightarrow> mailbox w' = mailbox w @ (if r = None then [p] else [])"
  shows "attempt_loop X ctx d fn n s = (r, s') \<Longrightarrow> box s' = box s @ (if r = None then [p] else [])"
proof (induction n arbitrary: s)
  case 0
  then have "in_send fn s = (r, s')" by (simp add: attempt_loop_0)
  from box_in_send [OF this] show ?case using assms by (auto simp: box_def [of s])
next
  case (Suc n)
  obtain r1 s1 where 1: "in_send fn s = (r1, s1)" by fastforce
  have b1: "box s1 = box s @ (if r1 = None then [p] else [])"
    using box_in_send [OF 1] assms by (auto simp: box_def [of s])
  show ?case
  proof (cases r1)
    case (Some err)
    obtain r2 s2 where 2: "in_world (x_wait X ctx d) s1 = (r2, s2)" by fastforce
    show ?thesis
      using Suc 1 2 b1 Some box_wait [OF 2] by (cases r2) (auto simp: attempt_loop_Suc)
  qed (use Suc.prems 1 b1 in \<open>simp add: attempt_loop_Suc\<close>)
qed

lemma box_observe:
  assumes "s_ext S = X"
  shows "box (observe_since S st t s) = box s" "box (observe_delivery S a b m n s) = box s"
  by (auto simp: observe_since_def observe_delivery_def assms split: option.splits prod.splits dest: box_now)

lemma box_delivery_failed:
  assumes "s_ext S = X" "delivery_failed S ctx rcpt raw source chat pre err s = (r, s')"
  shows "box s' = box s" "r \<noteq> None"
  using assms(2) box_observe(2) [OF assms(1), of rcpt False chat source "with_metrics IncFailed s"]
  by (auto simp: delivery_failed_def Let_def assms(1) split: option.splits if_splits prod.splits sum.splits
      dest: box_store)

lemma box_send_one:
  assumes "s_ext S = X" "send_one S ctx rcpt raw source chat pre fn s = (r, s')"
    and "\<And>w r us w'. fn w = ((r, us), w') \<Longrightarrow> mailbox w' = mailbox w @ (if r = None then [p] else [])"
  shows "box s' = box s @ (if r = None then [p] else [])"
proof -
  obtain t s1 where 1: "in_world (x_now X) s = (t, s1)" by fastforce
  obtain r2 s2 where 2: "sendWithRetry S ctx fn s1 = (r2, s2)" by fastforce
  have b2: "box s2 = box s1 @ (if r2 = None then [p] else [])"
    using 2 box_attempts [OF assms(3)] assms(1) by (auto simp: sendWithRetry_def Let_def)
  let ?s3 = "observe_since S ''max_send'' t s2"
  have "case r2 of None \<Rightarrow> r = None \<and> s' = ?s3
      | Some err \<Rightarrow> delivery_failed S ctx rcpt raw source chat pre err ?s3 = (r, s')"
    using assms(1,2) 1 2 by (auto simp: send_one_def Let_def split: option.splits)
  then show ?thesis
    using b2 box_now [OF 1] box_observe [OF assms(1)] box_delivery_failed [OF assms(1)]
    by (fastforce split: option.splits)
qed

lemma box_send_chunks:
  assumes "s_ext S = X"
  shows "send_chunks S ctx rcpt raw source t chunks s = (r, s') \<Longrightarrow>
    \<exists>ps. box s' = box s @ ps \<and> did ps r (map (\<lambda>ch. text_post (ChatID t) ch (Silent t)) chunks)"
proof (induction chunks arbitrary: s)
  case (Cons ch chunks)
  let ?p = "text_post (ChatID t) ch (Silent t)"
  obtain r1 s1 where 1: "send_one S ctx rcpt raw source (ChatID t) ''send text: ''
      (x_SendText X ctx (ChatID t) ch (Silent t)) s = (r1, s1)" by fastforce
  have b: "box s1 = box s @ (if r1 = None then [?p] else [])"
    by (rule box_send_one [OF assms 1]) (rule text_sent)
  show ?case
  proof (cases r1)
    case None
    then have "send_chunks S ctx rcpt raw source t chunks s1 = (r, s')" using Cons.prems 1 assms by simp
    then show ?thesis using Cons.IH b None did_go [OF did_one [of None ?p]] by fastforce
  next
    case (Some e)
    then have "r = Some e" "s' = s1" using Cons.prems 1 assms by simp_all
    then show ?thesis using b Some did_stop [OF did_one [of "Some e" ?p, simplified]] by auto
  qed
qed (auto intro: did_Nil)

lemma box_send_files:
  assumes "s_ext S = X"
  shows "send_files S ctx rcpt raw source t atts s = (r, s') \<Longrightarrow>
    \<exists>ps. box s' = box s @ ps \<and> did ps r (map (\<lambda>a. file_post (ChatID t) a (Silent t)) atts)"
proof (induction atts arbitrary: s)
  case (Cons a atts)
  let ?p = "file_post (ChatID t) a (Silent t)"
  obtain r1 s1 where 1: "send_one S ctx rcpt raw source (ChatID t) (''send file '' @ Filename a @ '': '')
      (x_SendFile X ctx (ChatID t) a (Silent t)) s = (r1, s1)" by fastforce
  have b: "box s1 = box s @ (if r1 = None then [?p] else [])"
    by (rule box_send_one [OF assms 1]) (rule file_sent)
  show ?case
  proof (cases r1)
    case None
    then have "send_files S ctx rcpt raw source t atts (with_metrics IncFilesSent s1) = (r, s')"
      using Cons.prems 1 assms by simp
    then show ?thesis using Cons.IH b None did_go [OF did_one [of None ?p]] by fastforce
  next
    case (Some e)
    then have "r = Some e" "s' = s1" using Cons.prems 1 assms by simp_all
    then show ?thesis using b Some did_stop [OF did_one [of "Some e" ?p, simplified]] by auto
  qed
qed (auto intro: did_Nil)

lemma box_relay_targets:
  assumes "s_ext S = X"
  shows "relay_targets S ctx rcpt raw source chunks atts ts s = (r, s') \<Longrightarrow>
    \<exists>ps. box s' = box s @ ps \<and> did ps r (concat (map (posts_for chunks atts) ts))"
proof (induction ts arbitrary: s)
  case (Cons t ts)
  obtain r1 s1 where 1: "send_chunks S ctx rcpt raw source t chunks s = (r1, s1)" by fastforce
  obtain c1 where c1: "box s1 = box s @ c1" "did c1 r1 (map (\<lambda>ch. text_post (ChatID t) ch (Silent t)) chunks)"
    using box_send_chunks [OF assms 1] by blast
  obtain r2 s2 where 2: "send_files S ctx rcpt raw source t atts (with_metrics IncTextSent s1) = (r2, s2)" by fastforce
  obtain c2 where c2: "box s2 = box s1 @ c2" "did c2 r2 (map (\<lambda>a. file_post (ChatID t) a (Silent t)) atts)"
    using box_send_files [OF assms 2] by auto
  let ?s3 = "observe_delivery S rcpt True (ChatID t) source (with_metrics IncRelayed s2)"
  have b3: "box ?s3 = box s2" by (simp add: box_observe [OF assms])
  show ?case
  proof (cases r1)
    case (Some e)
    then have "r = Some e" "s' = s1" using Cons.prems 1 by simp_all
    then show ?thesis using c1 Some did_stop by (fastforce simp: posts_for_def)
  next
    case None
    have go: "did (c1 @ c2) r2 (posts_for chunks atts t)"
      unfolding posts_for_def using c1(2) c2(2) None by (auto intro: did_go)
    show ?thesis
    proof (cases r2)
      case (Some e)
      then have "r = Some e" "s' = s2" using Cons.prems 1 2 None by simp_all
      then show ?thesis using c1(1) c2(1) go Some did_stop by fastforce
    next
      case r2: None
      then have "relay_targets S ctx rcpt raw source chunks atts ts ?s3 = (r, s')" using Cons.prems 1 2 None by simp
      then show ?thesis using Cons.IH c1(1) c2(1) b3 go r2 did_go by fastforce
    qed
  qed
qed (auto intro: did_Nil)

lemma Relay_posts:
  assumes "s_ext S = X" and "Relay S ctx rcpt raw s = (r, s')" and "Parse (s_lib S) (sys_parser s) rcpt = Inr pr"
    and "email_Parse (s_lib S) (s_mime S) (s_Email S) raw = Inr em"
  shows "\<exists>ps. box s' = box s @ ps \<and>
    did ps r (concat (map (posts_for (splitTextMessage (message_text em) maxTextMessageBytes) (Attachments em)) (Targets pr)))"
proof -
  obtain t s1 s2 where 1: "in_world (x_now X) s = (t, s1)" and 2: "relay_body S ctx rcpt raw s1 = (r, s2)"
    and s': "s' = observe_since S ''relay_total'' t s2"
    by (rule Relay_body [OF assms(2), unfolded assms(1)])
  obtain t' s3 where 3: "in_world (x_now X) (with_metrics IncReceived s1) = (t', s3)" by fastforce
  have "relay_targets S ctx rcpt raw (SourceLocal pr) (splitTextMessage (message_text em) maxTextMessageBytes)
      (Attachments em) (Targets pr) (observe_since S ''email_parse'' t' s3) = (r, s2)"
    using 2 3 assms in_worldD [OF 1] by (simp add: relay_body_def Let_def)
  from box_relay_targets [OF assms(1) this] show ?thesis
    using box_now [OF 1] box_now [OF 3] box_observe [OF assms(1)] s' by auto
qed

end

text \<open>A recorded sender keeps the contract: the chats have got what the calls delivered.\<close>

abbreviation text_call :: "string \<Rightarrow> string \<Rightarrow> bool \<Rightarrow> call" where
  "text_call chat t q \<equiv> CText chat t q None"

abbreviation file_call :: "string \<Rightarrow> Attachment \<Rightarrow> bool \<Rightarrow> call" where
  "file_call chat a q \<equiv> CFile chat a q None"

interpretation logged_sender: message_sender "logged X" "\<lambda>w. delivered (snd w)" text_call file_call for X
  by unfold_locales (auto simp: logged_def log_send_def log_call_def no_log_def delivered_def split: prod.splits)

text \<open>The sends that hand a message to its targets, each of them successful.\<close>

definition planned :: "string list \<Rightarrow> Attachment list \<Rightarrow> RecipientTarget list \<Rightarrow> call list" where
  "planned chunks atts ts =
     concat (map (\<lambda>t. map (\<lambda>ch. text_call (ChatID t) ch (Silent t)) chunks
                    @ map (\<lambda>a. file_call (ChatID t) a (Silent t)) atts) ts)"

lemma planned_posts: "planned chunks atts ts = concat (map (logged_sender.posts_for chunks atts) ts)"
  by (simp add: planned_def logged_sender.posts_for_def [abs_def])

lemma split_concat: "concat (splitTextMessage (message_text em) maxTextMessageBytes) = message_text em"
  using split_loop_spec [of maxTextMessageBytes "message_text em"]
  by (simp add: splitTextMessage_def maxTextMessageBytes_def)

lemmas Relay_sends = logged_sender.Relay_posts [folded planned_posts, unfolded logged_sender.box_def]

text \<open>
  C2: A message that is relayed successfully reaches every target of its address completely and
  in order: to each target, first the chunks that make up its text, then its attachments, each
  exactly once, to the target's chat and with its silent mark. When relaying fails on the way,
  what was delivered is a proper beginning of that.
\<close>

theorem Relay_delivers:
  assumes "s_ext S = logged X" and "Relay S ctx rcpt raw s = (r, s')"
    and "Parse (s_lib S) (sys_parser s) rcpt = Inr pr"
    and "email_Parse (s_lib S) (s_mime S) (s_Email S) raw = Inr em"
  shows "\<exists>cs. delivered (sys_log s') = delivered (sys_log s) @ cs \<and>
    (let plan = planned (splitTextMessage (message_text em) maxTextMessageBytes) (Attachments em) (Targets pr)
     in case r of None \<Rightarrow> cs = plan | Some _ \<Rightarrow> strict_prefix cs plan)
    \<and> concat (splitTextMessage (message_text em) maxTextMessageBytes) = message_text em"
  using Relay_sends [OF assms] split_concat by (auto simp: did_def)

text \<open>A service and a world for the instances: every send succeeds.\<close>

definition calm :: "unit external" where
  "calm = \<lparr>x_now = (\<lambda>w. (7, w)), x_wait = (\<lambda>_ _ w. (None, w)), x_SendText = (\<lambda>_ _ _ _ w. ((None, []), w)),
     x_SendFile = (\<lambda>_ _ _ _ w. ((None, []), w)), x_store = (\<lambda>w. (demo_env [], w)), x_Int63n = (\<lambda>_ w. (0, w))\<rparr>"

text \<open>The same world with every send failing.\<close>

definition broken :: "unit external" where
  "broken = calm\<lparr>x_SendText := (\<lambda>_ _ _ _ w. ((Some DeadlineExceeded, [RateLimited]), w))\<rparr>"

definition demo_mime :: mime_lib where
  "demo_mime = \<lparr>ReadEnvelope = (\<lambda>raw. Inr \<lparr>GetHeader = (\<lambda>h. ''h''), e_Text = raw, e_HTML = [],
       e_Attachments = [], e_Inlines = [], e_OtherParts = []\<rparr>),
     TextContent = (\<lambda>_. True), ExtensionsByType = (\<lambda>_. Inr [])\<rparr>"

definition demo_service :: "'w external \<Rightarrow> 'w service" where
  "demo_service X = \<lparr>s_lib = ascii_golib, s_mime = demo_mime, s_codec = demo_codec [], s_ext = X,
     s_Email = \<lparr>maxBytes = 1000\<rparr>, MaxSendRetries = 1, RetryBaseDelay = 0\<rparr>"

definition demo_sys :: "'w \<Rightarrow> 'w sys" where
  "demo_sys w = \<lparr>sys_parser = NewParser ascii_golib ''d'' Map.empty, sys_metrics = Some NewCollector,
     sys_dlq = Some \<lparr>items = Map.empty, dlqfile = None, tmpfile = None\<rparr>, sys_world = w\<rparr>"

lemma demo_parse:
  "Parse ascii_golib (NewParser ascii_golib ''d'' Map.empty) ''chatid12@d'' =
     Inr \<lparr>Targets = [\<lparr>ChatID = ''12'', Silent = False, Local = ''chatid12''\<rparr>], RawLocal = ''chatid12'',
       RawAddr = ''chatid12@d'', SourceLocal = ''chatid12'', AliasUsed = False\<rparr>"
  by code_simp

lemma demo_email:
  "email_Parse ascii_golib demo_mime \<lparr>maxBytes = 1000\<rparr> ''hi'' =
     Inr \<lparr>Subject = ''h'', From = ''h'', To = [''h''], TextBody = ''hi'', HTMLBody = [], Attachments = [],
       MessageID = ''h''\<rparr>"
  by code_simp

lemma demo_run:
  "fst (Relay (demo_service (logged calm)) Background ''chatid12@d'' ''hi'' (demo_sys ((), []))) = None"
proof -
  let ?em = "\<lparr>Subject = ''h'', From = ''h'', To = [''h''], TextBody = ''hi'', HTMLBody = [], Attachments = [],
       MessageID = ''h''\<rparr> :: ParsedEmail"
  have "splitTextMessage (message_text ?em) maxTextMessageBytes = [message_text ?em]" by code_simp
  then show ?thesis
    using demo_email demo_parse
    by (simp add: Relay_def relay_body_def Let_def in_world_def in_send_def demo_service_def demo_sys_def logged_def
        no_log_def log_send_def log_call_def calm_def send_one_def sendWithRetry_def attempt_loop.simps
        observe_since_def with_metrics_def)
qed

lemma demo_service_sel [simp]:
  "s_lib (demo_service X) = ascii_golib" "s_mime (demo_service X) = demo_mime" "s_ext (demo_service X) = X"
  "s_Email (demo_service X) = \<lparr>maxBytes = 1000\<rparr>" "MaxSendRetries (demo_service X) = 1"
  by (simp_all add: demo_service_def)

theorem sendWithRetry_attempts_witness:
  "\<exists>cs. sys_log (snd (sendWithRetry (demo_service (logged broken)) Background
        (log_send (CText ''12'' ''x'' False) (x_SendText broken Background ''12'' ''x'' False)) (demo_sys ((), [])))) = cs
     \<and> length (filter is_send cs) \<le> 2"
proof -
  let ?run = "sendWithRetry (demo_service (logged broken)) Background
      (log_send (CText ''12'' ''x'' False) (x_SendText broken Background ''12'' ''x'' False)) (demo_sys ((), []))"
  have "sys_log (demo_sys ((), [])) = []" by (simp add: demo_sys_def)
  then show ?thesis
    using sendWithRetry_attempts [OF demo_service_sel(3) send_recordI(1) surjective_pairing, of broken]
    by fastforce
qed

theorem Relay_delivers_witness:
  "delivered (sys_log (snd (Relay (demo_service (logged calm)) Background ''chatid12@d'' ''hi'' (demo_sys ((), [])))))
     \<noteq> []"
proof -
  let ?run = "Relay (demo_service (logged calm)) Background ''chatid12@d'' ''hi'' (demo_sys ((), []))"
  have "?run = (None, snd ?run)" using demo_run by (metis prod.collapse)
  moreover have "sys_log (demo_sys ((), [])) = []" by (simp add: demo_sys_def)
  ultimately show ?thesis
    using Relay_delivers [of "demo_service (logged calm)" calm Background "''chatid12@d''" "''hi''"
        "demo_sys ((), [])" None "snd ?run"] demo_parse demo_email
    by (fastforce simp: Let_def planned_def splitTextMessage_def message_text_def demo_sys_def)
qed

section \<open>The queue and the counters\<close>

definition cnt :: "(Collector \<Rightarrow> u64) \<Rightarrow> 'w sys \<Rightarrow> u64 option" where
  "cnt f s = map_option f (sys_metrics s)"

lemma counts_cnt:
  "counts s' = counts s \<Longrightarrow> cnt failed s' = cnt failed s \<and> cnt dlqEnqueued s' = cnt dlqEnqueued s
     \<and> cnt received s' = cnt received s"
  by (cases "sys_metrics s"; cases "sys_metrics s'") (auto simp: counts_def cnt_def relay_counts_def)

text \<open>What a run changed of the queue and the counters, by its result.\<close>

definition queue_effect ::
  "'w service \<Rightarrow> context_values \<Rightarrow> string \<Rightarrow> string \<Rightarrow> error option \<Rightarrow> 'w sys \<Rightarrow> 'w sys \<Rightarrow> bool" where
  "queue_effect S ctx rcpt raw r s s' \<longleftrightarrow> sys_parser s' = sys_parser s \<and> cnt received s' = cnt received s \<and>
     (case r of
        None \<Rightarrow> sys_dlq s' = sys_dlq s \<and> cnt failed s' = cnt failed s \<and> cnt dlqEnqueued s' = cnt dlqEnqueued s
      | Some _ \<Rightarrow> cnt failed s' = map_option (\<lambda>n. n + 1) (cnt failed s) \<and>
          (if sys_dlq s = None \<or> shouldBypassDLQ ctx
           then sys_dlq s' = sys_dlq s \<and> cnt dlqEnqueued s' = cnt dlqEnqueued s
           else \<exists>w e q st'. Enqueue (s_lib S) (s_codec S) (fst (x_store (s_ext S) w)) rcpt raw (Some e) (the (sys_dlq s)) = (q, st')
             \<and> sys_dlq s' = Some st'
             \<and> cnt dlqEnqueued s' = map_option (\<lambda>n. if isl q then n else n + 1) (cnt dlqEnqueued s)))"

text \<open>The part of the state this is about.\<close>

definition qview :: "'w sys \<Rightarrow> rcpt_parser \<times> FileStore option \<times> u64 option \<times> u64 option \<times> u64 option" where
  "qview s = (sys_parser s, sys_dlq s, cnt failed s, cnt dlqEnqueued s, cnt received s)"

lemma qviewI: "sys_parser s' = sys_parser s \<Longrightarrow> sys_dlq s' = sys_dlq s \<Longrightarrow> counts s' = counts s \<Longrightarrow> qview s' = qview s"
  using counts_cnt [of s' s] by (simp add: qview_def)

lemma qview_since [simp]: "qview (observe_since S st t s) = qview s"
  by (rule qviewI) simp_all

lemma qview_delivery [simp]: "qview (observe_delivery S a b m n s) = qview s"
  by (rule qviewI) simp_all

lemma qview_world: "in_world f s = (r, s') \<Longrightarrow> qview s' = qview s"
  by (rule qviewI) (simp_all add: in_worldD in_world_counts)

lemma qview_metrics [simp]:
  "qview (with_metrics IncTextSent s) = qview s"
  "qview (with_metrics IncFilesSent s) = qview s" "qview (with_metrics IncRelayed s) = qview s"
  by (simp_all add: qview_def cnt_def option.map_comp comp_def counter_defs)

lemma qview_failed:
  "qview s' = qview (with_metrics IncFailed s) \<Longrightarrow> sys_parser s' = sys_parser s \<and> sys_dlq s' = sys_dlq s
     \<and> cnt failed s' = map_option (\<lambda>n. n + 1) (cnt failed s) \<and> cnt dlqEnqueued s' = cnt dlqEnqueued s
     \<and> cnt received s' = cnt received s"
  by (simp add: qview_def cnt_def option.map_comp comp_def counter_defs)

lemma queue_effect_before: "qview s1 = qview s \<Longrightarrow> queue_effect S ctx rcpt raw r s1 s' = queue_effect S ctx rcpt raw r s s'"
  by (cases r) (simp_all add: queue_effect_def qview_def)

lemma queue_effect_after: "qview s1 = qview s' \<Longrightarrow> queue_effect S ctx rcpt raw r s s1 = queue_effect S ctx rcpt raw r s s'"
  by (cases r) (simp_all add: queue_effect_def qview_def)

lemma queue_effect_None: "queue_effect S ctx rcpt raw None s s' \<longleftrightarrow> qview s' = qview s"
  by (auto simp: queue_effect_def qview_def)

lemma delivery_failed_effect:
  assumes "delivery_failed S ctx rcpt raw source chat pre err s = (r, s')"
  shows "queue_effect S ctx rcpt raw r s s'"
proof -
  define s1 where "s1 = observe_delivery S rcpt False chat source (with_metrics IncFailed s)"
  have 1: "sys_parser s1 = sys_parser s \<and> sys_dlq s1 = sys_dlq s
     \<and> cnt failed s1 = map_option (\<lambda>n. n + 1) (cnt failed s) \<and> cnt dlqEnqueued s1 = cnt dlqEnqueued s
     \<and> cnt received s1 = cnt received s"
    by (rule qview_failed) (simp add: s1_def)
  show ?thesis
  proof (cases "sys_dlq s = None \<or> shouldBypassDLQ ctx")
    case True
    then have "s' = s1" "r = Some (WrapError pre err [])"
      using assms 1 by (auto simp: delivery_failed_def Let_def simp flip: s1_def split: option.splits)
    then show ?thesis using True 1 by (auto simp: queue_effect_def)
  next
    case False
    then obtain st where st: "sys_dlq s = Some st" by auto
    obtain E s2 where E: "in_world (x_store (s_ext S)) s1 = (E, s2)" by fastforce
    obtain q st' where q: "Enqueue (s_lib S) (s_codec S) E rcpt raw (Some err) st = (q, st')" by fastforce
    have s2: "sys_parser s2 = sys_parser s1 \<and> sys_metrics s2 = sys_metrics s1 \<and> E = fst (x_store (s_ext S) (sys_world s1))"
      using in_worldD [OF E] by simp
    have "r \<noteq> None \<and> s' = (if isl q then s2\<lparr>sys_dlq := Some st'\<rparr> else with_metrics IncDLQEnqueued (s2\<lparr>sys_dlq := Some st'\<rparr>))"
      using assms False st 1 E q
      by (auto simp: delivery_failed_def with_store_def Let_def simp flip: s1_def split: sum.splits)
    moreover from this have "sys_parser s' = sys_parser s" "sys_dlq s' = Some st'" using s2 1 by auto
    moreover have "cnt dlqEnqueued s' = map_option (\<lambda>n. if isl q then n else n + 1) (cnt dlqEnqueued s)"
      "cnt failed s' = map_option (\<lambda>n. n + 1) (cnt failed s)" "cnt received s' = cnt received s"
      using calculation s2 1
      by (cases "sys_metrics s"; cases "sys_metrics s1"; auto simp: cnt_def IncDLQEnqueued_def)+
    ultimately show ?thesis
      using False st q s2 unfolding queue_effect_def by (cases r) auto
  qed
qed

lemma send_one_effect:
  assumes "send_one S ctx rcpt raw source chat pre fn s = (r, s')"
  shows "queue_effect S ctx rcpt raw r s s'"
proof -
  obtain t s1 where 1: "in_world (x_now (s_ext S)) s = (t, s1)" by fastforce
  obtain r2 s2 where 2: "sendWithRetry S ctx fn s1 = (r2, s2)" by fastforce
  let ?s3 = "observe_since S ''max_send'' t s2"
  have "qview s2 = qview s1" by (rule qviewI) (use sendWithRetry_frame [OF 2] in simp_all)
  then have v: "qview ?s3 = qview s" using qview_world [OF 1] by simp
  have "case r2 of None \<Rightarrow> r = None \<and> s' = ?s3
      | Some err \<Rightarrow> delivery_failed S ctx rcpt raw source chat pre err ?s3 = (r, s')"
    using assms 1 2 by (auto simp: send_one_def Let_def split: option.splits)
  then show ?thesis
    using v delivery_failed_effect queue_effect_before [OF v] queue_effect_None
    by (fastforce split: option.splits)
qed

lemma send_chunks_effect:
  "send_chunks S ctx rcpt raw source t chunks s = (r, s') \<Longrightarrow> queue_effect S ctx rcpt raw r s s'"
proof (induction chunks arbitrary: s)
  case (Cons ch chunks)
  obtain r1 s1 where 1: "send_one S ctx rcpt raw source (ChatID t) ''send text: ''
      (x_SendText (s_ext S) ctx (ChatID t) ch (Silent t)) s = (r1, s1)" by fastforce
  have e: "queue_effect S ctx rcpt raw r1 s s1" by (rule send_one_effect [OF 1])
  show ?case
    using Cons.prems Cons.IH [of s1] 1 e queue_effect_before [of s1 s]
    by (cases r1) (auto simp: queue_effect_None)
qed (simp add: queue_effect_None)

lemma send_files_effect:
  "send_files S ctx rcpt raw source t atts s = (r, s') \<Longrightarrow> queue_effect S ctx rcpt raw r s s'"
proof (induction atts arbitrary: s)
  case (Cons a atts)
  obtain r1 s1 where 1: "send_one S ctx rcpt raw source (ChatID t) (''send file '' @ Filename a @ '': '')
      (x_SendFile (s_ext S) ctx (ChatID t) a (Silent t)) s = (r1, s1)" by fastforce
  have e: "queue_effect S ctx rcpt raw r1 s s1" by (rule send_one_effect [OF 1])
  show ?case
    using Cons.prems Cons.IH [of "with_metrics IncFilesSent s1"] 1 e
      queue_effect_before [of "with_metrics IncFilesSent s1" s]
    by (cases r1) (auto simp: queue_effect_None)
qed (simp add: queue_effect_None)

lemma relay_targets_effect:
  "relay_targets S ctx rcpt raw source chunks atts ts s = (r, s') \<Longrightarrow> queue_effect S ctx rcpt raw r s s'"
proof (induction ts arbitrary: s)
  case (Cons t ts)
  obtain r1 s1 where 1: "send_chunks S ctx rcpt raw source t chunks s = (r1, s1)" by fastforce
  have e1: "queue_effect S ctx rcpt raw r1 s s1" by (rule send_chunks_effect [OF 1])
  obtain r2 s2 where 2: "send_files S ctx rcpt raw source t atts (with_metrics IncTextSent s1) = (r2, s2)"
    by fastforce
  have e2: "queue_effect S ctx rcpt raw r2 (with_metrics IncTextSent s1) s2" by (rule send_files_effect [OF 2])
  let ?s3 = "observe_delivery S rcpt True (ChatID t) source (with_metrics IncRelayed s2)"
  show ?case
  proof (cases "r1 = None \<and> r2 = None")
    case True
    then have "qview ?s3 = qview s" using e1 e2 by (simp add: queue_effect_None)
    moreover have "queue_effect S ctx rcpt raw r ?s3 s'" using Cons.prems Cons.IH 1 2 True by simp
    ultimately show ?thesis using queue_effect_before by blast
  next
    case False
    then show ?thesis
      using Cons.prems 1 2 e1 e2 queue_effect_before [of "with_metrics IncTextSent s1" s]
      by (cases r1; cases r2) (auto simp: queue_effect_None)
  qed
qed (simp add: queue_effect_None)

lemma relay_body_effect:
  assumes "relay_body S ctx rcpt raw s = (r, s')"
  shows "case Parse (s_lib S) (sys_parser s) rcpt of
      Inl _ \<Rightarrow> r \<noteq> None \<and> qview s' = qview (with_metrics IncFailed (with_metrics IncReceived s))
    | Inr _ \<Rightarrow>
        (case email_Parse (s_lib S) (s_mime S) (s_Email S) raw of
           Inl _ \<Rightarrow> r \<noteq> None \<and> qview s' = qview (with_metrics IncFailed (with_metrics IncReceived s))
         | Inr _ \<Rightarrow> queue_effect S ctx rcpt raw r (with_metrics IncReceived s) s')"
proof -
  let ?s = "with_metrics IncReceived s"
  obtain t s1 where 1: "in_world (x_now (s_ext S)) ?s = (t, s1)" by fastforce
  let ?s2 = "observe_since S ''email_parse'' t s1"
  have v: "qview ?s2 = qview ?s" using qview_world [OF 1] by simp
  have f: "qview (with_metrics IncFailed ?s2) = qview (with_metrics IncFailed ?s)"
    using v by (cases "sys_metrics ?s2"; cases "sys_metrics ?s")
      (auto simp: qview_def cnt_def counter_defs)
  show ?thesis
    using assms 1 f queue_effect_before [OF v] relay_targets_effect
    by (fastforce simp: relay_body_def Let_def split: sum.splits)
qed

lemma Relay_effect:
  "case Relay S ctx rcpt raw s of (r, s') \<Rightarrow>
     cnt received s' = map_option (\<lambda>n. n + 1) (cnt received s) \<and>
     (case (Parse (s_lib S) (sys_parser s) rcpt, email_Parse (s_lib S) (s_mime S) (s_Email S) raw) of
        (Inr _, Inr _) \<Rightarrow>
          (case r of
             None \<Rightarrow> sys_dlq s' = sys_dlq s \<and> cnt failed s' = cnt failed s \<and> cnt dlqEnqueued s' = cnt dlqEnqueued s
           | Some _ \<Rightarrow> cnt failed s' = map_option (\<lambda>n. n + 1) (cnt failed s) \<and>
               (if sys_dlq s = None \<or> shouldBypassDLQ ctx
                then sys_dlq s' = sys_dlq s \<and> cnt dlqEnqueued s' = cnt dlqEnqueued s
                else \<exists>w e q st'. Enqueue (s_lib S) (s_codec S) (fst (x_store (s_ext S) w)) rcpt raw (Some e)
                      (the (sys_dlq s)) = (q, st') \<and> sys_dlq s' = Some st'
                  \<and> cnt dlqEnqueued s' = map_option (\<lambda>n. if isl q then n else n + 1) (cnt dlqEnqueued s)))
      | _ \<Rightarrow> r \<noteq> None \<and> sys_dlq s' = sys_dlq s \<and> cnt failed s' = map_option (\<lambda>n. n + 1) (cnt failed s)
           \<and> cnt dlqEnqueued s' = cnt dlqEnqueued s)"
proof -
  obtain r s' where R: "Relay S ctx rcpt raw s = (r, s')" by fastforce
  obtain t s1 s2 where 1: "in_world (x_now (s_ext S)) s = (t, s1)"
    and 2: "relay_body S ctx rcpt raw s1 = (r, s2)" and s': "s' = observe_since S ''relay_total'' t s2"
    by (rule Relay_body [OF R])
  have v1: "qview s1 = qview s" by (rule qview_world [OF 1])
  have v2: "qview s' = qview s2" using s' by simp
  have rec: "qview (with_metrics IncReceived s1) =
      (sys_parser s, sys_dlq s, cnt failed s, cnt dlqEnqueued s, map_option (\<lambda>n. n + 1) (cnt received s))"
    using in_worldD [OF 1] by (simp add: qview_def cnt_def option.map_comp comp_def counter_defs)
  have fl: "qview (with_metrics IncFailed (with_metrics IncReceived s1)) =
      (sys_parser s, sys_dlq s, map_option (\<lambda>n. n + 1) (cnt failed s), cnt dlqEnqueued s,
       map_option (\<lambda>n. n + 1) (cnt received s))"
    using in_worldD [OF 1] by (simp add: qview_def cnt_def option.map_comp comp_def counter_defs)
  have p: "sys_parser s1 = sys_parser s" using in_worldD [OF 1] by simp
  note body = relay_body_effect [OF 2, unfolded p]
  have eff: "queue_effect S ctx rcpt raw r (with_metrics IncReceived s1) s2 = queue_effect S ctx rcpt raw r (with_metrics IncReceived s1) s'"
    using queue_effect_after [OF v2] by simp
  have tuple: "sys_dlq (with_metrics IncReceived s1) = sys_dlq s" "cnt failed (with_metrics IncReceived s1) = cnt failed s"
    "cnt dlqEnqueued (with_metrics IncReceived s1) = cnt dlqEnqueued s"
    "cnt received (with_metrics IncReceived s1) = map_option (\<lambda>n. n + 1) (cnt received s)"
    using rec unfolding qview_def prod.inject by blast+
  have failed: "cnt received s' = map_option (\<lambda>n. n + 1) (cnt received s) \<and> r \<noteq> None \<and> sys_dlq s' = sys_dlq s
      \<and> cnt failed s' = map_option (\<lambda>n. n + 1) (cnt failed s) \<and> cnt dlqEnqueued s' = cnt dlqEnqueued s"
    if "r \<noteq> None" "qview s2 = qview (with_metrics IncFailed (with_metrics IncReceived s1))"
    using that v2 fl unfolding qview_def prod.inject by simp
  consider e where "Parse (s_lib S) (sys_parser s) rcpt = Inl e"
    | p e where "Parse (s_lib S) (sys_parser s) rcpt = Inr p" "email_Parse (s_lib S) (s_mime S) (s_Email S) raw = Inl e"
    | p m where "Parse (s_lib S) (sys_parser s) rcpt = Inr p" "email_Parse (s_lib S) (s_mime S) (s_Email S) raw = Inr m"
    by (metis sum.exhaust)
  then show ?thesis
  proof cases
    case 3
    then have "queue_effect S ctx rcpt raw r (with_metrics IncReceived s1) s'" using body eff by simp
    then show ?thesis
      using 3 unfolding R queue_effect_def tuple by (cases r) simp_all
  qed (use body failed in \<open>simp_all add: R\<close>)
qed

text \<open>
  C7: The books balance: every call of \<open>Relay\<close> counts one message received and, unless it
  succeeds, one failed. A message that cannot be parsed, or is sent successfully, or is itself
  a replay, leaves the queue alone; every other failure puts the message into the queue, for
  this address, and counts it as enqueued unless the queue could not be saved.
\<close>

theorem Relay_accounting:
  "case Relay S ctx rcpt raw s of (r, s') \<Rightarrow>
     cnt received s' = map_option (\<lambda>n. n + 1) (cnt received s) \<and>
     (case (Parse (s_lib S) (sys_parser s) rcpt, email_Parse (s_lib S) (s_mime S) (s_Email S) raw) of
        (Inr _, Inr _) \<Rightarrow>
          (case r of
             None \<Rightarrow> sys_dlq s' = sys_dlq s \<and> cnt failed s' = cnt failed s \<and> cnt dlqEnqueued s' = cnt dlqEnqueued s
           | Some _ \<Rightarrow> cnt failed s' = map_option (\<lambda>n. n + 1) (cnt failed s) \<and>
               (if sys_dlq s = None \<or> shouldBypassDLQ ctx
                then sys_dlq s' = sys_dlq s \<and> cnt dlqEnqueued s' = cnt dlqEnqueued s
                else \<exists>w e q st'. Enqueue (s_lib S) (s_codec S) (fst (x_store (s_ext S) w)) rcpt raw (Some e)
                      (the (sys_dlq s)) = (q, st') \<and> sys_dlq s' = Some st'
                  \<and> cnt dlqEnqueued s' = map_option (\<lambda>n. if isl q then n else n + 1) (cnt dlqEnqueued s)))
      | _ \<Rightarrow> r \<noteq> None \<and> sys_dlq s' = sys_dlq s \<and> cnt failed s' = map_option (\<lambda>n. n + 1) (cnt failed s)
           \<and> cnt dlqEnqueued s' = cnt dlqEnqueued s)"
  by (rule Relay_effect)

text \<open>
  Nothing is dropped silently: when a parsed message cannot be sent to all its targets, then
  afterwards the queue holds an active item with this recipient and this message, also when
  the queue could not be saved. (The queue is on, the message is no replay, and no two of the
  payloads involved have the same SHA-256 digest.)
\<close>

lemma failed_is_queued:
  assumes "Relay S ctx rcpt raw s = (Some err, s')"
    and "Parse (s_lib S) (sys_parser s) rcpt = Inr pr"
    and "email_Parse (s_lib S) (s_mime S) (s_Email S) raw = Inr em"
    and "sys_dlq s = Some st" and "\<not> shouldBypassDLQ ctx"
    and "store_inv (items st)" and "\<And>w. iterates (fst (x_store (s_ext S) w)) (items st)"
    and "fingerprints_ok (s_lib S) (items st)" and "no_collision (s_lib S) (payload rcpt raw) (items st)"
  shows "\<exists>st' it. sys_dlq s' = Some st' \<and> items st' (ID it) = Some it \<and> active it
    \<and> ItemRecipient it = rcpt \<and> RawMessage it = raw"
proof -
  obtain w e q st' where q: "Enqueue (s_lib S) (s_codec S) (fst (x_store (s_ext S) w)) rcpt raw (Some e) st = (q, st')"
    and d: "sys_dlq s' = Some st'"
    using Relay_effect [where S = S and ctx = ctx and rcpt = rcpt and raw = raw and s = s] assms(1-5) by auto
  then show ?thesis
    using Enqueue_present [OF assms(6) assms(7) [of w] assms(8,9), of "s_codec S" "Some e"] by auto
qed

text \<open>A run of \<open>Relay\<close> leaves the alias table alone.\<close>

lemma Relay_parser: "Relay S ctx rcpt raw s = (r, s') \<Longrightarrow> sys_parser s' = sys_parser s"
proof -
  assume R: "Relay S ctx rcpt raw s = (r, s')"
  obtain t s1 s2 where 1: "in_world (x_now (s_ext S)) s = (t, s1)"
    and 2: "relay_body S ctx rcpt raw s1 = (r, s2)" and s': "s' = observe_since S ''relay_total'' t s2"
    by (rule Relay_body [OF R])
  have "sys_parser s2 = sys_parser s1"
    using relay_body_effect [OF 2] by (auto simp: queue_effect_def qview_def split: sum.splits)
  then show ?thesis using s' in_worldD [OF 1] by simp
qed

end
