(* ===== verification/Smtp.thy ===== *)
theory Smtp
  imports Relay
begin

text \<open>
  \<open>internal/smtp/server.go\<close>: one SMTP session, from the greeting to the end of the connection, as
  a function of everything the client sends. The client's bytes are given at once; a session
  reads them line by line, so what it does with a line never depends on what follows it. They
  come in segments: after each segment the connection reports one read error (the read deadline
  passes), and reading goes on with the next segment if the session still reads.

  The events of a session are the replies it writes and the calls of \<open>Relay\<close> it makes. Writing
  to the connection cannot fail visibly (the code ignores the errors).
\<close>

section \<open>The connection\<close>

text \<open>
  How the last segment ends: with end of file or another error, which stays. \<open>cn_dead\<close> says whether
  setting the read deadline fails, given what is left to read.
\<close>

record conn =
  cn_eof :: bool
  cn_dead :: "string list \<Rightarrow> bool"

text \<open>
  \<open>bufio.Reader.ReadString\<close> up to a line feed: the line, or nothing after a read error, and the
  segments left. With the error the bytes read so far are gone.
\<close>

fun ReadString :: "string list \<Rightarrow> string option \<times> string list" where
  "ReadString [] = (None, [])"
| "ReadString (seg # segs) =
     (case IndexByte seg CHR 0x0A of
        None \<Rightarrow> (None, segs)
      | Some i \<Rightarrow> (Some (take (Suc i) seg), drop (Suc i) seg # segs))"

text \<open>The error after which nothing follows: end of file, if the connection ends with it.\<close>

definition at_eof :: "conn \<Rightarrow> string list \<Rightarrow> bool" where
  "at_eof cn input \<longleftrightarrow> cn_eof cn \<and> length input \<le> 1"

definition input_size :: "string list \<Rightarrow> nat" where
  "input_size input = sum_list (map (\<lambda>seg. Suc (length seg)) input)"

lemma input_size_simps [simp]: "input_size [] = 0" "input_size (seg # segs) = Suc (length seg) + input_size segs"
  by (simp_all add: input_size_def)

lemma IndexByte_less: "IndexByte s c = Some i \<Longrightarrow> i < length s"
  by (induction s arbitrary: i) (auto split: if_splits option.splits)

lemma ReadString_shorter: "ReadString input = (Some line, rest) \<Longrightarrow> input_size rest < input_size input"
  by (cases input) (auto dest!: IndexByte_less split: option.splits)

lemma ReadString_error: "ReadString input = (None, rest) \<Longrightarrow> rest = tl input"
  by (cases input) (auto split: option.splits)

lemma input_size_tl: "input_size (tl input) \<le> input_size input"
  by (cases input) auto

lemma ReadString_line:
  "CHR 0x0A \<notin> set l \<Longrightarrow> ReadString ((l @ CHR 0x0A # rest) # segs) = (Some (l @ [CHR 0x0A]), rest # segs)"
  by simp

section \<open>The data of a message\<close>

text \<open>
  \<open>readData\<close>: the message or an error, and what is left of the input. (The text of a read error is
  shown nowhere.)
\<close>

function readData :: "int \<Rightarrow> string \<Rightarrow> string list \<Rightarrow> string result \<times> string list" where
  "readData mx buf input =
     (case ReadString input of
        (None, rest) \<Rightarrow> (Inl (ErrorString ''read error''), rest)
      | (Some line, rest) \<Rightarrow>
          if line = [CHR ''.'', CHR 0x0D, CHR 0x0A] \<or> line = [CHR ''.'', CHR 0x0A] then (Inr buf, rest)
          else
            (let line1 = (if HasPrefix line ''..'' then drop 1 line else line) in
             if int (length buf + length line1) > mx then (Inl (ErrorString ''too large''), rest)
             else readData mx (buf @ line1) rest))"
  by pat_completeness auto
termination
  by (relation "measure (\<lambda>(m, b, i). input_size i)") (auto dest: ReadString_shorter [OF sym])

declare readData.simps [simp del]

lemma readData_None:
  "ReadString input = (None, rest) \<Longrightarrow> readData mx buf input = (Inl (ErrorString ''read error''), rest)"
  by (subst readData.simps) simp

lemma readData_line:
  "ReadString input = (Some line, rest) \<Longrightarrow> readData mx buf input =
     (if line = [CHR ''.'', CHR 0x0D, CHR 0x0A] \<or> line = [CHR ''.'', CHR 0x0A] then (Inr buf, rest)
      else
        (let line1 = (if HasPrefix line ''..'' then drop 1 line else line) in
         if int (length buf + length line1) > mx then (Inl (ErrorString ''too large''), rest)
         else readData mx (buf @ line1) rest))"
  by (subst readData.simps) simp

text \<open>The two ways a read can go, for case distinctions.\<close>

lemma ReadString_cases:
  obtains (error) rest where "ReadString input = (None, rest)" "input_size rest \<le> input_size input"
    | (line) l rest where "ReadString input = (Some l, rest)" "input_size rest < input_size input"
proof (cases "ReadString input")
  case (Pair r rest)
  then show ?thesis
    using that ReadString_shorter ReadString_error input_size_tl by (cases r) (metis, blast)
qed

lemma readData_shorter: "input_size (snd (readData mx buf input)) \<le> input_size input"
proof (induction mx buf input rule: readData.induct)
  case (1 mx buf input)
  show ?case
  proof (cases rule: ReadString_cases [of input])
    case (line l rest)
    then show ?thesis
      using 1 [OF line(1) [symmetric] refl] by (auto simp: readData_line Let_def intro: order_trans less_imp_le)
  qed (simp add: readData_None)
qed

section \<open>Addresses\<close>

definition extractSMTPPath :: "string \<Rightarrow> string" where
  "extractSMTPPath v = TrimSpace (Trim (TrimSpace v) ''<>'')"

definition isAllowedRecipient :: "golib \<Rightarrow> string \<Rightarrow> string \<Rightarrow> bool" where
  "isAllowedRecipient L addr allowed =
     HasSuffix (Trim (TrimSpace (ToLower L addr)) ''<>'') (''@'' @ ToLower L (TrimSpace allowed))"

section \<open>The session\<close>

record Server =
  srv_domain :: string
  srv_maxBytes :: int

datatype event = Reply string | Relayed string string "error option"

record session =
  rcpts :: "string list"
  authenticated :: bool
  events :: "event list"

definition writeLine :: "string \<Rightarrow> session \<Rightarrow> session" where
  "writeLine l se = se\<lparr>events := events se @ [Reply l]\<rparr>"

text \<open>The loop over the recipients, which stops at the first failure.\<close>

fun relay_all ::
  "'w service \<Rightarrow> context_values \<Rightarrow> string \<Rightarrow> string list \<Rightarrow> session \<Rightarrow> 'w sys \<Rightarrow> bool \<times> session \<times> 'w sys" where
  "relay_all S ctx raw [] se s = (False, se, s)"
| "relay_all S ctx raw (rcpt # rs) se s =
     (case Relay S ctx rcpt raw s of
        (r, s1) \<Rightarrow>
          (let se1 = se\<lparr>events := events se @ [Relayed rcpt raw r]\<rparr> in
           if r \<noteq> None then (True, se1, s1) else relay_all S ctx raw rs se1 s1))"

text \<open>What follows a command: the next line, the end of the session, or a panic.\<close>

datatype after = Continue | Finish | Panic

definition rcpt_command ::
  "Server \<Rightarrow> 'w service \<Rightarrow> string \<Rightarrow> session \<Rightarrow> 'w sys \<Rightarrow> after \<times> session" where
  "rcpt_command V S cmd se s =
     (if length cmd < 8 then (Panic, se)
      else
        let addr = extractSMTPPath (drop 8 cmd) in
        (Continue,
         if addr = [] then writeLine ''501 bad recipient'' se
         else if \<not> isAllowedRecipient (s_lib S) addr (srv_domain V)
           then writeLine ''550 recipient domain is not allowed'' se
         else
           (case Parse (s_lib S) (sys_parser s) addr of
              Inl _ \<Rightarrow> writeLine ''550 recipient is invalid'' se
            | Inr _ \<Rightarrow> writeLine ''250 OK'' (se\<lparr>rcpts := rcpts se @ [addr]\<rparr>))))"

definition data_command ::
  "Server \<Rightarrow> 'w service \<Rightarrow> context_values \<Rightarrow> string list \<Rightarrow> session \<Rightarrow> 'w sys \<Rightarrow> string list \<times> session \<times> 'w sys" where
  "data_command V S ctx input se s =
     (if rcpts se = [] then (input, writeLine ''503 need RCPT TO first'' se, s)
      else
        let se1 = writeLine ''354 End data with <CR><LF>.<CR><LF>'' se in
        (case readData (srv_maxBytes V) [] input of
           (Inl _, rest) \<Rightarrow> (rest, writeLine ''552 message exceeds fixed maximum message size'' se1, s)
         | (Inr raw, rest) \<Rightarrow>
             (case relay_all S ctx raw (rcpts se1) se1 s of
                (failed1, se2, s2) \<Rightarrow>
                  if failed1 then (rest, writeLine ''451 relay failure'' se2, s2)
                  else (rest, writeLine ''250 OK'' se2, s2))))"

text \<open>One command: what follows, the input left, the session and the state.\<close>

definition command ::
  "Server \<Rightarrow> 'w service \<Rightarrow> context_values \<Rightarrow> string \<Rightarrow> string list \<Rightarrow> session \<Rightarrow> 'w sys
     \<Rightarrow> after \<times> string list \<times> session \<times> 'w sys" where
  "command V S ctx line input se s =
     (let cmd = TrimSpace line; ucmd = ToUpper (s_lib S) cmd in
      if HasPrefix ucmd ''EHLO'' then
        (Continue, input,
         writeLine (''250 SIZE '' @ FormatInt (srv_maxBytes V)) (writeLine ''250-AUTH PLAIN'' (writeLine ''250-Hello'' se)), s)
      else if HasPrefix ucmd ''HELO'' then (Continue, input, writeLine ''250 Hello'' se, s)
      else if HasPrefix ucmd ''AUTH PLAIN'' then
        (Continue, input, writeLine ''235 2.7.0 Authentication successful'' (se\<lparr>authenticated := True\<rparr>), s)
      else if HasPrefix ucmd ''MAIL FROM:'' then
        (Continue, input, writeLine ''250 OK'' (se\<lparr>rcpts := []\<rparr>), s)
      else if HasPrefix ucmd ''RCPT TO:'' then
        (case rcpt_command V S cmd se s of (a, se1) \<Rightarrow> (a, input, se1, s))
      else if ucmd = ''DATA'' then
        (case data_command V S ctx input se s of (rest, se1, s1) \<Rightarrow> (Continue, rest, se1, s1))
      else if ucmd = ''RSET'' then (Continue, input, writeLine ''250 OK'' (se\<lparr>rcpts := []\<rparr>), s)
      else if ucmd = ''NOOP'' then (Continue, input, writeLine ''250 OK'' se, s)
      else if ucmd = ''QUIT'' then (Finish, input, writeLine ''221 Bye'' se, s)
      else (Continue, input, writeLine ''502 command not implemented'' se, s))"

lemma data_command_shorter: "input_size (fst (data_command V S ctx input se s)) \<le> input_size input"
  using readData_shorter [of "srv_maxBytes V" "[]" input]
  by (auto simp: data_command_def Let_def split: prod.splits sum.splits)

lemma command_shorter: "command V S ctx line input se s = (a, rest, se', s') \<Longrightarrow> input_size rest \<le> input_size input"
  using data_command_shorter [of V S ctx input se s]
  by (auto simp: command_def Let_def split: if_splits prod.splits)

text \<open>The loop of \<open>handleConn\<close> over the lines.\<close>

function session_loop ::
  "Server \<Rightarrow> 'w service \<Rightarrow> context_values \<Rightarrow> conn \<Rightarrow> string list \<Rightarrow> session \<Rightarrow> 'w sys \<Rightarrow> after \<times> session \<times> 'w sys" where
  "session_loop V S ctx cn input se s =
     (if cn_dead cn input then (Finish, se, s)
      else
        (case ReadString input of
           (None, _) \<Rightarrow> (Finish, (if at_eof cn input then se else writeLine ''421 read error'' se), s)
         | (Some line, rest) \<Rightarrow>
             (case command V S ctx line rest se s of
                (Continue, rest1, se1, s1) \<Rightarrow> session_loop V S ctx cn rest1 se1 s1
              | (a, _, se1, s1) \<Rightarrow> (a, se1, s1))))"
  by pat_completeness auto
termination
  by (relation "measure (\<lambda>(V, S, c, cn, i, se, s). input_size i)")
    (auto dest!: ReadString_shorter [OF sym] command_shorter [OF sym])

declare session_loop.simps [simp del]

definition new_session :: session where
  "new_session = \<lparr>rcpts = [], authenticated = False, events = []\<rparr>"

definition handleConn ::
  "Server \<Rightarrow> 'w service \<Rightarrow> context_values \<Rightarrow> conn \<Rightarrow> u64 \<Rightarrow> string list \<Rightarrow> 'w sys \<Rightarrow> after \<times> session \<times> 'w sys" where
  "handleConn V S ctx cn sessionID input s =
     session_loop V S (WithRequestID ctx (''smtp-'' @ FormatInt (uint sessionID))) cn input
       (writeLine ''220 smtp-to-max-relay ESMTP'' new_session) s"

section \<open>Messages arrive as they were sent\<close>

text \<open>A line with its line feed, and what RFC 5321 makes a client send for it.\<close>

definition is_line :: "string \<Rightarrow> bool" where
  "is_line l \<longleftrightarrow> (\<exists>t. l = t @ [CHR 0x0A] \<and> CHR 0x0A \<notin> set t)"

definition dot_stuff :: "string \<Rightarrow> string" where
  "dot_stuff l = (if HasPrefix l ''.'' then ''.'' @ l else l)"

definition end_of_data :: string where
  "end_of_data = [CHR ''.'', CHR 0x0D, CHR 0x0A]"

lemma ReadString_is_line: "is_line l \<Longrightarrow> ReadString ((l @ rest) # segs) = (Some l, rest # segs)"
  by (auto simp: is_line_def ReadString_line simp del: ReadString.simps)

lemma is_line_stuff: "is_line l \<Longrightarrow> is_line (dot_stuff l)"
  by (auto simp: is_line_def dot_stuff_def intro: exI [of _ "CHR ''.'' # t" for t])

lemma stuffed_not_end:
  "dot_stuff l \<noteq> [CHR ''.'', CHR 0x0D, CHR 0x0A]" "dot_stuff l \<noteq> [CHR ''.'', CHR 0x0A]"
  by (auto simp: dot_stuff_def HasPrefix_iff)

lemma unstuff: "(if HasPrefix (dot_stuff l) ''..'' then drop 1 (dot_stuff l) else dot_stuff l) = l"
  by (auto simp: dot_stuff_def HasPrefix_iff)

lemma readData_stuffed:
  "\<forall>l \<in> set ls. is_line l \<Longrightarrow> int (length buf + length (concat ls)) \<le> mx \<Longrightarrow>
     readData mx buf ((concat (map dot_stuff ls) @ end_of_data @ rest) # segs) = (Inr (buf @ concat ls), rest # segs)"
proof (induction ls arbitrary: buf)
  case Nil
  have "is_line end_of_data"
    by (auto simp: is_line_def end_of_data_def intro: exI [of _ "[CHR ''.'', CHR 0x0D]"])
  from ReadString_is_line [OF this, of rest segs] show ?case
    by (simp add: readData_line end_of_data_def del: ReadString.simps)
next
  case (Cons l ls)
  let ?rest = "concat (map dot_stuff ls) @ end_of_data @ rest"
  have "is_line (dot_stuff l)" using Cons.prems(1) by (simp add: is_line_stuff)
  then have "ReadString ((dot_stuff l @ ?rest) # segs) = (Some (dot_stuff l), ?rest # segs)" by (rule ReadString_is_line)
  then have "readData mx buf ((dot_stuff l @ ?rest) # segs) = readData mx (buf @ l) (?rest # segs)"
    using Cons.prems(2) by (simp add: readData_line stuffed_not_end unstuff Let_def del: ReadString.simps)
  then show ?case using Cons.IH [of "buf @ l"] Cons.prems by simp
qed

text \<open>
  C21: Transparency of the data phase: a message of complete lines that fits the limit, sent with
  leading dots doubled and ended by a lone dot, is received byte for byte, and reading stops
  exactly after the end mark.
\<close>

theorem data_roundtrip:
  assumes "list_all is_line ls" and "int (length (concat ls)) \<le> mx"
  shows "readData mx [] ((concat (map dot_stuff ls) @ end_of_data @ rest) # segs) = (Inr (concat ls), rest # segs)"
  using readData_stuffed [of ls "[]" mx rest segs] assms by (simp add: list_all_iff)

theorem data_roundtrip_witness:
  "readData 100 [] [concat (map dot_stuff [''.x'' @ [CHR 0x0D, CHR 0x0A], ''y'' @ [CHR 0x0A]]) @ end_of_data @ ''QUIT'']
     = (Inr (''.x'' @ [CHR 0x0D, CHR 0x0A] @ ''y'' @ [CHR 0x0A]), [''QUIT''])"
proof -
  have "is_line (''.x'' @ [CHR 0x0D, CHR 0x0A])" "is_line (''y'' @ [CHR 0x0A])"
    by (auto simp: is_line_def)
  then show ?thesis
    using data_roundtrip [of "[''.x'' @ [CHR 0x0D, CHR 0x0A], ''y'' @ [CHR 0x0A]]" 100 "''QUIT''" "[]"] by simp
qed

lemma readData_bound:
  "readData mx buf input = (Inr raw, rest) \<Longrightarrow> int (length buf) \<le> mx \<Longrightarrow> int (length raw) \<le> mx"
proof (induction mx buf input rule: readData.induct)
  case (1 mx buf input)
  show ?case
  proof (cases rule: ReadString_cases [of input])
    case (line l r)
    then show ?thesis
      using 1(1) [OF line(1) [symmetric] refl] 1(2,3) by (auto simp: readData_line Let_def not_less split: if_splits)
  qed (use 1 in \<open>simp add: readData_None\<close>)
qed

section \<open>Invariants of a session\<close>

text \<open>A property of the session that every command keeps holds at its end.\<close>

lemma session_loop_inv:
  assumes "\<And>line input se s a rest se' s'. I se s \<Longrightarrow> command V S ctx line input se s = (a, rest, se', s') \<Longrightarrow> I se' s'"
    and "\<And>se s. I se s \<Longrightarrow> I (writeLine ''421 read error'' se) s"
  shows "I se s \<Longrightarrow> session_loop V S ctx cn input se s = (a, se', s') \<Longrightarrow> I se' s'"
proof (induction "input_size input" arbitrary: input se s rule: less_induct)
  case less
  show ?case
  proof (cases "cn_dead cn input \<or> fst (ReadString input) = None")
    case True
    then have "session_loop V S ctx cn input se s =
        (Finish, (if cn_dead cn input \<or> at_eof cn input then se else writeLine ''421 read error'' se), s)"
      by (subst session_loop.simps) (auto split: prod.splits)
    then show ?thesis using less(2,3) assms(2) by (auto split: if_splits)
  next
    case False
    then obtain line rest where l: "ReadString input = (Some line, rest)" by (cases "ReadString input") auto
    obtain b rest1 se1 s1 where c: "command V S ctx line rest se s = (b, rest1, se1, s1)" by (metis surj_pair)
    have I1: "I se1 s1" by (rule assms(1) [OF less(2) c])
    have "input_size rest1 < input_size input" using ReadString_shorter [OF l] command_shorter [OF c] by simp
    then have IH: "session_loop V S ctx cn rest1 se1 s1 = (a, se', s') \<Longrightarrow> I se' s'" using less(1) I1 by blast
    have "session_loop V S ctx cn input se s =
        (case b of Continue \<Rightarrow> session_loop V S ctx cn rest1 se1 s1 | _ \<Rightarrow> (b, se1, s1))"
      using False l c by (subst session_loop.simps) (auto split: after.splits)
    then show ?thesis using less(3) I1 IH by (cases b) auto
  qed
qed

definition accepted :: "Server \<Rightarrow> 'w service \<Rightarrow> rcpt_parser \<Rightarrow> string \<Rightarrow> bool" where
  "accepted V S p r \<longleftrightarrow> isAllowedRecipient (s_lib S) r (srv_domain V) \<and> (\<exists>pr. Parse (s_lib S) p r = Inr pr)"

definition session_ok :: "Server \<Rightarrow> 'w service \<Rightarrow> rcpt_parser \<Rightarrow> session \<Rightarrow> 'w sys \<Rightarrow> bool" where
  "session_ok V S p se s \<longleftrightarrow> sys_parser s = p \<and> (\<forall>r \<in> set (rcpts se). accepted V S p r)
     \<and> (\<forall>r raw res. Relayed r raw res \<in> set (events se) \<longrightarrow> accepted V S p r \<and> int (length raw) \<le> srv_maxBytes V)"

lemma session_ok_reply [simp]: "session_ok V S p (writeLine l se) s = session_ok V S p se s"
  by (auto simp: session_ok_def writeLine_def)

lemma session_ok_fields:
  "session_ok V S p se s \<Longrightarrow> session_ok V S p (se\<lparr>authenticated := a\<rparr>) s"
  "session_ok V S p se s \<Longrightarrow> session_ok V S p (se\<lparr>rcpts := []\<rparr>) s"
  "session_ok V S p se s \<Longrightarrow> accepted V S p r \<Longrightarrow> session_ok V S p (se\<lparr>rcpts := rcpts se @ [r]\<rparr>) s"
  by (auto simp: session_ok_def)

lemma relay_all_ok:
  "relay_all S ctx raw rs se s = (f, se', s') \<Longrightarrow> session_ok V S p se s \<Longrightarrow> \<forall>r \<in> set rs. accepted V S p r \<Longrightarrow>
     int (length raw) \<le> srv_maxBytes V \<Longrightarrow> session_ok V S p se' s'"
proof (induction rs arbitrary: se s)
  case (Cons r rs)
  obtain res s1 where 1: "Relay S ctx r raw s = (res, s1)" by fastforce
  let ?se = "se\<lparr>events := events se @ [Relayed r raw res]\<rparr>"
  have "session_ok V S p ?se s1"
    using Cons.prems(2-4) Relay_parser [OF 1] by (auto simp: session_ok_def)
  then show ?case
    using Cons.prems Cons.IH [of ?se s1] 1 by (auto simp: Let_def split: if_splits)
qed simp

lemma command_ok:
  assumes "0 \<le> srv_maxBytes V" "session_ok V S p se s" "command V S ctx line input se s = (a, rest, se', s')"
  shows "session_ok V S p se' s'"
proof -
  have r: "session_ok V S p se1 s" if "rcpt_command V S cmd se s = (b, se1)" for cmd b se1
  proof -
    have p: "sys_parser s = p" using assms(2) by (simp add: session_ok_def)
    show ?thesis
      using that assms(2) session_ok_fields(3) [OF assms(2), of "extractSMTPPath (drop 8 cmd)"]
      by (auto simp: rcpt_command_def Let_def accepted_def p split: if_splits sum.splits)
  qed
  have d: "session_ok V S p se1 s1" if "data_command V S ctx input se s = (rst, se1, s1)" for rst se1 s1
  proof (cases "rcpts se = []")
    case False
    obtain q i where q: "readData (srv_maxBytes V) [] input = (q, i)" by fastforce
    let ?se = "writeLine ''354 End data with <CR><LF>.<CR><LF>'' se"
    show ?thesis
    proof (cases q)
      case (Inr raw)
      obtain f se2 s2 where ra: "relay_all S ctx raw (rcpts ?se) ?se s = (f, se2, s2)" by (metis surj_pair)
      have "session_ok V S p ?se s" "\<forall>r \<in> set (rcpts ?se). accepted V S p r"
        using assms(2) by simp_all (simp add: session_ok_def writeLine_def)
      moreover have "int (length raw) \<le> srv_maxBytes V"
        using readData_bound [of "srv_maxBytes V" "[]" input raw i] q Inr assms(1) by simp
      ultimately have "session_ok V S p se2 s2" by (rule relay_all_ok [OF ra])
      then show ?thesis using that False q Inr ra by (auto simp: data_command_def Let_def split: if_splits)
    qed (use that False q assms(2) in \<open>auto simp: data_command_def Let_def\<close>)
  qed (use that assms(2) in \<open>auto simp: data_command_def\<close>)
  show ?thesis
    using assms(2,3) r d session_ok_fields
    by (auto simp: command_def Let_def split: if_splits prod.splits)
qed

text \<open>
  C4: A session relays only what it may: every call of \<open>Relay\<close> is for a recipient in the allowed
  domain that the recipient parser accepts, with a message within the size limit, whatever the
  client sends and in whatever order.
\<close>

theorem session_relays_allowed:
  assumes "0 \<le> srv_maxBytes V" and "handleConn V S ctx cn sid input s = (a, se, s')"
  shows "list_all (\<lambda>e. case e of
      Reply _ \<Rightarrow> True
    | Relayed r raw res \<Rightarrow> isAllowedRecipient (s_lib S) r (srv_domain V)
        \<and> (\<exists>pr. Parse (s_lib S) (sys_parser s) r = Inr pr) \<and> int (length raw) \<le> srv_maxBytes V) (events se)"
proof -
  let ?ctx = "WithRequestID ctx (''smtp-'' @ FormatInt (uint sid))"
  have init: "session_ok V S (sys_parser s) (writeLine ''220 smtp-to-max-relay ESMTP'' new_session) s"
    by (simp only: session_ok_reply) (simp add: session_ok_def new_session_def)
  have loop: "session_loop V S ?ctx cn input (writeLine ''220 smtp-to-max-relay ESMTP'' new_session) s = (a, se, s')"
    using assms(2) by (simp add: handleConn_def)
  have "session_ok V S (sys_parser s) se s'"
  proof (rule session_loop_inv [where I = "session_ok V S (sys_parser s)", OF _ _ init loop])
    show "session_ok V S (sys_parser s) se2 s2"
      if "session_ok V S (sys_parser s) se1 s1" "command V S ?ctx line i se1 s1 = (b, rest, se2, s2)"
      for line i se1 s1 b rest se2 s2
      by (rule command_ok [OF assms(1) that])
  qed simp
  then show ?thesis
    unfolding session_ok_def accepted_def list_all_iff by (auto split: event.splits) blast
qed

definition demo_server :: Server where
  "demo_server = \<lparr>srv_domain = ''d'', srv_maxBytes = 100\<rparr>"

definition demo_conn :: conn where
  "demo_conn = \<lparr>cn_eof = True, cn_dead = (\<lambda>_. False)\<rparr>"

theorem session_relays_allowed_witness:
  "list_all (\<lambda>e. case e of
      Reply _ \<Rightarrow> True
    | Relayed r raw res \<Rightarrow> isAllowedRecipient ascii_golib r ''d''
        \<and> (\<exists>pr. Parse ascii_golib (sys_parser (demo_sys ())) r = Inr pr) \<and> int (length raw) \<le> 100)
     (events (fst (snd (handleConn demo_server (demo_service calm) Background demo_conn 1
        [''RCPT TO:<chatid12@d>'' @ [CHR 0x0A] @ ''DATA'' @ [CHR 0x0A] @ ''hi'' @ [CHR 0x0A] @ end_of_data] (demo_sys ())))))"
proof -
  let ?i = "[''RCPT TO:<chatid12@d>'' @ [CHR 0x0A] @ ''DATA'' @ [CHR 0x0A] @ ''hi'' @ [CHR 0x0A] @ end_of_data]"
  obtain a se s' where h: "handleConn demo_server (demo_service calm) Background demo_conn 1 ?i (demo_sys ()) = (a, se, s')"
    by (metis surj_pair)
  have "0 \<le> srv_maxBytes demo_server" by (simp add: demo_server_def)
  moreover have sel: "srv_domain demo_server = ''d''" "srv_maxBytes demo_server = 100" by (simp_all add: demo_server_def)
  ultimately show ?thesis
    using session_relays_allowed [OF _ h] unfolding h sel demo_service_sel fst_conv snd_conv by blast
qed

section \<open>Replies\<close>

lemma relay_all_events:
  "relay_all S ctx raw rs se s = (f, se', s') \<Longrightarrow> rcpts se' = rcpts se \<and>
     (\<exists>evs. events se' = events se @ evs \<and>
       (if f then \<exists>pre r err post. rs = pre @ r # post
          \<and> evs = map (\<lambda>r. Relayed r raw None) pre @ [Relayed r raw (Some err)]
        else evs = map (\<lambda>r. Relayed r raw None) rs))"
proof (induction rs arbitrary: se s)
  case (Cons r rs)
  obtain res s1 where 1: "Relay S ctx r raw s = (res, s1)" by fastforce
  let ?se = "se\<lparr>events := events se @ [Relayed r raw res]\<rparr>"
  show ?case
  proof (cases res)
    case (Some err)
    then have "f" "se' = ?se" using Cons.prems 1 by (auto simp: Let_def)
    then show ?thesis using Some by (auto intro!: exI [of _ "[]"] exI [of _ r] exI [of _ err])
  next
    case None
    then have "relay_all S ctx raw rs ?se s1 = (f, se', s')" using Cons.prems 1 by (simp add: Let_def)
    from Cons.IH [OF this] obtain evs where e: "rcpts se' = rcpts se" "events se' = events se @ Relayed r raw None # evs"
      "if f then \<exists>pre q err post. rs = pre @ q # post
          \<and> evs = map (\<lambda>r. Relayed r raw None) pre @ [Relayed q raw (Some err)]
        else evs = map (\<lambda>r. Relayed r raw None) rs"
      using None by auto
    show ?thesis
    proof (cases f)
      case True
      then obtain pre q err post where "rs = pre @ q # post"
        "evs = map (\<lambda>r. Relayed r raw None) pre @ [Relayed q raw (Some err)]" using e(3) by auto
      then have "r # rs = (r # pre) @ q # post"
        "Relayed r raw None # evs = map (\<lambda>r. Relayed r raw None) (r # pre) @ [Relayed q raw (Some err)]" by simp_all
      then show ?thesis using e(1,2) True unfolding if_P [OF True] by blast
    qed (use e in auto)
  qed
qed simp

text \<open>
  \<open>DATA\<close> is answered truthfully: without recipients it is refused; otherwise, after the
  go-ahead, the message read is relayed to the recipients in order until one fails, and the
  client is told 250 exactly if it was relayed to all of them, 451 if one failed, and 552 if
  the message could not be read, when nothing was relayed.
\<close>

lemma data_command_answers:
  "case data_command V S ctx input se s of (rest, se', s') \<Rightarrow>
     rcpts se' = rcpts se \<and>
     (if rcpts se = [] then rest = input \<and> s' = s \<and> events se' = events se @ [Reply ''503 need RCPT TO first'']
      else \<exists>evs reply. events se' = events se @ [Reply ''354 End data with <CR><LF>.<CR><LF>''] @ evs @ [Reply reply] \<and>
        (case readData (srv_maxBytes V) [] input of
           (Inl _, left) \<Rightarrow> rest = left \<and> s' = s \<and> evs = [] \<and> reply = ''552 message exceeds fixed maximum message size''
         | (Inr raw, left) \<Rightarrow> rest = left \<and>
             (if reply = ''250 OK'' then evs = map (\<lambda>r. Relayed r raw None) (rcpts se)
              else reply = ''451 relay failure'' \<and>
                (\<exists>pre r err post. rcpts se = pre @ r # post
                   \<and> evs = map (\<lambda>r. Relayed r raw None) pre @ [Relayed r raw (Some err)]))))"
proof (cases "rcpts se = []")
  case True
  then show ?thesis by (simp add: data_command_def writeLine_def)
next
  case False
  let ?se = "writeLine ''354 End data with <CR><LF>.<CR><LF>'' se"
  obtain q left where q: "readData (srv_maxBytes V) [] input = (q, left)" by fastforce
  show ?thesis
  proof (cases q)
    case (Inl e)
    then show ?thesis using False q by (simp add: data_command_def writeLine_def)
  next
    case (Inr raw)
    obtain f se2 s2 where ra: "relay_all S ctx raw (rcpts ?se) ?se s = (f, se2, s2)" by (metis surj_pair)
    have "data_command V S ctx input se s =
        (left, writeLine (if f then ''451 relay failure'' else ''250 OK'') se2, s2)"
      using False q Inr ra by (simp add: data_command_def Let_def)
    then show ?thesis
      using relay_all_events [OF ra] False q Inr by (auto simp: writeLine_def split: if_splits)
  qed
qed

section \<open>No panic\<close>

text \<open>
  \<open>RCPT TO:\<close> is recognised in the upper-cased command but cut from the command itself, which is
  safe as long as no rune beyond ASCII upper-cases to one of its bytes (in Unicode only the
  dotless i and the long s upper-case to ASCII letters).
\<close>

definition no_rune_uppers_to :: "golib \<Rightarrow> string \<Rightarrow> bool" where
  "no_rune_uppers_to L p \<longleftrightarrow> (\<forall>r \<ge> 128. unicode_ToUpper L r \<notin> byte ` set p)"

lemma HasPrefix_ToUpper_length:
  assumes "no_rune_uppers_to L p" "is_ascii p" "HasPrefix (ToUpper L s) p"
  shows "length p \<le> length s"
proof (cases "is_ascii s")
  case True
  then show ?thesis using HasPrefix_length [OF assms(3)] by (simp add: ToUpper_def)
next
  case False
  then obtain q where "strings_Map (upper_rune L) s = p @ q"
    using assms(3) by (auto simp: ToUpper_def HasPrefix_iff)
  then show ?thesis
    using strings_Map_ascii_prefix [of "upper_rune L" p s q] assms(1,2)
    by (auto simp: no_rune_uppers_to_def upper_rune_def)
qed

lemma command_no_panic:
  assumes "no_rune_uppers_to (s_lib S) ''RCPT TO:''" "command V S ctx line input se s = (a, rest, se', s')"
  shows "a \<noteq> Panic"
proof -
  have "is_ascii ''RCPT TO:''" by code_simp
  then have "8 \<le> length (TrimSpace line)" if "HasPrefix (ToUpper (s_lib S) (TrimSpace line)) ''RCPT TO:''"
    using HasPrefix_ToUpper_length [OF assms(1) _ that] by simp
  then have "fst (rcpt_command V S (TrimSpace line) se s) \<noteq> Panic"
    if "HasPrefix (ToUpper (s_lib S) (TrimSpace line)) ''RCPT TO:''"
    using that by (simp add: rcpt_command_def Let_def)
  then show ?thesis
    using assms(2) by (auto simp: command_def Let_def split: if_splits prod.splits)
qed

text \<open>
  C22: A session always comes to an end and never panics, whatever bytes the client sends.
\<close>

theorem session_never_panics:
  assumes "no_rune_uppers_to (s_lib S) ''RCPT TO:''"
  shows "fst (handleConn V S ctx cn sid input s) = Finish"
proof -
  have "fst (session_loop V S c cn input se s) = Finish" for c se s
  proof (induction "input_size input" arbitrary: input se s rule: less_induct)
    case less
    show ?case
    proof (cases "cn_dead cn input \<or> fst (ReadString input) = None")
      case True
      then show ?thesis by (subst session_loop.simps) (auto split: prod.splits)
    next
      case False
      then obtain line rest where l: "ReadString input = (Some line, rest)" by (cases "ReadString input") auto
      obtain b rest1 se1 s1 where c: "command V S c line rest se s = (b, rest1, se1, s1)" by (metis surj_pair)
      have "input_size rest1 < input_size input" using ReadString_shorter [OF l] command_shorter [OF c] by simp
      then have "fst (session_loop V S c cn rest1 se1 s1) = Finish" using less by blast
      then show ?thesis
        using False l c command_no_panic [OF assms c]
        by (subst session_loop.simps) (cases b; simp)
    qed
  qed
  then show ?thesis by (simp add: handleConn_def)
qed

theorem session_never_panics_witness:
  "fst (handleConn demo_server (demo_service calm) Background demo_conn 1 [''RCPT''] (demo_sys ())) = Finish"
proof -
  have "no_rune_uppers_to (s_lib (demo_service calm)) ''RCPT TO:''"
    by (auto simp: no_rune_uppers_to_def ascii_golib_def)
  then show ?thesis by (rule session_never_panics)
qed

section \<open>Oversized messages\<close>

text \<open>
  A message over the limit is refused in the middle: reading stops right after the line that
  exceeds the limit, and since nothing skips the rest of the message, the session goes on with
  the lines that follow as if they were commands.
\<close>

lemma oversized_stops_midway:
  assumes "is_line l" and "\<not> HasPrefix l ''.''" and "mx < int (length l)" and "rcpts se \<noteq> []" and "srv_maxBytes V = mx"
  shows "data_command V S ctx ((l @ rest) # segs) se s =
    (rest # segs, writeLine ''552 message exceeds fixed maximum message size''
       (writeLine ''354 End data with <CR><LF>.<CR><LF>'' se), s)"
proof -
  have "\<not> HasPrefix l ''..''" "l \<noteq> [CHR ''.'', CHR 0x0D, CHR 0x0A]" "l \<noteq> [CHR ''.'', CHR 0x0A]"
    using assms(2) by (auto simp: HasPrefix_iff)
  then have "readData mx [] ((l @ rest) # segs) = (Inl (ErrorString ''too large''), rest # segs)"
    using assms(3) ReadString_is_line [OF assms(1), of rest segs] by (simp add: readData_line Let_def del: ReadString.simps)
  then show ?thesis using assms(4,5) by (simp add: data_command_def)
qed

text \<open>
  So does a read error in the data phase, a timeout: the session answers as if the message were
  too large, relays nothing, drops what it had of the message and goes on with what arrives next.
\<close>

lemma timeout_in_data:
  assumes "CHR 0x0A \<notin> set seg" and "rcpts se \<noteq> []"
  shows "data_command V S ctx (seg # segs) se s =
    (segs, writeLine ''552 message exceeds fixed maximum message size''
       (writeLine ''354 End data with <CR><LF>.<CR><LF>'' se), s)"
proof -
  have "IndexByte seg CHR 0x0A = None" using assms(1) by (simp add: IndexByte_None)
  then have "ReadString (seg # segs) = (None, segs)" by simp
  then have "readData (srv_maxBytes V) [] (seg # segs) = (Inl (ErrorString ''read error''), segs)"
    by (rule readData_None)
  then show ?thesis using assms(2) by (simp add: data_command_def)
qed

end
