(* ===== verification/Smtp_Accept.thy ===== *)
theory Smtp_Accept
  imports Go_Conv
begin

text \<open>
  \<open>ListenAndServe\<close> of \<open>internal/smtp/server.go\<close>: the accept loop, the semaphore that bounds the
  number of sessions, and the shutdown. The loop and the sessions are goroutines, so the model
  is a step relation over their interleavings; the session itself, \<open>handleConn\<close>, is the theory
  \<open>Smtp\<close> and here a phase of its goroutine.

  The channel \<open>concurrency\<close> is the number of values in it. The goroutines started so far are a
  list, in the order they were started.
\<close>

section \<open>The step relation\<close>

text \<open>A session's goroutine: its deferred calls close the connection, free the slot and report to the wait group.\<close>

datatype session_phase = Serving | ConnClosed | SlotReleased | Ended

text \<open>
  The accept loop: waiting for a connection, waiting for a slot for one it has, waiting for the
  sessions with the result it will return, or returned.
\<close>

datatype accept_phase = Accepting | Admitting | Draining "error option" | Returned "error option"

record accept_state =
  loop :: accept_phase
  concurrency :: nat
  sessionSeq :: u64
  wg :: nat
  sessions :: "(u64 \<times> session_phase) list"
  cancelled :: bool
  listening :: bool

definition accept_init :: accept_state where
  "accept_init = \<lparr>loop = Accepting, concurrency = 0, sessionSeq = 0, wg = 0, sessions = [],
     cancelled = False, listening = True\<rparr>"

definition set_session :: "nat \<Rightarrow> session_phase \<Rightarrow> accept_state \<Rightarrow> accept_state" where
  "set_session i p s = s\<lparr>sessions := (sessions s)[i := (fst (sessions s ! i), p)]\<rparr>"

inductive accept_step :: "nat \<Rightarrow> accept_state \<Rightarrow> accept_state \<Rightarrow> bool" for cap where
  cancel: "accept_step cap s (s\<lparr>cancelled := True\<rparr>)"
| close_listener: "cancelled s \<Longrightarrow> accept_step cap s (s\<lparr>listening := False\<rparr>)"
| accept: "loop s = Accepting \<Longrightarrow> listening s \<Longrightarrow> accept_step cap s (s\<lparr>loop := Admitting\<rparr>)"
| accept_stop: "loop s = Accepting \<Longrightarrow> cancelled s \<Longrightarrow> accept_step cap s (s\<lparr>loop := Draining None\<rparr>)"
| accept_retry: "loop s = Accepting \<Longrightarrow> \<not> cancelled s \<Longrightarrow> accept_step cap s s"
| accept_fail: "loop s = Accepting \<Longrightarrow> \<not> cancelled s
    \<Longrightarrow> accept_step cap s (s\<lparr>loop := Draining (Some (WrapError ''accept: '' e []))\<rparr>)"
| admit: "loop s = Admitting \<Longrightarrow> concurrency s < cap
    \<Longrightarrow> accept_step cap s (s\<lparr>loop := Accepting, concurrency := concurrency s + 1, sessionSeq := sessionSeq s + 1,
          wg := wg s + 1, sessions := sessions s @ [(sessionSeq s + 1, Serving)]\<rparr>)"
| session_over: "i < length (sessions s) \<Longrightarrow> snd (sessions s ! i) = Serving
    \<Longrightarrow> accept_step cap s (set_session i ConnClosed s)"
| release: "i < length (sessions s) \<Longrightarrow> snd (sessions s ! i) = ConnClosed \<Longrightarrow> 0 < concurrency s
    \<Longrightarrow> accept_step cap s ((set_session i SlotReleased s)\<lparr>concurrency := concurrency s - 1\<rparr>)"
| wg_done: "i < length (sessions s) \<Longrightarrow> snd (sessions s ! i) = SlotReleased
    \<Longrightarrow> accept_step cap s ((set_session i Ended s)\<lparr>wg := wg s - 1\<rparr>)"
| return: "loop s = Draining r \<Longrightarrow> wg s = 0
    \<Longrightarrow> accept_step cap s (s\<lparr>loop := Returned r, listening := False\<rparr>)"

inductive_cases accept_stepE: "accept_step cap s s'"

section \<open>The invariant\<close>

definition holds_slot :: "u64 \<times> session_phase \<Rightarrow> bool" where
  "holds_slot t \<longleftrightarrow> snd t = Serving \<or> snd t = ConnClosed"

definition alive :: "u64 \<times> session_phase \<Rightarrow> bool" where
  "alive t \<longleftrightarrow> snd t \<noteq> Ended"

definition count_of :: "('a \<Rightarrow> bool) \<Rightarrow> 'a list \<Rightarrow> nat" where
  "count_of P xs = length (filter P xs)"

lemma count_simps [simp]: "count_of P [] = 0" "count_of P (x # xs) = (if P x then 1 else 0) + count_of P xs"
  "count_of P (xs @ ys) = count_of P xs + count_of P ys"
  by (simp_all add: count_of_def)

lemma count_update:
  "i < length xs \<Longrightarrow> count_of P (xs[i := y]) + (if P (xs ! i) then 1 else 0) = count_of P xs + (if P y then 1 else 0)"
proof (induction xs arbitrary: i)
  case (Cons x xs)
  then show ?case by (cases i) auto
qed simp

lemma count_pos: "i < length xs \<Longrightarrow> P (xs ! i) \<Longrightarrow> 0 < count_of P xs"
  by (auto simp: count_of_def filter_empty_conv)

definition accept_inv :: "nat \<Rightarrow> accept_state \<Rightarrow> bool" where
  "accept_inv cap s \<longleftrightarrow>
     concurrency s = count_of holds_slot (sessions s) \<and> concurrency s \<le> cap
     \<and> wg s = count_of alive (sessions s)
     \<and> sessionSeq s = of_nat (length (sessions s))
     \<and> map fst (sessions s) = map (\<lambda>k. of_nat (Suc k)) [0..<length (sessions s)]
     \<and> (\<forall>r. loop s = Returned r \<longrightarrow> wg s = 0)"

lemma accept_init_inv: "accept_inv cap accept_init"
  by (simp add: accept_inv_def accept_init_def)

lemma set_session_ids: "i < length (sessions s) \<Longrightarrow> map fst (sessions (set_session i p s)) = map fst (sessions s)"
  by (simp add: set_session_def map_update list_update_same_conv)

lemma set_session_frame [simp]:
  "loop (set_session i p s) = loop s" "concurrency (set_session i p s) = concurrency s"
  "sessionSeq (set_session i p s) = sessionSeq s" "wg (set_session i p s) = wg s"
  "length (sessions (set_session i p s)) = length (sessions s)"
  "cancelled (set_session i p s) = cancelled s"
  by (simp_all add: set_session_def)

lemma set_session_count:
  "i < length (sessions s) \<Longrightarrow>
     count_of P (sessions (set_session i p s)) + (if P (sessions s ! i) then 1 else 0)
       = count_of P (sessions s) + (if P (fst (sessions s ! i), p) then 1 else 0)"
  by (simp add: set_session_def count_update)

lemma accept_step_inv: "accept_step cap s s' \<Longrightarrow> accept_inv cap s \<Longrightarrow> accept_inv cap s'"
proof (induction rule: accept_step.induct)
  case (admit s)
  then show ?case by (auto simp: accept_inv_def holds_slot_def alive_def)
next
  case (session_over i s)
  then show ?case
    using set_session_count [of i s holds_slot ConnClosed] set_session_count [of i s alive ConnClosed]
    by (auto simp: accept_inv_def set_session_ids holds_slot_def alive_def)
next
  case (release i s)
  then show ?case
    using set_session_count [of i s holds_slot SlotReleased] set_session_count [of i s alive SlotReleased]
    by (auto simp: accept_inv_def set_session_ids holds_slot_def alive_def)
next
  case (wg_done i s)
  then show ?case
    using set_session_count [of i s holds_slot Ended] set_session_count [of i s alive Ended]
    by (auto simp: accept_inv_def set_session_ids holds_slot_def alive_def)
qed (auto simp: accept_inv_def)

lemma accept_reachable_inv: "(accept_step cap)\<^sup>*\<^sup>* accept_init s \<Longrightarrow> accept_inv cap s"
  by (induction rule: rtranclp_induct) (auto intro: accept_init_inv accept_step_inv)

text \<open>
  C23: In every interleaving at most \<open>cap\<close> sessions are served at the same time, the \<open>k\<close>-th session
  has the number \<open>k\<close> (modulo \<open>2 ^ 64\<close>), and when \<open>ListenAndServe\<close> has returned every session it
  started has ended.
\<close>

theorem sessions_bounded:
  assumes "(accept_step cap)\<^sup>*\<^sup>* accept_init s"
  shows "count_of (\<lambda>t. snd t = Serving) (sessions s) \<le> cap
    \<and> map fst (sessions s) = map (\<lambda>k. of_nat (Suc k)) [0..<length (sessions s)]
    \<and> (\<forall>r. loop s = Returned r \<longrightarrow> list_all (\<lambda>t. snd t = Ended) (sessions s))"
proof -
  have inv: "accept_inv cap s" using assms by (rule accept_reachable_inv)
  have "count_of (\<lambda>t. snd t = Serving) xs \<le> count_of holds_slot xs" for xs
    by (induction xs) (auto simp: holds_slot_def)
  then have "count_of (\<lambda>t. snd t = Serving) (sessions s) \<le> cap"
    using inv order_trans by (fastforce simp: accept_inv_def)
  moreover have "count_of alive xs = 0 \<Longrightarrow> list_all (\<lambda>t. snd t = Ended) xs" for xs
    by (induction xs) (auto simp: alive_def split: if_splits)
  ultimately show ?thesis using inv by (auto simp: accept_inv_def)
qed

theorem sessions_bounded_witness:
  "count_of (\<lambda>t. snd t = Serving) (sessions (accept_init\<lparr>concurrency := 1, sessionSeq := 1, wg := 1, sessions := [(1, Serving)]\<rparr>)) \<le> 1"
proof -
  let ?s1 = "accept_init\<lparr>loop := Admitting\<rparr>"
  have "accept_step 1 accept_init ?s1" by (rule accept) (simp_all add: accept_init_def)
  moreover have "accept_step 1 ?s1 (accept_init\<lparr>concurrency := 1, sessionSeq := 1, wg := 1, sessions := [(1, Serving)]\<rparr>)"
    using admit [of ?s1 1] by (simp add: accept_init_def)
  ultimately have "(accept_step 1)\<^sup>*\<^sup>* accept_init (accept_init\<lparr>concurrency := 1, sessionSeq := 1, wg := 1, sessions := [(1, Serving)]\<rparr>)"
    by (meson converse_rtranclp_into_rtranclp r_into_rtranclp)
  then show ?thesis using sessions_bounded by blast
qed


section \<open>A session only goes forward\<close>

text \<open>How much the goroutine of a session still has to do.\<close>

fun work :: "session_phase \<Rightarrow> nat" where
  "work Serving = 3"
| "work ConnClosed = 2"
| "work SlotReleased = 1"
| "work Ended = 0"

text \<open>The phases in the order a session goes through them.\<close>

instantiation session_phase :: linorder
begin

definition less_eq_session_phase :: "session_phase \<Rightarrow> session_phase \<Rightarrow> bool" where
  "p \<le> q \<longleftrightarrow> work q \<le> work p"

definition less_session_phase :: "session_phase \<Rightarrow> session_phase \<Rightarrow> bool" where
  "p < q \<longleftrightarrow> work q < work p"

instance
proof
  fix p q :: session_phase
  assume "p \<le> q" "q \<le> p"
  then have "work p = work q" by (simp add: less_eq_session_phase_def)
  then show "p = q" by (cases p; cases q) simp_all
qed (auto simp: less_eq_session_phase_def less_session_phase_def)

end

definition advanced :: "accept_state \<Rightarrow> accept_state \<Rightarrow> bool" where
  "advanced s s' \<longleftrightarrow> length (sessions s) \<le> length (sessions s')
     \<and> (\<forall>i < length (sessions s). snd (sessions s ! i) \<le> snd (sessions s' ! i))"

lemma accept_step_advances: "accept_step cap s s' \<Longrightarrow> advanced s s'"
  by (erule accept_step.cases)
    (auto simp: advanced_def set_session_def nth_append nth_list_update less_eq_session_phase_def)

text \<open>No interleaving takes a session back to an earlier phase, or forgets it.\<close>

lemma advanced_trans:
  assumes "advanced s s1" "advanced s1 s2"
  shows "advanced s s2"
proof -
  have "snd (sessions s ! i) \<le> snd (sessions s2 ! i)" if "i < length (sessions s)" for i
  proof (rule order.trans)
    show "snd (sessions s ! i) \<le> snd (sessions s1 ! i)" using assms(1) that unfolding advanced_def by blast
    have "i < length (sessions s1)" using assms(1) that by (simp add: advanced_def)
    then show "snd (sessions s1 ! i) \<le> snd (sessions s2 ! i)" using assms(2) unfolding advanced_def by blast
  qed
  then show ?thesis using assms by (simp add: advanced_def)
qed

lemma sessions_advance: "(accept_step cap)\<^sup>*\<^sup>* s s' \<Longrightarrow> advanced s s'"
proof (induction rule: rtranclp_induct)
  case base
  show ?case by (simp add: advanced_def)
next
  case (step s1 s2)
  show ?case using step(3) accept_step_advances [OF step(2)] by (rule advanced_trans)
qed

section \<open>The server can always stop\<close>

definition pending_work :: "accept_state \<Rightarrow> nat" where
  "pending_work s = sum_list (map (work \<circ> snd) (sessions s))"

lemma sum_list_map_update:
  "i < length xs \<Longrightarrow> sum_list (map f (xs[i := y])) + f (xs ! i) = sum_list (map f xs) + (f y :: nat)"
proof (induction xs arbitrary: i)
  case (Cons x xs)
  then show ?case by (cases i) auto
qed simp

lemma set_session_work:
  "i < length (sessions s) \<Longrightarrow> pending_work (set_session i p s) + work (snd (sessions s ! i)) = pending_work s + work p"
  using sum_list_map_update [of i "sessions s" "work \<circ> snd" "(fst (sessions s ! i), p)"]
  by (simp add: pending_work_def set_session_def)

lemma session_progress:
  assumes "accept_inv cap s" and "0 < pending_work s"
  shows "\<exists>s'. accept_step cap s s' \<and> pending_work s' < pending_work s \<and> loop s' = loop s \<and> cancelled s' = cancelled s"
proof -
  from assms(2) have "\<exists>t \<in> set (sessions s). 0 < work (snd t)"
    by (auto simp: pending_work_def sum_list_eq_0_iff simp flip: neq0_conv)
  then obtain i where i: "i < length (sessions s)" "0 < work (snd (sessions s ! i))"
    by (auto simp: in_set_conv_nth)
  consider "snd (sessions s ! i) = Serving" | "snd (sessions s ! i) = ConnClosed" | "snd (sessions s ! i) = SlotReleased"
    using i(2) by (cases "snd (sessions s ! i)") auto
  then show ?thesis
  proof cases
    case 1
    then show ?thesis
      using session_over [OF i(1) 1] set_session_work [OF i(1), of ConnClosed]
      by (intro exI [of _ "set_session i ConnClosed s"]) simp
  next
    case 2
    then have "0 < concurrency s"
      using assms(1) i(1) count_pos [of i "sessions s" holds_slot] by (simp add: accept_inv_def holds_slot_def)
    then show ?thesis
      using release [OF i(1) 2] set_session_work [OF i(1), of SlotReleased] 2
      by (intro exI [of _ "(set_session i SlotReleased s)\<lparr>concurrency := concurrency s - 1\<rparr>"]) (simp add: pending_work_def)
  next
    case 3
    then show ?thesis
      using wg_done [OF i(1) 3] set_session_work [OF i(1), of Ended]
      by (intro exI [of _ "(set_session i Ended s)\<lparr>wg := wg s - 1\<rparr>"]) (simp add: pending_work_def)
  qed
qed

lemma sessions_can_end:
  "accept_inv cap s \<Longrightarrow> \<exists>s'. (accept_step cap)\<^sup>*\<^sup>* s s' \<and> accept_inv cap s' \<and> pending_work s' = 0
     \<and> loop s' = loop s \<and> cancelled s' = cancelled s"
proof (induction "pending_work s" arbitrary: s rule: less_induct)
  case less
  show ?case
  proof (cases "pending_work s = 0")
    case False
    then obtain s1 where s1: "accept_step cap s s1" "pending_work s1 < pending_work s" "loop s1 = loop s" "cancelled s1 = cancelled s"
      using session_progress less.prems by blast
    from less.hyps [OF s1(2) accept_step_inv [OF s1(1) less.prems]] obtain s2 where
      "(accept_step cap)\<^sup>*\<^sup>* s1 s2" "accept_inv cap s2" "pending_work s2 = 0" "loop s2 = loop s1" "cancelled s2 = cancelled s1"
      by blast
    then show ?thesis using s1 by (intro exI [of _ s2]) (auto intro: converse_rtranclp_into_rtranclp)
  qed (use less.prems in blast)
qed

lemma idle_counts:
  assumes "pending_work s = 0"
  shows "count_of holds_slot (sessions s) = 0" and "count_of alive (sessions s) = 0"
proof -
  have "\<forall>t \<in> set (sessions s). snd t = Ended"
  proof
    fix t assume "t \<in> set (sessions s)"
    then have "work (snd t) = 0" using assms by (simp add: pending_work_def)
    then show "snd t = Ended" by (cases "snd t") auto
  qed
  then show "count_of holds_slot (sessions s) = 0" and "count_of alive (sessions s) = 0"
    by (auto simp: count_of_def holds_slot_def alive_def filter_empty_conv)
qed

lemma draining_returns:
  assumes "accept_inv cap s" and "loop s = Draining r"
  shows "\<exists>s'. (accept_step cap)\<^sup>*\<^sup>* s s' \<and> loop s' = Returned r"
proof -
  obtain s1 where s1: "(accept_step cap)\<^sup>*\<^sup>* s s1" "accept_inv cap s1" "pending_work s1 = 0" "loop s1 = Draining r"
    using sessions_can_end [OF assms(1)] assms(2) by metis
  then have "accept_step cap s1 (s1\<lparr>loop := Returned r, listening := False\<rparr>)"
    using idle_counts [of s1] by (intro return) (auto simp: accept_inv_def)
  then show ?thesis using s1(1) by (intro exI [of _ "s1\<lparr>loop := Returned r, listening := False\<rparr>"]) simp
qed

lemma accepting_returns:
  assumes "accept_inv cap s" and "loop s = Accepting"
  shows "\<exists>s' r. (accept_step cap)\<^sup>*\<^sup>* s s' \<and> loop s' = Returned r"
proof -
  let ?s1 = "s\<lparr>cancelled := True\<rparr>" and ?s2 = "s\<lparr>cancelled := True, loop := Draining None\<rparr>"
  have "accept_step cap s ?s1" by (rule cancel)
  moreover have step2: "accept_step cap ?s1 ?s2" using assms(2) accept_stop [of ?s1 cap] by simp
  ultimately have run: "(accept_step cap)\<^sup>*\<^sup>* s ?s2" and inv: "accept_inv cap ?s2"
    using assms(1) accept_step_inv [of cap] by (meson converse_rtranclp_into_rtranclp r_into_rtranclp, meson)
  have "loop ?s2 = Draining None" by simp
  from draining_returns [OF inv this] run show ?thesis by (meson rtranclp_trans)
qed

text \<open>
  C24: With at least one slot the server can stop from every state it can get into: there is always
  a way for the sessions to end, for a connection that waits for a slot to get one, and for
  \<open>ListenAndServe\<close> to return.
\<close>

theorem server_can_stop:
  assumes "(accept_step cap)\<^sup>*\<^sup>* accept_init s" and "0 < cap"
  shows "\<exists>s' r. (accept_step cap)\<^sup>*\<^sup>* s s' \<and> loop s' = Returned r"
proof (cases "loop s")
  case Admitting
  obtain s1 where s1: "(accept_step cap)\<^sup>*\<^sup>* s s1" "accept_inv cap s1" "pending_work s1 = 0" "loop s1 = Admitting"
    using sessions_can_end [OF accept_reachable_inv [OF assms(1)]] Admitting by metis
  then have "concurrency s1 < cap" using idle_counts(1) assms(2) by (simp add: accept_inv_def)
  from admit [OF s1(4) this] s1(2) obtain s2 where
    "accept_step cap s1 s2" "accept_inv cap s2" "loop s2 = Accepting"
    using accept_step_inv by fastforce
  then show ?thesis using accepting_returns s1(1) by (metis rtranclp.rtrancl_into_rtrancl rtranclp_trans)
next
  case (Draining r)
  then show ?thesis using draining_returns accept_reachable_inv [OF assms(1)] by blast
qed (use accepting_returns accept_reachable_inv [OF assms(1)] in blast)+

theorem server_can_stop_witness:
  "\<exists>s' r. (accept_step 2)\<^sup>*\<^sup>* accept_init s' \<and> loop s' = Returned r"
  using server_can_stop [of 2 accept_init] by simp

end
