(* ===== verification/Bot_Help.thy ===== *)
theory Bot_Help
  imports Context Recipient
begin

text \<open>
  \<open>internal/max/bot_help.go\<close>: recognising a command or a mention of the bot in a message, and the
  reply that tells a user or a chat its address. The text of the reply is written as its UTF-8
  bytes, split into pieces.
\<close>

section \<open>Commands\<close>

definition normalizeBotUsername :: "golib \<Rightarrow> string \<Rightarrow> string" where
  "normalizeBotUsername L username = TrimPrefix (TrimSpace (ToLower L username)) ''@''"

text \<open>A trimmed text that is not empty has a first field; there is no index out of range.\<close>

definition ExtractCommandParts :: "golib \<Rightarrow> string \<Rightarrow> string \<times> string" where
  "ExtractCommandParts L msg =
     (let t = TrimSpace (ToLower L msg) in
      if t = [] then ([], [])
      else
        let cmd0 = hd (Fields t) in
        if \<not> HasPrefix cmd0 ''/'' then ([], [])
        else
          let cmd = TrimPrefix cmd0 ''/'' in
          case IndexByte cmd CHR ''@'' of
            Some at \<Rightarrow> (take at cmd, normalizeBotUsername L (drop (Suc at) cmd))
          | None \<Rightarrow> (cmd, []))"

definition ExtractCommand :: "golib \<Rightarrow> string \<Rightarrow> string" where
  "ExtractCommand L msg = fst (ExtractCommandParts L msg)"

definition CommandTargetsBot :: "golib \<Rightarrow> string \<Rightarrow> string \<Rightarrow> bool" where
  "CommandTargetsBot L msg botUsername \<longleftrightarrow>
     (let target = snd (ExtractCommandParts L msg) in
      target = [] \<or> target = normalizeBotUsername L botUsername)"

definition MessageMentionsBot :: "golib \<Rightarrow> string \<Rightarrow> string \<Rightarrow> bool" where
  "MessageMentionsBot L msg botUsername =
     (let username = normalizeBotUsername L botUsername in
      if username = [] then False
      else
        let t = ToLower L (TrimSpace msg) in
        if t = [] then False
        else Contains t (''@'' @ username) \<or> HasPrefix t (username @ '' '') \<or> HasPrefix t (username @ '','')
          \<or> HasPrefix t (username @ '':''))"

section \<open>Texts\<close>

definition info_text1 :: string where
  "info_text1 =
     [CHR 0xD0, CHR 0x9F, CHR 0xD1, CHR 0x80, CHR 0xD0, CHR 0xB8, CHR 0xD0, CHR 0xB2, CHR 0xD0,
     CHR 0xB5, CHR 0xD1, CHR 0x82] @ ''! '' @ [CHR 0xD0, CHR 0xAF, CHR 0x20, CHR 0xD0, CHR 0xB1,
     CHR 0xD0, CHR 0xBE, CHR 0xD1, CHR 0x82, CHR 0x20, CHR 0xD0, CHR 0xB4, CHR 0xD0, CHR 0xBB,
     CHR 0xD1, CHR 0x8F, CHR 0x20, CHR 0xD0, CHR 0xB4, CHR 0xD0, CHR 0xBE, CHR 0xD1, CHR 0x81,
     CHR 0xD1, CHR 0x82, CHR 0xD0, CHR 0xB0, CHR 0xD0, CHR 0xB2, CHR 0xD0, CHR 0xBA, CHR 0xD0,
     CHR 0xB8, CHR 0x20, CHR 0xD1, CHR 0x81, CHR 0xD0, CHR 0xBE, CHR 0xD0, CHR 0xBE, CHR 0xD0,
     CHR 0xB1, CHR 0xD1, CHR 0x89, CHR 0xD0, CHR 0xB5, CHR 0xD0, CHR 0xBD, CHR 0xD0, CHR 0xB8,
     CHR 0xD0, CHR 0xB9, CHR 0x20, CHR 0xD0, CHR 0xB2, CHR 0x20] @ ''MAX '' @ [CHR 0xD1, CHR 0x87,
     CHR 0xD0, CHR 0xB5, CHR 0xD1, CHR 0x80, CHR 0xD0, CHR 0xB5, CHR 0xD0, CHR 0xB7, CHR 0x20] @
     ''email '' @ [CHR 0xF0, CHR 0x9F, CHR 0x93, CHR 0xA9, CHR 0x0A, CHR 0x0A]"

definition info_text2 :: string where
  "info_text2 =
     [CHR 0x0A, CHR 0x0A, CHR 0xD0, CHR 0x9E, CHR 0xD1, CHR 0x82, CHR 0xD0, CHR 0xBF, CHR 0xD1,
     CHR 0x80, CHR 0xD0, CHR 0xB0, CHR 0xD0, CHR 0xB2, CHR 0xD1, CHR 0x8C, CHR 0x20, CHR 0xD0,
     CHR 0xBF, CHR 0xD0, CHR 0xB8, CHR 0xD1, CHR 0x81, CHR 0xD1, CHR 0x8C, CHR 0xD0, CHR 0xBC,
     CHR 0xD0, CHR 0xBE, CHR 0x20, CHR 0xD0, CHR 0xBD, CHR 0xD0, CHR 0xB0, CHR 0x20, CHR 0xD0,
     CHR 0xBE, CHR 0xD0, CHR 0xB4, CHR 0xD0, CHR 0xB8, CHR 0xD0, CHR 0xBD, CHR 0x20, CHR 0xD0,
     CHR 0xB8, CHR 0xD0, CHR 0xB7, CHR 0x20, CHR 0xD0, CHR 0xB0, CHR 0xD0, CHR 0xB4, CHR 0xD1,
     CHR 0x80, CHR 0xD0, CHR 0xB5, CHR 0xD1, CHR 0x81, CHR 0xD0, CHR 0xBE, CHR 0xD0, CHR 0xB2] @
     '':'' @ [CHR 0x0A] @ ''- ''"

definition info_text3 :: string where
  "info_text3 =
     [CHR 0x0A, CHR 0x0A, CHR 0xD0, CHR 0x98, CHR 0x20, CHR 0xD1, CHR 0x8F, CHR 0x20, CHR 0xD0,
     CHR 0xBF, CHR 0xD0, CHR 0xB5, CHR 0xD1, CHR 0x80, CHR 0xD0, CHR 0xB5, CHR 0xD1, CHR 0x88,
     CHR 0xD0, CHR 0xBB, CHR 0xD1, CHR 0x8E, CHR 0x20, CHR 0xD1, CHR 0x81, CHR 0xD0, CHR 0xBE,
     CHR 0xD0, CHR 0xBE, CHR 0xD0, CHR 0xB1, CHR 0xD1, CHR 0x89, CHR 0xD0, CHR 0xB5, CHR 0xD0,
     CHR 0xBD, CHR 0xD0, CHR 0xB8, CHR 0xD0, CHR 0xB5, CHR 0x20, CHR 0xD1, CHR 0x81, CHR 0xD1,
     CHR 0x8E, CHR 0xD0, CHR 0xB4, CHR 0xD0, CHR 0xB0] @ ''. '' @ [CHR 0x0A, CHR 0x0A, CHR 0xD0,
     CHR 0x92, CHR 0xD0, CHR 0xB5, CHR 0xD1, CHR 0x80, CHR 0xD1, CHR 0x81, CHR 0xD0, CHR 0xB8,
     CHR 0xD1, CHR 0x8F, CHR 0x20, CHR 0xD0, CHR 0xB1, CHR 0xD0, CHR 0xBE, CHR 0xD1, CHR 0x82,
     CHR 0xD0, CHR 0xB0] @ '': ''"

definition info_text4 :: string where
  "info_text4 =
     [CHR 0x0A, CHR 0x0A, CHR 0xD0, CHR 0xAF, CHR 0x20, CHR 0xD0, CHR 0xBC, CHR 0xD0, CHR 0xBE,
     CHR 0xD0, CHR 0xB3, CHR 0xD1, CHR 0x83, CHR 0x20, CHR 0xD1, CHR 0x81, CHR 0xD0, CHR 0xBB,
     CHR 0xD0, CHR 0xB0, CHR 0xD1, CHR 0x82, CHR 0xD1, CHR 0x8C, CHR 0x20, CHR 0xD1, CHR 0x81,
     CHR 0xD0, CHR 0xBE, CHR 0xD0, CHR 0xBE, CHR 0xD0, CHR 0xB1, CHR 0xD1, CHR 0x89, CHR 0xD0,
     CHR 0xB5, CHR 0xD0, CHR 0xBD, CHR 0xD0, CHR 0xB8, CHR 0xD1, CHR 0x8F, CHR 0x20, CHR 0xD0,
     CHR 0xBA, CHR 0xD0, CHR 0xB0, CHR 0xD0, CHR 0xBA, CHR 0x20, CHR 0xD0, CHR 0xBD, CHR 0xD0,
     CHR 0xB0, CHR 0xD0, CHR 0xBF, CHR 0xD1, CHR 0x80, CHR 0xD1, CHR 0x8F, CHR 0xD0, CHR 0xBC,
     CHR 0xD1, CHR 0x83, CHR 0xD1, CHR 0x8E, CHR 0x20, CHR 0xD1, CHR 0x82, CHR 0xD0, CHR 0xB5,
     CHR 0xD0, CHR 0xB1, CHR 0xD0, CHR 0xB5, CHR 0x20, CHR 0xD1, CHR 0x82, CHR 0xD0, CHR 0xB0,
     CHR 0xD0, CHR 0xBA, CHR 0x20, CHR 0xD0, CHR 0xB8, CHR 0x20, CHR 0xD0, CHR 0xB2, CHR 0x20,
     CHR 0xD0, CHR 0xB3, CHR 0xD1, CHR 0x80, CHR 0xD1, CHR 0x83, CHR 0xD0, CHR 0xBF, CHR 0xD0,
     CHR 0xBF, CHR 0xD0, CHR 0xBE, CHR 0xD0, CHR 0xB2, CHR 0xD0, CHR 0xBE, CHR 0xD0, CHR 0xB9,
     CHR 0x20, CHR 0xD1, CHR 0x87, CHR 0xD0, CHR 0xB0, CHR 0xD1, CHR 0x82] @ '', '' @ [CHR 0xD0,
     CHR 0xB4, CHR 0xD0, CHR 0xBB, CHR 0xD1, CHR 0x8F, CHR 0x20, CHR 0xD1, CHR 0x8D, CHR 0xD1,
     CHR 0x82, CHR 0xD0, CHR 0xBE, CHR 0xD0, CHR 0xB3, CHR 0xD0, CHR 0xBE, CHR 0x20, CHR 0xD0,
     CHR 0xBD, CHR 0xD1, CHR 0x83, CHR 0xD0, CHR 0xB6, CHR 0xD0, CHR 0xBD, CHR 0xD0, CHR 0xBE,
     CHR 0x20, CHR 0xD0, CHR 0xB4, CHR 0xD0, CHR 0xBE, CHR 0xD0, CHR 0xB1, CHR 0xD0, CHR 0xB0,
     CHR 0xD0, CHR 0xB2, CHR 0xD0, CHR 0xB8, CHR 0xD1, CHR 0x82, CHR 0xD1, CHR 0x8C, CHR 0x20,
     CHR 0xD0, CHR 0xBC, CHR 0xD0, CHR 0xB5, CHR 0xD0, CHR 0xBD, CHR 0xD1, CHR 0x8F, CHR 0x20,
     CHR 0xD0, CHR 0xB0, CHR 0xD0, CHR 0xB4, CHR 0xD0, CHR 0xBC, CHR 0xD0, CHR 0xB8, CHR 0xD0,
     CHR 0xBD, CHR 0xD0, CHR 0xB8, CHR 0xD1, CHR 0x81, CHR 0xD1, CHR 0x82, CHR 0xD1, CHR 0x80,
     CHR 0xD0, CHR 0xB0, CHR 0xD1, CHR 0x82, CHR 0xD0, CHR 0xBE, CHR 0xD1, CHR 0x80, CHR 0xD0,
     CHR 0xBE, CHR 0xD0, CHR 0xBC, CHR 0x20, CHR 0xD0, CHR 0xB2, CHR 0x20, CHR 0xD0, CHR 0xB3,
     CHR 0xD1, CHR 0x80, CHR 0xD1, CHR 0x83, CHR 0xD0, CHR 0xBF, CHR 0xD0, CHR 0xBF, CHR 0xD0,
     CHR 0xBE, CHR 0xD0, CHR 0xB2, CHR 0xD0, CHR 0xBE, CHR 0xD0, CHR 0xB9, CHR 0x20, CHR 0xD1,
     CHR 0x87, CHR 0xD0, CHR 0xB0, CHR 0xD1, CHR 0x82, CHR 0x20, CHR 0xD1, CHR 0x81, CHR 0x20,
     CHR 0xD0, CHR 0xB4, CHR 0xD0, CHR 0xBE, CHR 0xD1, CHR 0x81, CHR 0xD1, CHR 0x82, CHR 0xD1,
     CHR 0x83, CHR 0xD0, CHR 0xBF, CHR 0xD0, CHR 0xBE, CHR 0xD0, CHR 0xBC, CHR 0x20, CHR 0xD0,
     CHR 0xBA, CHR 0x20, CHR 0xD1, CHR 0x87, CHR 0xD1, CHR 0x82, CHR 0xD0, CHR 0xB5, CHR 0xD0,
     CHR 0xBD, CHR 0xD0, CHR 0xB8, CHR 0xD1, CHR 0x8E, CHR 0x20, CHR 0xD1, CHR 0x81, CHR 0xD0,
     CHR 0xBE, CHR 0xD0, CHR 0xBE, CHR 0xD0, CHR 0xB1, CHR 0xD1, CHR 0x89, CHR 0xD0, CHR 0xB5,
     CHR 0xD0, CHR 0xBD, CHR 0xD0, CHR 0xB8, CHR 0xD0, CHR 0xB9] @ '', '' @ [CHR 0xD0, CHR 0xBF,
     CHR 0xD0, CHR 0xBE, CHR 0xD1, CHR 0x81, CHR 0xD0, CHR 0xBB, CHR 0xD0, CHR 0xB5, CHR 0x20,
     CHR 0xD1, CHR 0x87, CHR 0xD0, CHR 0xB5, CHR 0xD0, CHR 0xB3, CHR 0xD0, CHR 0xBE, CHR 0x20,
     CHR 0xD0, CHR 0xB2, CHR 0x20, CHR 0xD1, CHR 0x87, CHR 0xD0, CHR 0xB0, CHR 0xD1, CHR 0x82,
     CHR 0x20, CHR 0xD0, CHR 0xBE, CHR 0xD1, CHR 0x82, CHR 0xD0, CHR 0xBF, CHR 0xD1, CHR 0x80,
     CHR 0xD0, CHR 0xB0, CHR 0xD0, CHR 0xB2, CHR 0xD0, CHR 0xB8, CHR 0xD1, CHR 0x82, CHR 0xD1,
     CHR 0x8C, CHR 0x20, CHR 0xD1, CHR 0x81, CHR 0xD0, CHR 0xBE, CHR 0xD0, CHR 0xBE, CHR 0xD0,
     CHR 0xB1, CHR 0xD1, CHR 0x89, CHR 0xD0, CHR 0xB5, CHR 0xD0, CHR 0xBD, CHR 0xD0, CHR 0xB8,
     CHR 0xD0, CHR 0xB5, CHR 0x20] @ ''/help, '' @ [CHR 0xD0, CHR 0xB7, CHR 0xD0, CHR 0xB0,
     CHR 0xD1, CHR 0x82, CHR 0xD0, CHR 0xB5, CHR 0xD0, CHR 0xBC, CHR 0x20, CHR 0xD1, CHR 0x8F,
     CHR 0x20, CHR 0xD0, CHR 0xBF, CHR 0xD1, CHR 0x80, CHR 0xD0, CHR 0xB8, CHR 0xD1, CHR 0x88,
     CHR 0xD0, CHR 0xBB, CHR 0xD1, CHR 0x8E, CHR 0x20, CHR 0xD0, CHR 0xB8, CHR 0xD0, CHR 0xBD,
     CHR 0xD1, CHR 0x84, CHR 0xD0, CHR 0xBE, CHR 0xD1, CHR 0x80, CHR 0xD0, CHR 0xBC, CHR 0xD0,
     CHR 0xB0, CHR 0xD1, CHR 0x86, CHR 0xD0, CHR 0xB8, CHR 0xD1, CHR 0x8E, CHR 0x20, CHR 0xD1,
     CHR 0x81, CHR 0x20] @ ''email '' @ [CHR 0xD0, CHR 0xBF, CHR 0xD0, CHR 0xBE, CHR 0xD1,
     CHR 0x81, CHR 0xD0, CHR 0xBB, CHR 0xD0, CHR 0xB5, CHR 0x20, CHR 0xD0, CHR 0xBC, CHR 0xD0,
     CHR 0xB5, CHR 0xD0, CHR 0xBD, CHR 0xD1, CHR 0x8F, CHR 0x20, CHR 0xD0, CHR 0xBC, CHR 0xD0,
     CHR 0xBE, CHR 0xD0, CHR 0xB6, CHR 0xD0, CHR 0xBD, CHR 0xD0, CHR 0xBE, CHR 0x20, CHR 0xD0,
     CHR 0xB8, CHR 0xD0, CHR 0xB7, CHR 0x20, CHR 0xD0, CHR 0xB0, CHR 0xD0, CHR 0xB4, CHR 0xD0,
     CHR 0xBC, CHR 0xD0, CHR 0xB8, CHR 0xD0, CHR 0xBD, CHR 0xD0, CHR 0xB8, CHR 0xD1, CHR 0x81,
     CHR 0xD1, CHR 0x82, CHR 0xD1, CHR 0x80, CHR 0xD0, CHR 0xB0, CHR 0xD1, CHR 0x82, CHR 0xD0,
     CHR 0xBE, CHR 0xD1, CHR 0x80, CHR 0xD0, CHR 0xBE, CHR 0xD0, CHR 0xB2, CHR 0x20, CHR 0xD1,
     CHR 0x87, CHR 0xD0, CHR 0xB0, CHR 0xD1, CHR 0x82, CHR 0xD0, CHR 0xB0, CHR 0x20, CHR 0xD1,
     CHR 0x83, CHR 0xD0, CHR 0xB1, CHR 0xD1, CHR 0x80, CHR 0xD0, CHR 0xB0, CHR 0xD1, CHR 0x82,
     CHR 0xD1, CHR 0x8C] @ ''.'' @ [CHR 0x0A, CHR 0x0A, CHR 0xD0, CHR 0x9A, CHR 0xD0, CHR 0xBE,
     CHR 0xD0, CHR 0xBC, CHR 0xD0, CHR 0xB0, CHR 0xD0, CHR 0xBD, CHR 0xD0, CHR 0xB4, CHR 0xD1,
     CHR 0x8B, CHR 0x20, CHR 0xD0, CHR 0xB1, CHR 0xD0, CHR 0xBE, CHR 0xD1, CHR 0x82, CHR 0xD0,
     CHR 0xB0] @ '':'' @ [CHR 0x0A] @ ''- /start '' @ [CHR 0xE2, CHR 0x80, CHR 0x94, CHR 0x20,
     CHR 0xD0, CHR 0xBF, CHR 0xD0, CHR 0xBE, CHR 0xD0, CHR 0xBA, CHR 0xD0, CHR 0xB0, CHR 0xD0,
     CHR 0xB7, CHR 0xD0, CHR 0xB0, CHR 0xD1, CHR 0x82, CHR 0xD1, CHR 0x8C, CHR 0x20, CHR 0xD0,
     CHR 0xBF, CHR 0xD0, CHR 0xB5, CHR 0xD1, CHR 0x80, CHR 0xD1, CHR 0x81, CHR 0xD0, CHR 0xBE,
     CHR 0xD0, CHR 0xBD, CHR 0xD0, CHR 0xB0, CHR 0xD0, CHR 0xBB, CHR 0xD1, CHR 0x8C, CHR 0xD0,
     CHR 0xBD, CHR 0xD1, CHR 0x8B, CHR 0xD0, CHR 0xB9, CHR 0x20, CHR 0xD0, CHR 0xB0, CHR 0xD0,
     CHR 0xB4, CHR 0xD1, CHR 0x80, CHR 0xD0, CHR 0xB5, CHR 0xD1, CHR 0x81, CHR 0x0A] @
     ''- /hello '' @ [CHR 0xD0, CHR 0xB8, CHR 0xD0, CHR 0xBB, CHR 0xD0, CHR 0xB8, CHR 0x20] @
     ''/help '' @ [CHR 0xE2, CHR 0x80, CHR 0x94, CHR 0x20, CHR 0xD0, CHR 0xBF, CHR 0xD0, CHR 0xBE,
     CHR 0xD0, CHR 0xBA, CHR 0xD0, CHR 0xB0, CHR 0xD0, CHR 0xB7, CHR 0xD0, CHR 0xB0, CHR 0xD1,
     CHR 0x82, CHR 0xD1, CHR 0x8C, CHR 0x20, CHR 0xD0, CHR 0xB0, CHR 0xD0, CHR 0xB4, CHR 0xD1,
     CHR 0x80, CHR 0xD0, CHR 0xB5, CHR 0xD1, CHR 0x81, CHR 0x20, CHR 0xD1, CHR 0x82, CHR 0xD0,
     CHR 0xB5, CHR 0xD0, CHR 0xBA, CHR 0xD1, CHR 0x83, CHR 0xD1, CHR 0x89, CHR 0xD0, CHR 0xB5,
     CHR 0xD0, CHR 0xB3, CHR 0xD0, CHR 0xBE, CHR 0x20, CHR 0xD1, CHR 0x87, CHR 0xD0, CHR 0xB0,
     CHR 0xD1, CHR 0x82, CHR 0xD0, CHR 0xB0, CHR 0x0A]"

definition info_text5 :: string where
  "info_text5 =
     ''- /alias <name> <chatid...|'' @ [CHR 0xD1, CHR 0x87, CHR 0xD0, CHR 0xB8, CHR 0xD1,
     CHR 0x81, CHR 0xD0, CHR 0xBB, CHR 0xD0, CHR 0xBE] @ ''> '' @ [CHR 0xE2, CHR 0x80, CHR 0x94,
     CHR 0x20] @ ''(admin) '' @ [CHR 0xD0, CHR 0xB4, CHR 0xD0, CHR 0xBE, CHR 0xD0, CHR 0xB1,
     CHR 0xD0, CHR 0xB0, CHR 0xD0, CHR 0xB2, CHR 0xD0, CHR 0xB8, CHR 0xD1, CHR 0x82, CHR 0xD1,
     CHR 0x8C] @ ''/'' @ [CHR 0xD0, CHR 0xBE, CHR 0xD0, CHR 0xB1, CHR 0xD0, CHR 0xBD, CHR 0xD0,
     CHR 0xBE, CHR 0xD0, CHR 0xB2, CHR 0xD0, CHR 0xB8, CHR 0xD1, CHR 0x82, CHR 0xD1, CHR 0x8C,
     CHR 0x20] @ ''alias'' @ [CHR 0x0A] @ ''- /unalias <name> '' @ [CHR 0xE2, CHR 0x80, CHR 0x94,
     CHR 0x20] @ ''(admin) '' @ [CHR 0xD1, CHR 0x83, CHR 0xD0, CHR 0xB4, CHR 0xD0, CHR 0xB0,
     CHR 0xD0, CHR 0xBB, CHR 0xD0, CHR 0xB8, CHR 0xD1, CHR 0x82, CHR 0xD1, CHR 0x8C, CHR 0x20] @
     ''alias'' @ [CHR 0x0A] @ ''- /stats7d '' @ [CHR 0xE2, CHR 0x80, CHR 0x94, CHR 0x20] @
     ''(admin) '' @ [CHR 0xD1, CHR 0x81, CHR 0xD1, CHR 0x82, CHR 0xD0, CHR 0xB0, CHR 0xD1,
     CHR 0x82, CHR 0xD0, CHR 0xB8, CHR 0xD1, CHR 0x81, CHR 0xD1, CHR 0x82, CHR 0xD0, CHR 0xB8,
     CHR 0xD0, CHR 0xBA, CHR 0xD0, CHR 0xB0, CHR 0x20] @ ''relay '' @ [CHR 0xD0, CHR 0xB7,
     CHR 0xD0, CHR 0xB0, CHR 0x20] @ ''7 '' @ [CHR 0xD0, CHR 0xB4, CHR 0xD0, CHR 0xBD, CHR 0xD0,
     CHR 0xB5, CHR 0xD0, CHR 0xB9, CHR 0x0A] @ ''- /stats30d '' @ [CHR 0xE2, CHR 0x80, CHR 0x94,
     CHR 0x20] @ ''(admin) '' @ [CHR 0xD1, CHR 0x81, CHR 0xD1, CHR 0x82, CHR 0xD0, CHR 0xB0,
     CHR 0xD1, CHR 0x82, CHR 0xD0, CHR 0xB8, CHR 0xD1, CHR 0x81, CHR 0xD1, CHR 0x82, CHR 0xD0,
     CHR 0xB8, CHR 0xD0, CHR 0xBA, CHR 0xD0, CHR 0xB0, CHR 0x20] @ ''relay '' @ [CHR 0xD0,
     CHR 0xB7, CHR 0xD0, CHR 0xB0, CHR 0x20] @ ''30 '' @ [CHR 0xD0, CHR 0xB4, CHR 0xD0, CHR 0xBD,
     CHR 0xD0, CHR 0xB5, CHR 0xD0, CHR 0xB9, CHR 0x0A] @ ''- /aliases '' @ [CHR 0xE2, CHR 0x80,
     CHR 0x94, CHR 0x20] @ ''(admin) '' @ [CHR 0xD0, CHR 0xBF, CHR 0xD0, CHR 0xBE, CHR 0xD0,
     CHR 0xBA, CHR 0xD0, CHR 0xB0, CHR 0xD0, CHR 0xB7, CHR 0xD0, CHR 0xB0, CHR 0xD1, CHR 0x82,
     CHR 0xD1, CHR 0x8C, CHR 0x20, CHR 0xD1, CHR 0x81, CHR 0xD0, CHR 0xBF, CHR 0xD0, CHR 0xB8,
     CHR 0xD1, CHR 0x81, CHR 0xD0, CHR 0xBE, CHR 0xD0, CHR 0xBA, CHR 0x20, CHR 0xD0, CHR 0xB0,
     CHR 0xD0, CHR 0xBB, CHR 0xD0, CHR 0xB8, CHR 0xD0, CHR 0xB0, CHR 0xD1, CHR 0x81, CHR 0xD0,
     CHR 0xBE, CHR 0xD0, CHR 0xB2, CHR 0x20, CHR 0xD0, CHR 0xB8, CHR 0x20] @ ''chatid'' @
     [CHR 0x0A, CHR 0x0A, CHR 0xD0, CHR 0xA2, CHR 0xD0, CHR 0xB5, CHR 0xD1, CHR 0x85, CHR 0xD0,
     CHR 0xBD, CHR 0xD0, CHR 0xB8, CHR 0xD1, CHR 0x87, CHR 0xD0, CHR 0xB5, CHR 0xD1, CHR 0x81,
     CHR 0xD0, CHR 0xBA, CHR 0xD0, CHR 0xB8, CHR 0xD0, CHR 0xB5, CHR 0x20, CHR 0xD0, CHR 0xBF,
     CHR 0xD0, CHR 0xB0, CHR 0xD1, CHR 0x80, CHR 0xD0, CHR 0xB0, CHR 0xD0, CHR 0xBC, CHR 0xD0,
     CHR 0xB5, CHR 0xD1, CHR 0x82, CHR 0xD1, CHR 0x80, CHR 0xD1, CHR 0x8B, CHR 0x20] @ ''('' @
     [CHR 0xD0, CHR 0xB5, CHR 0xD1, CHR 0x81, CHR 0xD0, CHR 0xBB, CHR 0xD0, CHR 0xB8, CHR 0x20,
     CHR 0xD0, CHR 0xBD, CHR 0xD0, CHR 0xB0, CHR 0xD1, CHR 0x81, CHR 0xD1, CHR 0x82, CHR 0xD1,
     CHR 0x80, CHR 0xD0, CHR 0xB0, CHR 0xD0, CHR 0xB8, CHR 0xD0, CHR 0xB2, CHR 0xD0, CHR 0xB0,
     CHR 0xD0, CHR 0xB5, CHR 0xD1, CHR 0x88, CHR 0xD1, CHR 0x8C, CHR 0x20, CHR 0xD0, CHR 0xBE,
     CHR 0xD1, CHR 0x82, CHR 0xD0, CHR 0xBF, CHR 0xD1, CHR 0x80, CHR 0xD0, CHR 0xB0, CHR 0xD0,
     CHR 0xB2, CHR 0xD0, CHR 0xBA, CHR 0xD1, CHR 0x83, CHR 0x20, CHR 0xD0, CHR 0xB2, CHR 0xD1,
     CHR 0x80, CHR 0xD1, CHR 0x83, CHR 0xD1, CHR 0x87, CHR 0xD0, CHR 0xBD, CHR 0xD1, CHR 0x83,
     CHR 0xD1, CHR 0x8E] @ ''):'' @ [CHR 0x0A] @ ''SMTP: ''"

definition info_text6 :: string where
  "info_text6 =
     [CHR 0x0A, CHR 0xD0, CHR 0x9F, CHR 0xD0, CHR 0xBE, CHR 0xD1, CHR 0x80, CHR 0xD1, CHR 0x82] @
     '': 25'' @ [CHR 0x0A, CHR 0xD0, CHR 0x90, CHR 0xD0, CHR 0xB2, CHR 0xD1, CHR 0x82, CHR 0xD0,
     CHR 0xBE, CHR 0xD1, CHR 0x80, CHR 0xD0, CHR 0xB8, CHR 0xD0, CHR 0xB7, CHR 0xD0, CHR 0xB0,
     CHR 0xD1, CHR 0x86, CHR 0xD0, CHR 0xB8, CHR 0xD1, CHR 0x8F] @ '': '' @ [CHR 0xD0, CHR 0xBD,
     CHR 0xD0, CHR 0xB5, CHR 0x20, CHR 0xD1, CHR 0x82, CHR 0xD1, CHR 0x80, CHR 0xD0, CHR 0xB5,
     CHR 0xD0, CHR 0xB1, CHR 0xD1, CHR 0x83, CHR 0xD0, CHR 0xB5, CHR 0xD1, CHR 0x82, CHR 0xD1,
     CHR 0x81, CHR 0xD1, CHR 0x8F, CHR 0x20] @ ''('' @ [CHR 0xD0, CHR 0xBC, CHR 0xD0, CHR 0xBE,
     CHR 0xD0, CHR 0xB6, CHR 0xD0, CHR 0xBD, CHR 0xD0, CHR 0xBE, CHR 0x20, CHR 0xD1, CHR 0x83,
     CHR 0xD0, CHR 0xBA, CHR 0xD0, CHR 0xB0, CHR 0xD0, CHR 0xB7, CHR 0xD0, CHR 0xB0, CHR 0xD1,
     CHR 0x82, CHR 0xD1, CHR 0x8C, CHR 0x20, CHR 0xD0, CHR 0xBB, CHR 0xD1, CHR 0x8E, CHR 0xD0,
     CHR 0xB1, CHR 0xD1, CHR 0x8B, CHR 0xD0, CHR 0xB5, CHR 0x20, CHR 0xD0, CHR 0xBB, CHR 0xD0,
     CHR 0xBE, CHR 0xD0, CHR 0xB3, CHR 0xD0, CHR 0xB8, CHR 0xD0, CHR 0xBD] @ ''/'' @ [CHR 0xD0,
     CHR 0xBF, CHR 0xD0, CHR 0xB0, CHR 0xD1, CHR 0x80, CHR 0xD0, CHR 0xBE, CHR 0xD0, CHR 0xBB,
     CHR 0xD1, CHR 0x8C] @ '')'' @ [CHR 0x0A, CHR 0x0A, CHR 0xD0, CHR 0x9F, CHR 0xD1, CHR 0x80,
     CHR 0xD0, CHR 0xB8, CHR 0xD0, CHR 0xBC, CHR 0xD0, CHR 0xB5, CHR 0xD1, CHR 0x80, CHR 0xD1,
     CHR 0x8B, CHR 0x20, CHR 0xD0, CHR 0xBE, CHR 0xD1, CHR 0x82, CHR 0xD0, CHR 0xBF, CHR 0xD1,
     CHR 0x80, CHR 0xD0, CHR 0xB0, CHR 0xD0, CHR 0xB2, CHR 0xD0, CHR 0xBA, CHR 0xD0, CHR 0xB8] @
     '':'' @ [CHR 0x0A, CHR 0x0A] @ ''PowerShell:'' @ [CHR 0x0A] @
     ''Send-MailMessage -SmtpServer '' @ [CHR 0x22]"

definition info_text7 :: string where
  "info_text7 =
     [CHR 0x0A, CHR 0x0A] @ ''Message text'' @ [CHR 0x0A] @ ''EOF'' @ [CHR 0x0A, CHR 0x0A,
     CHR 0xD0, CHR 0x98, CHR 0xD1, CHR 0x81, CHR 0xD0, CHR 0xBF, CHR 0xD0, CHR 0xBE, CHR 0xD0,
     CHR 0xBB, CHR 0xD1, CHR 0x8C, CHR 0xD0, CHR 0xB7, CHR 0xD1, CHR 0x83, CHR 0xD0, CHR 0xB9,
     CHR 0x20, CHR 0xD0, CHR 0xB4, CHR 0xD0, CHR 0xBB, CHR 0xD1, CHR 0x8F, CHR 0x20, CHR 0xD1,
     CHR 0x83, CHR 0xD0, CHR 0xB2, CHR 0xD0, CHR 0xB5, CHR 0xD0, CHR 0xB4, CHR 0xD0, CHR 0xBE,
     CHR 0xD0, CHR 0xBC, CHR 0xD0, CHR 0xBB, CHR 0xD0, CHR 0xB5, CHR 0xD0, CHR 0xBD, CHR 0xD0,
     CHR 0xB8, CHR 0xD0, CHR 0xB9] @ '', '' @ [CHR 0xD0, CHR 0xB8, CHR 0xD0, CHR 0xBD, CHR 0xD1,
     CHR 0x82, CHR 0xD0, CHR 0xB5, CHR 0xD0, CHR 0xB3, CHR 0xD1, CHR 0x80, CHR 0xD0, CHR 0xB0,
     CHR 0xD1, CHR 0x86, CHR 0xD0, CHR 0xB8, CHR 0xD0, CHR 0xB9, CHR 0x20, CHR 0xD0, CHR 0xB8,
     CHR 0x20, CHR 0xD0, CHR 0xB0, CHR 0xD0, CHR 0xB2, CHR 0xD1, CHR 0x82, CHR 0xD0, CHR 0xBE,
     CHR 0xD0, CHR 0xBC, CHR 0xD0, CHR 0xB0, CHR 0xD1, CHR 0x82, CHR 0xD0, CHR 0xB8, CHR 0xD1,
     CHR 0x87, CHR 0xD0, CHR 0xB5, CHR 0xD1, CHR 0x81, CHR 0xD0, CHR 0xBA, CHR 0xD0, CHR 0xB8,
     CHR 0xD1, CHR 0x85, CHR 0x20, CHR 0xD1, CHR 0x81, CHR 0xD0, CHR 0xBE, CHR 0xD0, CHR 0xBE,
     CHR 0xD0, CHR 0xB1, CHR 0xD1, CHR 0x89, CHR 0xD0, CHR 0xB5, CHR 0xD0, CHR 0xBD, CHR 0xD0,
     CHR 0xB8, CHR 0xD0, CHR 0xB9] @ ''.'' @ [CHR 0x0A]"

definition user_title :: string where
  "user_title =
     [CHR 0xD0, CHR 0xA2, CHR 0xD0, CHR 0xB2, CHR 0xD0, CHR 0xBE, CHR 0xD0, CHR 0xB9, CHR 0x20,
     CHR 0xD0, CHR 0xBB, CHR 0xD0, CHR 0xB8, CHR 0xD1, CHR 0x87, CHR 0xD0, CHR 0xBD, CHR 0xD1,
     CHR 0x8B, CHR 0xD0, CHR 0xB9, CHR 0x20, CHR 0xD0, CHR 0xB0, CHR 0xD0, CHR 0xB4, CHR 0xD1,
     CHR 0x80, CHR 0xD0, CHR 0xB5, CHR 0xD1, CHR 0x81, CHR 0x20, CHR 0xD0, CHR 0xB4, CHR 0xD0,
     CHR 0xBB, CHR 0xD1, CHR 0x8F, CHR 0x20, CHR 0xD0, CHR 0xB4, CHR 0xD0, CHR 0xBE, CHR 0xD1,
     CHR 0x81, CHR 0xD1, CHR 0x82, CHR 0xD0, CHR 0xB0, CHR 0xD0, CHR 0xB2, CHR 0xD0, CHR 0xBA,
     CHR 0xD0, CHR 0xB8, CHR 0x20, CHR 0xD1, CHR 0x81, CHR 0xD0, CHR 0xBE, CHR 0xD0, CHR 0xBE,
     CHR 0xD0, CHR 0xB1, CHR 0xD1, CHR 0x89, CHR 0xD0, CHR 0xB5, CHR 0xD0, CHR 0xBD, CHR 0xD0,
     CHR 0xB8, CHR 0xD0, CHR 0xB9, CHR 0x20, CHR 0xD1, CHR 0x87, CHR 0xD0, CHR 0xB5, CHR 0xD1,
     CHR 0x80, CHR 0xD0, CHR 0xB5, CHR 0xD0, CHR 0xB7, CHR 0x20] @ ''relay:''"

definition user_label :: string where
  "user_label =
     [CHR 0xD0, CHR 0x92, CHR 0xD0, CHR 0xB0, CHR 0xD1, CHR 0x88, CHR 0x20] @ ''ID''"

definition chat_title :: string where
  "chat_title =
     [CHR 0xD0, CHR 0x90, CHR 0xD0, CHR 0xB4, CHR 0xD1, CHR 0x80, CHR 0xD0, CHR 0xB5, CHR 0xD1,
     CHR 0x81, CHR 0x20, CHR 0xD1, CHR 0x8D, CHR 0xD1, CHR 0x82, CHR 0xD0, CHR 0xBE, CHR 0xD0,
     CHR 0xB3, CHR 0xD0, CHR 0xBE, CHR 0x20, CHR 0xD1, CHR 0x87, CHR 0xD0, CHR 0xB0, CHR 0xD1,
     CHR 0x82, CHR 0xD0, CHR 0xB0, CHR 0x20, CHR 0xD0, CHR 0xB4, CHR 0xD0, CHR 0xBB, CHR 0xD1,
     CHR 0x8F, CHR 0x20, CHR 0xD0, CHR 0xB4, CHR 0xD0, CHR 0xBE, CHR 0xD1, CHR 0x81, CHR 0xD1,
     CHR 0x82, CHR 0xD0, CHR 0xB0, CHR 0xD0, CHR 0xB2, CHR 0xD0, CHR 0xBA, CHR 0xD0, CHR 0xB8,
     CHR 0x20, CHR 0xD1, CHR 0x81, CHR 0xD0, CHR 0xBE, CHR 0xD0, CHR 0xBE, CHR 0xD0, CHR 0xB1,
     CHR 0xD1, CHR 0x89, CHR 0xD0, CHR 0xB5, CHR 0xD0, CHR 0xBD, CHR 0xD0, CHR 0xB8, CHR 0xD0,
     CHR 0xB9, CHR 0x20, CHR 0xD1, CHR 0x87, CHR 0xD0, CHR 0xB5, CHR 0xD1, CHR 0x80, CHR 0xD0,
     CHR 0xB5, CHR 0xD0, CHR 0xB7, CHR 0x20] @ ''relay:''"

definition chat_label :: string where
  "chat_label =
     ''ID '' @ [CHR 0xD1, CHR 0x8D, CHR 0xD1, CHR 0x82, CHR 0xD0, CHR 0xBE, CHR 0xD0, CHR 0xB3,
     CHR 0xD0, CHR 0xBE, CHR 0x20, CHR 0xD1, CHR 0x87, CHR 0xD0, CHR 0xB0, CHR 0xD1, CHR 0x82,
     CHR 0xD0, CHR 0xB0]"

text \<open>\<open>infoReplyTemplate\<close> with its arguments filled in.\<close>

definition buildInfoReply :: "string \<Rightarrow> string \<Rightarrow> string \<Rightarrow> string \<Rightarrow> string \<Rightarrow> string \<Rightarrow> string" where
  "buildInfoReply version title localPart domain idLabel idValue =
     info_text1 @ title @ info_text2 @ localPart @ ''@'' @ domain @ [CHR 0x0A] @ ''- '' @
     localPart @ ''.silent@'' @ domain @ [CHR 0x0A, CHR 0x0A] @ idLabel @ '': '' @ idValue @
     info_text3 @ version @ info_text4 @ info_text5 @ domain @ info_text6 @ domain @
     [CHR 0x22, CHR 0x20] @ ''-Port 25 -From '' @ [CHR 0x22] @ ''test@test.loc'' @ [CHR 0x22, CHR 0x20] @ ''-To '' @ [CHR 0x22] @
     localPart @ ''@'' @ domain @
     [CHR 0x22, CHR 0x20] @ ''-Subject '' @ [CHR 0x22] @ ''Test'' @ [CHR 0x22, CHR 0x20] @ ''-Body '' @ [CHR 0x22] @ ''Message text'' @ [CHR 0x22, CHR 0x0A, CHR 0x0A] @ ''curl:'' @ [CHR 0x0A] @ ''curl smtp://'' @
     domain @
     '':25 --mail-from '' @ [CHR 0x22] @ ''test@test.loc'' @ [CHR 0x22, CHR 0x20] @ ''--mail-rcpt '' @ [CHR 0x22] @
     localPart @ ''@'' @ domain @
     [CHR 0x22, CHR 0x20] @ ''--upload-file - <<EOF'' @ [CHR 0x0A] @ ''Subject: Test'' @ [CHR 0x0A] @ ''From: test@test.loc'' @ [CHR 0x0A] @ ''To: '' @
     localPart @ ''@'' @ domain @ info_text7"

section \<open>Replies\<close>

definition chatAddressLocalPart :: "string \<Rightarrow> string" where
  "chatAddressLocalPart ident =
     (let v = TrimSpace ident in if v = [] \<or> v = ''<unknown>'' then ''chatidunknown'' else ''chatid'' @ v)"

definition BuildUserInfoReply :: "string \<Rightarrow> string \<Rightarrow> string \<Rightarrow> string" where
  "BuildUserInfoReply version userID domain0 =
     (let i = (if TrimSpace userID = [] then ''<unknown>'' else TrimSpace userID);
          d = (if TrimSpace domain0 = [] then ''relay.local'' else TrimSpace domain0)
      in buildInfoReply version user_title (chatAddressLocalPart i) d user_label i)"

definition BuildChatInfoReply :: "string \<Rightarrow> string \<Rightarrow> string \<Rightarrow> string" where
  "BuildChatInfoReply version chatID domain0 =
     (let i = (if TrimSpace chatID = [] then ''<unknown>'' else TrimSpace chatID);
          d = (if TrimSpace domain0 = [] then ''relay.local'' else TrimSpace domain0)
      in buildInfoReply version chat_title (chatAddressLocalPart i) d chat_label i)"


section \<open>A command is found without running out of fields\<close>

lemma fields_aux_not_Nil: "cur \<noteq> [] \<Longrightarrow> fields_aux cur s \<noteq> []"
proof (induction cur s rule: fields_aux.induct)
  case (1 cur s)
  then show ?case by (subst fields_aux.simps) (auto simp: Let_def split: list.splits)
qed

lemma Fields_trimmed: "TrimSpace s \<noteq> [] \<Longrightarrow> Fields (TrimSpace s) \<noteq> []"
  using TrimSpace_width [of s] fields_aux_not_Nil unfolding Fields_def
  by (subst fields_aux.simps) (cases "TrimSpace s"; simp add: Let_def)

section \<open>The address in the reply\<close>

lemma Contains_iff: "Contains s p \<longleftrightarrow> (\<exists>a b. s = a @ p @ b)"
proof
  show "Contains s p \<Longrightarrow> \<exists>a b. s = a @ p @ b"
  proof (induction s)
    case (Cons c s)
    then consider b where "c # s = p @ b" | a b where "s = a @ p @ b" by (auto simp: HasPrefix_iff)
    then show ?case by cases (metis append_Nil, metis append_Cons)
  qed simp
next
  have "Contains (p @ b) p" for b by (cases "p @ b") (simp, metis Contains.simps(2) HasPrefix_append)
  then have "Contains (a @ p @ b) p" for a b by (induction a) auto
  then show "\<exists>a b. s = a @ p @ b \<Longrightarrow> Contains s p" by blast
qed

lemma ToLower_ascii_append:
  "is_ascii (s @ t) \<Longrightarrow> ToLower L (s @ t) = ToLower L s @ ToLower L t"
  by (simp add: ToLower_def)

lemma lower_ascii_is_ascii: "lower_ascii s \<Longrightarrow> is_ascii s"
  by (auto simp: lower_ascii_def is_ascii_def)

lemma graphic_lower: "graphic c \<Longrightarrow> graphic (lower_byte c)"
  by (auto simp: graphic_def byte_lower_byte)


lemma normalize_chat_address:
  assumes "lower_ascii local" "local \<noteq> []" "graphic (hd local)" "is_ascii d" "d \<noteq> []" "graphic (last d)"
  shows "normalize L (local @ ''@'' @ d) = local @ ''@'' @ ToLower L d"
proof -
  have "is_ascii (local @ ''@'' @ d)" using assms by (simp add: lower_ascii_is_ascii)
  then have low: "ToLower L (local @ ''@'' @ d) = local @ ''@'' @ ToLower L d"
    using ToLower_id [OF assms(1), of L] assms(1) by (simp add: ToLower_def lower_byte_def lower_ascii_is_ascii)
  have "graphic (last (ToLower L d))" "ToLower L d \<noteq> []"
    using assms(4-6) graphic_lower by (auto simp: ToLower_def last_map)
  then have "TrimSpace (local @ ''@'' @ ToLower L d) = local @ ''@'' @ ToLower L d"
    using assms(2,3) by (intro TrimSpace_graphic) simp
  then show ?thesis unfolding normalize_def low .
qed

lemma ToLower_chars: "is_ascii d \<Longrightarrow> CHR ''@'' \<notin> set d \<Longrightarrow> CHR ''@'' \<notin> set (ToLower L d)"
proof
  assume d: "is_ascii d" "CHR ''@'' \<notin> set d" "CHR ''@'' \<in> set (ToLower L d)"
  then obtain c where c: "c \<in> set d" "lower_byte c = CHR ''@''" by (auto simp: ToLower_def)
  then have "byte (lower_byte c) = 64" by simp
  then have "byte c = 64" using byte_lower_byte [of c] by (auto split: if_splits)
  then have "c = CHR ''@''" using byte_inject [of c "CHR ''@''"] by simp
  then show False using c(1) d(2) by simp
qed

lemma FormatInt_TrimSpace: "TrimSpace (FormatInt n) = FormatInt n"
  by (rule TrimSpace_graphic) (metis FormatInt_graphic FormatInt_not_Nil hd_in_set last_in_set)

lemma FormatInt_not_unknown: "FormatInt n \<noteq> ''<unknown>''"
  using set_FormatInt [of "CHR ''<''" n] by (auto simp: is_digit_def)

lemma chatAddressLocalPart_FormatInt: "chatAddressLocalPart (FormatInt n) = ''chatid'' @ FormatInt n"
  by (simp add: chatAddressLocalPart_def FormatInt_TrimSpace FormatInt_not_unknown)

definition chat_address :: "int \<Rightarrow> bool \<Rightarrow> string \<Rightarrow> string" where
  "chat_address n silent d = ''chatid'' @ FormatInt n @ (if silent then ''.silent'' else []) @ ''@'' @ d"

lemma Contains_skip: "Contains t p \<Longrightarrow> Contains (s @ t) p"
  by (metis Contains_iff append.assoc)

lemma Contains_here: "Contains (a @ b @ c @ r) (a @ b @ c)"
  unfolding Contains_iff by (intro exI [of _ "[]"] exI [of _ r]) simp

lemma info_has_addresses:
  "Contains (buildInfoReply version t lp d l i) (lp @ ''@'' @ d)"
  "Contains (buildInfoReply version t lp d l i) (lp @ ''.silent@'' @ d)"
  unfolding buildInfoReply_def
  by (rule Contains_skip, rule Contains_skip, rule Contains_skip, rule Contains_here)
    (rule Contains_skip, rule Contains_skip, rule Contains_skip, rule Contains_skip, rule Contains_skip,
     rule Contains_skip, rule Contains_skip, rule Contains_skip, rule Contains_here)

lemma reply_has_address:
  assumes "TrimSpace d = d" and "d \<noteq> []"
  shows "Contains (BuildChatInfoReply version (FormatInt n) d) (chat_address n silent d)"
    and "Contains (BuildUserInfoReply version (FormatInt n) d) (chat_address n silent d)"
proof -
  have "chat_address n silent d = (''chatid'' @ FormatInt n) @ (if silent then ''.silent@'' else ''@'') @ d"
    by (simp add: chat_address_def)
  then show "Contains (BuildChatInfoReply version (FormatInt n) d) (chat_address n silent d)"
    and "Contains (BuildUserInfoReply version (FormatInt n) d) (chat_address n silent d)"
    using assms info_has_addresses
    by (simp_all only: BuildChatInfoReply_def BuildUserInfoReply_def FormatInt_TrimSpace FormatInt_not_Nil
        chatAddressLocalPart_FormatInt Let_def if_False split: if_split) simp_all
qed

lemma chat_address_resolves:
  assumes "is_ascii d" "list_all graphic d" "d \<noteq> []" "CHR ''@'' \<notin> set d"
    and "al (''chatid'' @ FormatInt n @ (if silent then ''.silent'' else [])) = None"
  shows "\<exists>pr. Parse L (NewParser L d al) (chat_address n silent d) = Inr pr
    \<and> map (\<lambda>t. (ChatID t, Silent t)) (Targets pr) = [(FormatInt n, silent)] \<and> \<not> AliasUsed pr"
proof -
  let ?local = "''chatid'' @ FormatInt n @ (if silent then ''.silent'' else [])"
  have d: "TrimSpace d = d" using assms(2,3) by (intro TrimSpace_graphic) (simp add: list_all_iff)
  have "normalize L (?local @ ''@'' @ d) = ?local @ ''@'' @ ToLower L d"
    by (rule normalize_chat_address) (use assms in \<open>simp_all add: graphic_def list_all_iff\<close>)
  then show ?thesis
    using assms(1,4,5) d
    by (intro chat_address_parses) (simp_all add: chat_address_def NewParser_def ToLower_chars)
qed


text \<open>
  C40: The reply to a chat, and to a user, holds the address of that chat, with and without the
  silent flag; mail to that address, as long as no alias has its local part, goes to exactly
  that chat, silently or not as the address says.
\<close>

theorem help_address_works:
  assumes "is_ascii d" "list_all graphic d" "d \<noteq> []" "CHR ''@'' \<notin> set d"
    and "al (''chatid'' @ FormatInt n @ (if silent then ''.silent'' else [])) = None"
  shows "Contains (BuildChatInfoReply version (FormatInt n) d) (chat_address n silent d)
    \<and> Contains (BuildUserInfoReply version (FormatInt n) d) (chat_address n silent d)
    \<and> (\<exists>pr. Parse L (NewParser L d al) (chat_address n silent d) = Inr pr
        \<and> map (\<lambda>t. (ChatID t, Silent t)) (Targets pr) = [(FormatInt n, silent)] \<and> \<not> AliasUsed pr)"
proof -
  have "TrimSpace d = d" using assms(2,3) by (intro TrimSpace_graphic) (simp add: list_all_iff)
  then show ?thesis using reply_has_address assms chat_address_resolves by simp
qed

theorem help_address_works_witness:
  "\<exists>pr. Parse ascii_golib (NewParser ascii_golib ''Relay.Local'' Map.empty) (chat_address (- 42) True ''Relay.Local'') = Inr pr
    \<and> map (\<lambda>t. (ChatID t, Silent t)) (Targets pr) = [(FormatInt (- 42), True)]"
  using help_address_works [of "''Relay.Local''" Map.empty "- 42" True "''0.2''" ascii_golib]
  by (auto simp: graphic_def)

end
