(* ===== verification/Admin_Confirm.thy ===== *)
theory Admin_Confirm
  imports Go_Conv
begin

text \<open>
  \<open>internal/max/admin_confirm.go\<close>: commands that must be confirmed. An action is registered under
  a random token for one chat and a limited time, and a confirmation from that chat runs it.

  The actions are closures in the code; here an action is a function on the state \<open>'s\<close> of the
  rest of the program, returning the text of the reply. The random bytes and the clock are
  arguments; \<open>base36\<close> renders the clock for the fallback token.
\<close>

section \<open>Operations\<close>

record 's confirmAction =
  expiresAt :: time
  execute :: "'s \<Rightarrow> string \<times> 's"

type_synonym 's pending = "string \<rightharpoonup> 's confirmAction"

definition confirmKey :: "int \<Rightarrow> string \<Rightarrow> string" where
  "confirmKey chatID token = FormatInt chatID @ '':'' @ TrimSpace token"

text \<open>\<open>randomToken\<close>: the bytes \<open>rand.Read\<close> delivered, or \<open>None\<close> for its error.\<close>

definition randomToken :: "(time \<Rightarrow> string) \<Rightarrow> string option \<Rightarrow> time \<Rightarrow> string" where
  "randomToken base36 rand now = (case rand of None \<Rightarrow> base36 now | Some buf \<Rightarrow> hex_string buf)"

definition purgeExpiredLocked :: "time \<Rightarrow> 's pending \<Rightarrow> 's pending" where
  "purgeExpiredLocked now m =
     (\<lambda>key. case m key of None \<Rightarrow> None | Some action \<Rightarrow> if now > expiresAt action then None else Some action)"

definition registerConfirm ::
  "string \<Rightarrow> time \<Rightarrow> int \<Rightarrow> duration \<Rightarrow> ('s \<Rightarrow> string \<times> 's) \<Rightarrow> 's pending \<Rightarrow> 's pending" where
  "registerConfirm token now chatID ttl0 action m =
     (let ttl = (if ttl0 \<le> 0 then 5 * 60 * 1000000000 else ttl0) in
      (purgeExpiredLocked now m)(confirmKey chatID token \<mapsto> \<lparr>expiresAt = now + ttl, execute = action\<rparr>))"

text \<open>\<open>consumeConfirm\<close>: the action found, if any, and the pending ones afterwards; and the call of the action.\<close>

definition take_confirm :: "time \<Rightarrow> int \<Rightarrow> string \<Rightarrow> 's pending \<Rightarrow> 's confirmAction option \<times> 's pending" where
  "take_confirm now chatID token m =
     (let key = confirmKey chatID token in
      case m key of
        None \<Rightarrow> (None, m(key := None))
      | Some action \<Rightarrow> (if now > expiresAt action then None else Some action, m(key := None)))"

definition consumeConfirm ::
  "time \<Rightarrow> int \<Rightarrow> string \<Rightarrow> 's pending \<Rightarrow> 's \<Rightarrow> string option \<times> 's pending \<times> 's" where
  "consumeConfirm now chatID token m s =
     (case take_confirm now chatID token m of
        (None, m') \<Rightarrow> (None, m', s)
      | (Some action, m') \<Rightarrow> (case execute action s of (reply, s') \<Rightarrow> (Some reply, m', s')))"

section \<open>Keys\<close>

lemma colon_notin_FormatInt: "CHR '':'' \<notin> set (FormatInt n)"
  using set_FormatInt [of "CHR '':''" n] by (auto simp: is_digit_def)

lemma FormatInt_inj: "FormatInt m = FormatInt n \<Longrightarrow> in_int64 m \<Longrightarrow> in_int64 n \<Longrightarrow> m = n"
  by (metis ParseInt_FormatInt sum.inject(2))

lemma confirmKey_inj:
  assumes "in_int64 c" "in_int64 c'"
  shows "confirmKey c t = confirmKey c' t' \<longleftrightarrow> c = c' \<and> TrimSpace t = TrimSpace t'"
proof
  assume "confirmKey c t = confirmKey c' t'"
  then have eq: "FormatInt c @ CHR '':'' # TrimSpace t = FormatInt c' @ CHR '':'' # TrimSpace t'" by (simp add: confirmKey_def)
  have split: "takeWhile (\<lambda>x. x \<noteq> CHR '':'') (FormatInt k @ CHR '':'' # r) = FormatInt k" for k r
    using colon_notin_FormatInt [of k] by (subst takeWhile_append2) auto
  have "FormatInt c = FormatInt c'" using eq split by metis
  then show "c = c' \<and> TrimSpace t = TrimSpace t'" using eq assms FormatInt_inj by simp
qed (simp add: confirmKey_def)

section \<open>An action runs at most once, in time, for its chat\<close>

text \<open>The operations on the pending actions, with the time at which each takes the lock.\<close>

datatype 's confirm_op =
    Register time string int duration "'s \<Rightarrow> string \<times> 's"
  | Confirm time int string

fun confirm_do :: "'s confirm_op \<Rightarrow> 's pending \<Rightarrow> 's pending" where
  "confirm_do (Register now token chatID ttl action) m = registerConfirm token now chatID ttl action m"
| "confirm_do (Confirm now chatID token) m = snd (take_confirm now chatID token m)"

fun op_time :: "'s confirm_op \<Rightarrow> time" where
  "op_time (Register now _ _ _ _) = now"
| "op_time (Confirm now _ _) = now"

fun op_chat :: "'s confirm_op \<Rightarrow> int" where
  "op_chat (Register _ _ c _ _) = c"
| "op_chat (Confirm _ c _) = c"

fun registers :: "int \<Rightarrow> string \<Rightarrow> 's confirm_op \<Rightarrow> bool" where
  "registers chatID token (Register _ t c _ _) \<longleftrightarrow> c = chatID \<and> TrimSpace t = TrimSpace token"
| "registers chatID token (Confirm _ _ _) \<longleftrightarrow> False"

fun confirms :: "int \<Rightarrow> string \<Rightarrow> 's confirm_op \<Rightarrow> bool" where
  "confirms chatID token (Register _ _ _ _ _) \<longleftrightarrow> False"
| "confirms chatID token (Confirm _ c t) \<longleftrightarrow> c = chatID \<and> TrimSpace t = TrimSpace token"

lemma confirm_do_key:
  assumes "in_int64 chatID" "in_int64 (op_chat q)" "\<not> registers chatID token q" "op_time q \<le> t"
    and "m (confirmKey chatID token) = (if alive then Some a else None)"
  shows "confirm_do q m (confirmKey chatID token) = (if alive \<and> \<not> confirms chatID token q then Some a else None)
     \<or> expiresAt a < t \<and> confirm_do q m (confirmKey chatID token) = None"
proof (cases q)
  case (Register now tok c ttl act)
  then have "confirmKey c tok \<noteq> confirmKey chatID token" using assms(1-3) confirmKey_inj by simp
  then show ?thesis using Register assms(4,5)
    by (auto simp: registerConfirm_def purgeExpiredLocked_def Let_def)
next
  case (Confirm now c tok)
  then show ?thesis using assms(1,2,5) confirmKey_inj [of c chatID tok token]
    by (auto simp: take_confirm_def Let_def split: option.splits)
qed

lemma confirm_history:
  assumes "in_int64 chatID"
  shows "list_all (\<lambda>q. in_int64 (op_chat q) \<and> \<not> registers chatID token q \<and> op_time q \<le> t) ops
    \<Longrightarrow> m (confirmKey chatID token) = (if alive then Some a else None)
        \<or> expiresAt a < t \<and> m (confirmKey chatID token) = None
    \<Longrightarrow> fold confirm_do ops m (confirmKey chatID token)
          = (if alive \<and> \<not> list_ex (confirms chatID token) ops then Some a else None)
        \<or> expiresAt a < t \<and> fold confirm_do ops m (confirmKey chatID token) = None"
proof (induction ops arbitrary: m alive)
  case (Cons q ops)
  let ?alive = "alive \<and> \<not> confirms chatID token q"
  have "confirm_do q m (confirmKey chatID token) = (if ?alive then Some a else None)
      \<or> expiresAt a < t \<and> confirm_do q m (confirmKey chatID token) = None"
    using Cons.prems assms confirm_do_key [of chatID q token t m alive a]
      confirm_do_key [of chatID q token t m False a]
    by (cases "m (confirmKey chatID token) = (if alive then Some a else None)") auto
  with Cons.IH [of "confirm_do q m" ?alive] Cons.prems(1) show ?case by simp
qed simp

text \<open>
  C10: A registered action is run by the first confirmation with its token from its chat, if that
  comes no later than its time limit, and by nothing else: not by a second confirmation, not
  after the limit, and not from another chat, whatever else is registered and confirmed
  meanwhile, as long as the random token is not drawn again.
\<close>

theorem confirm_exactly_once:
  assumes "in_int64 chatID"
    and "list_all (\<lambda>q. in_int64 (op_chat q) \<and> \<not> registers chatID token q \<and> op_time q \<le> t) ops"
    and "0 < ttl"
  shows "fst (take_confirm t chatID token (fold confirm_do ops (registerConfirm token now chatID ttl act m)))
    = (if t \<le> now + ttl \<and> \<not> list_ex (confirms chatID token) ops
       then Some \<lparr>expiresAt = now + ttl, execute = act\<rparr> else None)"
proof -
  let ?a = "\<lparr>expiresAt = now + ttl, execute = act\<rparr>"
  have "registerConfirm token now chatID ttl act m (confirmKey chatID token) = Some ?a"
    using assms(3) by (simp add: registerConfirm_def)
  then show ?thesis
    using confirm_history [OF assms(1,2), of "registerConfirm token now chatID ttl act m" True ?a]
    by (auto simp: take_confirm_def Let_def split: option.splits if_splits)
qed

theorem confirm_exactly_once_witness:
  "fst (take_confirm 20 7 ''tok'' (fold confirm_do [Confirm 15 8 ''tok'', Confirm 16 7 ''other'']
     (registerConfirm ''tok'' 10 7 300 (\<lambda>s. (''done'', s + (1::int))) Map.empty)))
   = Some \<lparr>expiresAt = 310, execute = (\<lambda>s. (''done'', s + 1))\<rparr>"
proof -
  have trim: "TrimSpace ''tok'' = ''tok''" "TrimSpace ''other'' = ''other''" by code_simp+
  show ?thesis
    using confirm_exactly_once [of 7 "''tok''" 20 "[Confirm 15 8 ''tok'', Confirm 16 7 ''other'']" 300 10 "\<lambda>s. (''done'', s + 1)" Map.empty]
    by (simp add: in_int64_def trim)
qed

end
