(* ===== verification/Dlq_Worker.thy ===== *)
theory Dlq_Worker
  imports Relay
begin

text \<open>
  \<open>internal/dlq/worker.go\<close>: the loop that replays queued messages with growing delays.

  The worker's \<open>Store\<close> is the queue of the shared state, its \<open>Metrics\<close> the shared metrics; its
  \<open>Relay\<close> and \<open>WithReplay\<close> are functions it is given, as in the code.
\<close>

section \<open>The delay before the next attempt\<close>

text \<open>A left shift at 64 bits: bits beyond the sign bit are lost, and large counts give 0.\<close>

definition shl64 :: "int \<Rightarrow> int \<Rightarrow> int" where
  "shl64 x n = wrap64 (x * 2 ^ nat n)"

text \<open>The delay without the jitter, in the worker's formulation.\<close>

definition delay_before_jitter :: "duration \<Rightarrow> duration \<Rightarrow> int \<Rightarrow> duration" where
  "delay_before_jitter BaseDelay MaxDelay attempt0 =
     (let base = (if BaseDelay \<le> 0 then 1000000000 else BaseDelay);
          mx = (if MaxDelay \<le> 0 then 5 * 60 * 1000000000 else MaxDelay);
          attempt = (if attempt0 < 1 then 1 else attempt0);
          d0 = shl64 base (attempt - 1);
          d1 = (if d0 < base then mx else d0)
      in if d1 > mx then mx else d1)"

section \<open>The worker\<close>

type_synonym 'w relay_func = "context_values \<Rightarrow> string \<Rightarrow> string \<Rightarrow> 'w sys \<Rightarrow> error option \<times> 'w sys"

record 'w Worker =
  w_lib :: golib
  w_codec :: codec
  w_ext :: "'w external"
  w_Relay :: "'w relay_func"
  BaseDelay :: duration
  MaxDelay :: duration
  MaxRetries :: int
  BatchSize :: int
  WithReplay :: "(context_values \<Rightarrow> context_values) option"
  RandomJitter :: duration
  AttemptTimeout :: duration

definition randInt63n :: "'w external \<Rightarrow> int \<Rightarrow> 'w sys \<Rightarrow> int \<times> 'w sys" where
  "randInt63n X n s = (if n \<le> 0 then (0, s) else in_world (x_Int63n X n) s)"

definition worker_nextDelay :: "'w Worker \<Rightarrow> int \<Rightarrow> 'w sys \<Rightarrow> duration \<times> 'w sys" where
  "worker_nextDelay W attempt s =
     (let d = delay_before_jitter (BaseDelay W) (MaxDelay W) attempt;
          j = (if RandomJitter W \<le> 0 then 250000000 else RandomJitter W)
      in case randInt63n (w_ext W) j s of (k, s') \<Rightarrow> (wrap64 (d + k), s'))"

text \<open>
  A call of the store whose result is only logged. The store is given when the worker starts and
  never taken away, so the first branch is not reached.
\<close>

definition store_call :: "'w external \<Rightarrow> (store_env \<Rightarrow> FileStore \<Rightarrow> 'a \<times> FileStore) \<Rightarrow> 'w sys \<Rightarrow> 'w sys" where
  "store_call X f s = (case sys_dlq s of None \<Rightarrow> s | Some st \<Rightarrow> snd (with_store X f st s))"

definition attempt_context :: "'w Worker \<Rightarrow> context_values \<Rightarrow> 'w sys \<Rightarrow> context_values \<times> 'w sys" where
  "attempt_context W ctx s =
     (let replayCtx = (case WithReplay W of None \<Rightarrow> ctx | Some f \<Rightarrow> f ctx) in
      if AttemptTimeout W > 0
        then (case in_world (x_now (w_ext W)) s of (now, s1) \<Rightarrow> (WithTimeout now (AttemptTimeout W) replayCtx, s1))
        else (replayCtx, s))"

text \<open>One round of the loop over the picked items.\<close>

definition replay_item :: "'w Worker \<Rightarrow> context_values \<Rightarrow> item \<Rightarrow> 'w sys \<Rightarrow> 'w sys" where
  "replay_item W ctx it s =
     (case attempt_context W ctx s of
        (attemptCtx, s1) \<Rightarrow>
          (case w_Relay W attemptCtx (ItemRecipient it) (RawMessage it) s1 of
             (None, s2) \<Rightarrow>
               with_metrics IncDLQReplayed (store_call (w_ext W) (\<lambda>E. MarkDone (w_codec W) E (ID it)) s2)
           | (Some err, s2) \<Rightarrow>
               (case in_world (x_now (w_ext W)) s2 of
                  (now, s3) \<Rightarrow>
                    (case worker_nextDelay W (wrap64 (Attempt it + 1)) s3 of
                       (d, s4) \<Rightarrow>
                         with_metrics IncDLQReplayFailed
                           (store_call (w_ext W)
                              (\<lambda>E. MarkRetry (w_lib W) (w_codec W) E (ID it) (now + d) (Some err) (MaxRetries W))
                              s4)))))"

fun replay_items :: "'w Worker \<Rightarrow> context_values \<Rightarrow> item list \<Rightarrow> 'w sys \<Rightarrow> 'w sys" where
  "replay_items W ctx [] s = s"
| "replay_items W ctx (it # its) s = replay_items W ctx its (replay_item W ctx it s)"

definition updateBacklogMetrics :: "'w Worker \<Rightarrow> 'w sys \<Rightarrow> 'w sys" where
  "updateBacklogMetrics W s =
     (case (sys_dlq s, sys_metrics s) of
        (Some st, Some _) \<Rightarrow>
          (case in_world (x_store (w_ext W)) s of
             (E1, s1) \<Rightarrow>
               (case in_world (x_now (w_ext W)) s1 of
                  (now, s2) \<Rightarrow>
                    (case in_world (x_store (w_ext W)) s2 of
                       (E2, s3) \<Rightarrow>
                         (let stats = Stats E1 st;
                              oldest = (case OldestPendingAge E2 now st of
                                          (age, True) \<Rightarrow> Seconds_uint64 (w_lib W) age
                                        | (_, False) \<Rightarrow> 0)
                          in with_metrics (SetDLQBacklog (Pending stats) (Failed stats) (Done stats) oldest) s3))))
      | _ \<Rightarrow> s)"

definition runOnce :: "'w Worker \<Rightarrow> context_values \<Rightarrow> 'w sys \<Rightarrow> 'w sys" where
  "runOnce W ctx s =
     (case sys_dlq s of
        None \<Rightarrow> s
      | Some st \<Rightarrow>
          (case in_world (x_now (w_ext W)) s of
             (now, s1) \<Rightarrow>
               (case with_store (w_ext W) (\<lambda>E. PickDue (w_codec W) E (BatchSize W) now) st s1 of
                  (Inl _, s2) \<Rightarrow> updateBacklogMetrics W s2
                | (Inr its, s2) \<Rightarrow> updateBacklogMetrics W (replay_items W ctx its s2))))"

text \<open>\<open>Run\<close>: one \<open>runOnce\<close> for each tick of the timer until the context is done.\<close>

fun Run :: "'w Worker \<Rightarrow> context_values \<Rightarrow> nat \<Rightarrow> 'w sys \<Rightarrow> 'w sys" where
  "Run W ctx 0 s = s"
| "Run W ctx (Suc ticks) s = Run W ctx ticks (runOnce W ctx s)"

section \<open>Delays are bounded\<close>

lemma shl64_exact: "0 \<le> n \<Longrightarrow> in_int64 (x * 2 ^ nat n) \<Longrightarrow> shl64 x n = x * 2 ^ nat n"
  by (simp add: shl64_def wrap64_id)

definition base_delay :: "'w Worker \<Rightarrow> duration" where
  "base_delay W = (if BaseDelay W \<le> 0 then 1000000000 else BaseDelay W)"

definition max_delay :: "'w Worker \<Rightarrow> duration" where
  "max_delay W = (if MaxDelay W \<le> 0 then 300000000000 else MaxDelay W)"

lemma delays_positive: "0 < base_delay W" "0 < max_delay W"
  by (simp_all add: base_delay_def max_delay_def)

lemma delay_defaults:
  "delay_before_jitter (BaseDelay W) (MaxDelay W) a = delay_before_jitter (base_delay W) (max_delay W) a"
  by (simp add: delay_before_jitter_def base_delay_def max_delay_def)

lemma delay_cases:
  assumes "0 < B" "0 < M"
  shows "delay_before_jitter B M a \<le> M" "min B M \<le> delay_before_jitter B M a"
  using assms by (auto simp: delay_before_jitter_def Let_def)

lemma delay_exact:
  assumes "0 < B" "0 < M" "B * 2 ^ nat (a - 1) \<le> MaxInt64"
  shows "delay_before_jitter B M a = min M (B * 2 ^ nat (a - 1))"
proof -
  define b where "b = (if a < 1 then 1 else a)"
  have a: "delay_before_jitter B M a = delay_before_jitter B M b" "nat (a - 1) = nat (b - 1)"
    by (simp_all add: delay_before_jitter_def b_def)
  define x where "x = B * 2 ^ nat (b - 1)"
  have "B * 1 \<le> x" unfolding x_def using assms(1) by (intro mult_left_mono) auto
  then have ge: "B \<le> x" by simp
  have "x \<le> MaxInt64" using assms(3) a(2) by (simp add: x_def)
  then have "in_int64 x" using assms(1) ge by (simp add: in_int64_def)
  then have s: "shl64 B (b - 1) = x" unfolding x_def by (intro shl64_exact) (simp_all add: b_def)
  have "1 \<le> b" by (simp add: b_def)
  then have "delay_before_jitter B M b = min M x"
    using s ge assms(1,2) by (simp add: delay_before_jitter_def)
  then show ?thesis by (simp add: a x_def)
qed

text \<open>
  C33: The delay before the next attempt, with the defaults the worker takes for settings that are
  not positive (1 s, 5 min, and 250 ms of jitter, which the program always uses): never above
  the maximum plus the jitter nor below the smaller of the base and the maximum, also when the
  shift overflows. As long as the doubled base fits into 64 bits it is exactly the base doubled
  for each earlier attempt, capped at the maximum, plus less than the jitter.
\<close>

theorem nextDelay_bounds:
  assumes "base = (if BaseDelay W \<le> 0 then 1000000000 else BaseDelay W)"
    and "mx = (if MaxDelay W \<le> 0 then 300000000000 else MaxDelay W)"
    and "jitter = (if RandomJitter W \<le> 0 then 250000000 else RandomJitter W)"
    and "mx + jitter \<le> MaxInt64"
    and "\<And>n w. 0 < n \<Longrightarrow> 0 \<le> fst (x_Int63n (w_ext W) n w) \<and> fst (x_Int63n (w_ext W) n w) < n"
    and "worker_nextDelay W attempt s = (d, s')"
  shows "min base mx \<le> d \<and> d < mx + jitter
    \<and> (base * 2 ^ nat (attempt - 1) \<le> MaxInt64 \<longrightarrow>
         min mx (base * 2 ^ nat (attempt - 1)) \<le> d \<and> d < min mx (base * 2 ^ nat (attempt - 1)) + jitter)"
proof -
  have B: "base = base_delay W" "mx = max_delay W" using assms(1,2) by (simp_all add: base_delay_def max_delay_def)
  define e where "e = delay_before_jitter base mx attempt"
  define k where "k = fst (x_Int63n (w_ext W) jitter (sys_world s))"
  have j: "0 < jitter" using assms(3) by (simp split: if_splits)
  have k: "0 \<le> k" "k < jitter" using assms(5) [OF j, of "sys_world s"] by (auto simp: k_def)
  have pos: "0 < base" "0 < mx" using delays_positive B by simp_all
  have e: "e \<le> mx" "min base mx \<le> e" using delay_cases [OF pos] by (auto simp: e_def)
  have "d = wrap64 (e + k)"
    using j assms(6) unfolding e_def k_def B worker_nextDelay_def delay_defaults randInt63n_def in_world_def
    by (auto simp: Let_def assms(3) split: prod.splits if_splits)
  moreover have "in_int64 (e + k)" using e k pos assms(4) by (auto simp: in_int64_def)
  ultimately have d: "d = e + k" by (simp add: wrap64_id)
  have "e = min mx (base * 2 ^ nat (attempt - 1))" if "base * 2 ^ nat (attempt - 1) \<le> MaxInt64"
    using delay_exact [OF pos that] by (simp add: e_def)
  then show ?thesis using d e k by auto
qed

section \<open>What one round leaves\<close>

text \<open>
  How an item in work ends, by the result of its replay: delivered, or failed once more, with the
  error, and pending or given up.
\<close>

definition settled_as :: "golib \<Rightarrow> int \<Rightarrow> error option \<Rightarrow> item \<Rightarrow> item \<Rightarrow> bool" where
  "settled_as L maxRetries r it it' \<longleftrightarrow> same_message it it' \<and>
     (case r of
        None \<Rightarrow> Status it' = StatusDone \<and> Attempt it' = Attempt it
      | Some err \<Rightarrow> Attempt it' = wrap64 (Attempt it + 1) \<and> LastError it' = Error L err
          \<and> Status it' = (if maxRetries > 0 \<and> Attempt it' \<ge> maxRetries then StatusFailed else StatusPending))"

lemma settled_not_in_work: "settled_as L mx r it it' \<Longrightarrow> Status it' \<noteq> StatusProcessing"
  by (auto simp: settled_as_def split: option.splits if_splits)

lemma done_settled: "settled_as L mx None it (it\<lparr>Status := StatusDone, UpdatedAt := u\<rparr>)"
  by (simp add: settled_as_def same_message_def)

lemma retried_settled: "settled_as L mx (Some err) it (retried L u t (Some err) mx it)"
  by (simp add: settled_as_def) (simp add: retried_def set_error_def Let_def)

text \<open>The results of the replays of a list of items, each in the state that the ones before it left.\<close>

definition replay_result :: "'w Worker \<Rightarrow> context_values \<Rightarrow> item \<Rightarrow> 'w sys \<Rightarrow> error option" where
  "replay_result W ctx it s =
     (case attempt_context W ctx s of (c, s1) \<Rightarrow> fst (w_Relay W c (ItemRecipient it) (RawMessage it) s1))"

fun replay_results :: "'w Worker \<Rightarrow> context_values \<Rightarrow> item list \<Rightarrow> 'w sys \<Rightarrow> error option list" where
  "replay_results W ctx [] s = []"
| "replay_results W ctx (it # its) s = replay_result W ctx it s # replay_results W ctx its (replay_item W ctx it s)"

text \<open>
  The contract between the worker and the relay: replaying a message, with the context marked as
  a replay, leaves the queue to the worker.
\<close>

locale replayer =
  fixes relay :: "'w relay_func"
  assumes queue_kept: "shouldBypassDLQ ctx \<Longrightarrow> relay ctx rc raw s = (r, s') \<Longrightarrow> sys_dlq s' = sys_dlq s"
begin

lemma attempt_context_bypass:
  assumes "WithReplay W = Some WithDLQBypass" "attempt_context W ctx s = (c, s')"
  shows "shouldBypassDLQ c \<and> sys_dlq s' = sys_dlq s"
  using assms
  by (auto simp: attempt_context_def Let_def WithDLQBypass_def shouldBypassDLQ_def WithTimeout_def
      split: if_splits prod.splits dest: in_worldD)

lemma store_call_dlq:
  assumes "sys_dlq s = Some st"
  shows "\<exists>E. sys_dlq (store_call X f s) = Some (snd (f E st))"
proof -
  obtain E s1 where "in_world (x_store X) s = (E, s1)" by fastforce
  then show ?thesis
    using assms by (intro exI [of _ E]) (simp add: store_call_def with_store_def split: prod.splits)
qed

lemma worker_nextDelay_dlq: "worker_nextDelay W a s = (d, s') \<Longrightarrow> sys_dlq s' = sys_dlq s"
  by (auto simp: worker_nextDelay_def randInt63n_def Let_def split: prod.splits if_splits dest: in_worldD)

lemma replay_item_items:
  assumes "w_Relay W = relay" "WithReplay W = Some WithDLQBypass" "sys_dlq s = Some st" "items st (ID it) = Some it"
  shows "\<exists>st' it'. sys_dlq (replay_item W ctx it s) = Some st' \<and> items st' = (items st)(ID it \<mapsto> it')
    \<and> settled_as (w_lib W) (MaxRetries W) (replay_result W ctx it s) it it'"
proof -
  obtain c s1 where 1: "attempt_context W ctx s = (c, s1)" by fastforce
  obtain r s2 where 2: "relay c (ItemRecipient it) (RawMessage it) s1 = (r, s2)" by fastforce
  have st2: "sys_dlq s2 = Some st"
    using attempt_context_bypass [OF assms(2) 1] queue_kept [OF _ 2] assms(3) by simp
  have r: "replay_result W ctx it s = r" using 1 2 assms(1) by (simp add: replay_result_def)
  show ?thesis
  proof (cases r)
    case None
    obtain E where "sys_dlq (replay_item W ctx it s) = Some (snd (MarkDone (w_codec W) E (ID it) st))"
      using 1 2 assms(1) None store_call_dlq [OF st2, of "w_ext W" "\<lambda>E. MarkDone (w_codec W) E (ID it)"]
      by (auto simp: replay_item_def)
    then show ?thesis using assms(4) None r done_settled by (fastforce simp: MarkDone_items)
  next
    case (Some err)
    obtain now s3 where 3: "in_world (x_now (w_ext W)) s2 = (now, s3)" by fastforce
    obtain d s4 where 4: "worker_nextDelay W (wrap64 (Attempt it + 1)) s3 = (d, s4)" by fastforce
    let ?f = "\<lambda>E. MarkRetry (w_lib W) (w_codec W) E (ID it) (now + d) (Some err) (MaxRetries W)"
    have "sys_dlq s4 = Some st" using st2 in_worldD [OF 3] worker_nextDelay_dlq [OF 4] by simp
    then obtain E where "sys_dlq (replay_item W ctx it s) = Some (snd (?f E st))"
      using store_call_dlq [of s4 st "w_ext W" ?f] 1 2 3 4 Some assms(1) by (auto simp: replay_item_def)
    then show ?thesis using assms(4) Some r retried_settled by (fastforce simp: MarkRetry_items)
  qed
qed

lemma replay_items_settle:
  assumes "w_Relay W = relay" "WithReplay W = Some WithDLQBypass"
  shows "sys_dlq s = Some st \<Longrightarrow> distinct (map ID its) \<Longrightarrow> \<forall>it \<in> set its. items st (ID it) = Some it \<Longrightarrow>
    \<exists>st'. sys_dlq (replay_items W ctx its s) = Some st'
      \<and> list_all2 (\<lambda>it r. \<exists>it'. items st' (ID it) = Some it' \<and> settled_as (w_lib W) (MaxRetries W) r it it')
          its (replay_results W ctx its s)
      \<and> (\<forall>k. k \<notin> ID ` set its \<longrightarrow> items st' k = items st k)"
proof (induction its arbitrary: s st)
  case (Cons a its)
  obtain st1 a' where 1: "sys_dlq (replay_item W ctx a s) = Some st1" "items st1 = (items st)(ID a \<mapsto> a')"
    "settled_as (w_lib W) (MaxRetries W) (replay_result W ctx a s) a a'"
    using replay_item_items [OF assms Cons.prems(1), of a ctx] Cons.prems(3) by auto
  have "\<forall>it \<in> set its. items st1 (ID it) = Some it"
    using Cons.prems(2,3) 1(2) by (auto simp: image_iff)
  then obtain st' where st': "sys_dlq (replay_items W ctx its (replay_item W ctx a s)) = Some st'"
    "list_all2 (\<lambda>it r. \<exists>it'. items st' (ID it) = Some it' \<and> settled_as (w_lib W) (MaxRetries W) r it it')
       its (replay_results W ctx its (replay_item W ctx a s))"
    "\<forall>k. k \<notin> ID ` set its \<longrightarrow> items st' k = items st1 k"
    using Cons.IH [OF 1(1)] Cons.prems(2) by auto
  have "items st' (ID a) = Some a'" using st'(3) Cons.prems(2) 1(2) by auto
  then show ?case using st' 1 by (intro exI [of _ st']) auto
qed simp

end

lemma updateBacklogMetrics_dlq: "sys_dlq (updateBacklogMetrics W s) = sys_dlq s"
  by (auto simp: updateBacklogMetrics_def Let_def split: option.splits prod.splits dest!: in_worldD)

interpretation relay_replayer: replayer "Relay S" for S
proof
  fix ctx rc raw s r and s' :: "'a sys"
  assume "shouldBypassDLQ ctx" "Relay S ctx rc raw s = (r, s')"
  then show "sys_dlq s' = sys_dlq s"
    using Relay_effect [where S = S and ctx = ctx and rcpt = rc and raw = raw and s = s]
    by (auto split: sum.splits option.splits)
qed

text \<open>
  C5: A round of the worker settles everything it took: each item it picked ends delivered if its
  replay succeeded, and otherwise with one more failed attempt and its error, pending for later
  or given up at the bound; so no picked item stays in work, and no other item changes. If
  picking failed to save, nothing is replayed.
\<close>

theorem runOnce_settles:
  assumes "w_Relay W = Relay S" and "WithReplay W = Some WithDLQBypass" and "sys_dlq s = Some st"
    and "store_inv (items st)" and "\<And>w. iterates (fst (x_store (w_ext W) w)) (items st)"
    and "in_world (x_now (w_ext W)) s = (now, s1)"
    and "with_store (w_ext W) (\<lambda>E. PickDue (w_codec W) E (BatchSize W) now) st s1 = (p, s2)"
  shows "case p of
      Inl _ \<Rightarrow> sys_dlq (runOnce W ctx s) = sys_dlq s2
    | Inr out \<Rightarrow> \<exists>st'. sys_dlq (runOnce W ctx s) = Some st'
        \<and> list_all2 (\<lambda>it r. \<exists>it'. items st' (ID it) = Some it' \<and> settled_as (w_lib W) (MaxRetries W) r it it')
            out (replay_results W ctx out s2)
        \<and> (\<forall>k. k \<notin> ID ` set out \<longrightarrow> items st' k = items st k)"
proof (cases p)
  case (Inl err)
  then show ?thesis
    using assms(3,6,7) by (simp add: runOnce_def updateBacklogMetrics_dlq split: sum.splits)
next
  case (Inr out)
  obtain E sE where E: "in_world (x_store (w_ext W)) s1 = (E, sE)" by fastforce
  obtain stp where p: "PickDue (w_codec W) E (BatchSize W) now st = (Inr out, stp)" and s2: "sys_dlq s2 = Some stp"
    using assms(7) E Inr by (auto simp: with_store_def split: prod.splits)
  have it: "iterates E (items st)" using assms(5) [of "sys_world s1"] in_worldD [OF E] by simp
  note res = PickDue_result [OF it p]
  note at = items_by_picked [OF assms(4) it, of _ "BatchSize W" now]
  have stp: "items stp = (\<lambda>k. if k \<in> set (picked E (BatchSize W) now st)
      then Some (mark_processing now (item_at (items st) k)) else items st k)"
    using PickDue_items [OF it, of "w_codec W" "BatchSize W" now] p by simp
  have ids: "map ID out = picked E (BatchSize W) now st" using at(1) by (simp add: res o_def map_idI)
  then have "distinct (map ID out)" using distinct_picked [OF it] by simp
  moreover have "\<forall>it \<in> set out. items stp (ID it) = Some it" using at by (auto simp: res stp)
  moreover have "ID ` set out = set (picked E (BatchSize W) now st)" using ids by (metis set_map)
  then have "items stp k = items st k" if "k \<notin> ID ` set out" for k using that stp by simp
  moreover have "runOnce W ctx s = updateBacklogMetrics W (replay_items W ctx out s2)"
    using assms(3,6,7) Inr by (simp add: runOnce_def)
  ultimately show ?thesis
    using relay_replayer.replay_items_settle [OF assms(1,2) s2, of out ctx] Inr
    by (auto simp: updateBacklogMetrics_dlq)
qed

definition demo_worker :: "unit Worker" where
  "demo_worker = \<lparr>w_lib = ascii_golib, w_codec = demo_codec [],
     w_ext = calm\<lparr>x_store := (\<lambda>w. (demo_env [''c'', ''a'', ''b''], w))\<rparr>,
     w_Relay = Relay (demo_service calm), BaseDelay = 1000, MaxDelay = 5000, MaxRetries = 3, BatchSize = 10,
     WithReplay = Some WithDLQBypass, RandomJitter = 0, AttemptTimeout = 0\<rparr>"

theorem nextDelay_bounds_witness:
  "2000 \<le> fst (worker_nextDelay demo_worker 2 (demo_sys ()))
     \<and> fst (worker_nextDelay demo_worker 2 (demo_sys ())) < 2000 + 250000000"
  using nextDelay_bounds [OF refl refl refl _ _ surjective_pairing, of demo_worker 2 "demo_sys ()"]
  by (simp add: demo_worker_def calm_def)

theorem runOnce_settles_witness:
  "\<exists>st' it'. sys_dlq (runOnce demo_worker Background ((demo_sys ())\<lparr>sys_dlq := Some demo_store\<rparr>)) = Some st'
     \<and> items st' ''c'' = Some (demo_item ''c'' StatusDone 1)
     \<and> items st' ''b'' = Some it' \<and> Status it' \<noteq> StatusProcessing"
proof -
  let ?s = "(demo_sys ())\<lparr>sys_dlq := Some demo_store\<rparr>"
  let ?out = "[mark_processing 7 (demo_item ''b'' StatusPending 3), mark_processing 7 (demo_item ''a'' StatusPending 7)]"
  let ?pick = "with_store (w_ext demo_worker) (\<lambda>E. PickDue (w_codec demo_worker) E (BatchSize demo_worker) 7) demo_store ?s"
  have "fst (PickDue (demo_codec []) (demo_env [''c'', ''a'', ''b'']) 10 7 demo_store) = Inr ?out" by code_simp
  then have "fst ?pick = Inr ?out"
    by (auto simp: with_store_def in_world_def demo_worker_def split: prod.splits)
  then have p: "?pick = (Inr ?out, snd ?pick)" by (metis prod.collapse)
  have now: "in_world (x_now (w_ext demo_worker)) ?s = (7, ?s)" by (simp add: in_world_def demo_worker_def calm_def demo_sys_def)
  have it: "iterates (fst (x_store (w_ext demo_worker) w)) (items demo_store)" for w
    using demo_iterates by (simp add: demo_worker_def)
  have rel: "w_Relay demo_worker = Relay (demo_service calm)" "WithReplay demo_worker = Some WithDLQBypass" "sys_dlq ?s = Some demo_store"
    by (simp_all add: demo_worker_def)
  obtain st' where st': "sys_dlq (runOnce demo_worker Background ?s) = Some st'"
    "\<exists>it'. items st' ''b'' = Some it' \<and> Status it' \<noteq> StatusProcessing"
    "\<And>k. k \<notin> {''a'', ''b''} \<Longrightarrow> items st' k = items demo_store k"
    using runOnce_settles [OF rel demo_inv it now p, of Background]
    by (fastforce simp: demo_item_def mark_processing_def dest: settled_not_in_work)
  then show ?thesis using st'(3) [of "''c''"] by (auto simp: demo_store_def)
qed

end
