(* ===== verification/Dlq_Admin.thy ===== *)
theory Dlq_Admin
  imports Dlq_Worker
begin

text \<open>
  \<open>internal/dlq/admin.go\<close>: the administrator's commands on the queue. Each returns the text that
  is sent back to the chat; the Russian texts are written as their UTF-8 bytes.
\<close>

section \<open>Texts\<close>

definition dlq_unavailable :: string where
  "dlq_unavailable =
     ''DLQ '' @ [CHR 0xD0, CHR 0xBD, CHR 0xD0, CHR 0xB5, CHR 0xD0, CHR 0xB4, CHR 0xD0, CHR 0xBE, CHR
     0xD1, CHR 0x81, CHR 0xD1, CHR 0x82, CHR 0xD1, CHR 0x83, CHR 0xD0, CHR 0xBF, CHR 0xD0, CHR 0xB5,
     CHR 0xD0, CHR 0xBD]"

definition no_oldest :: string where
  "no_oldest =
     [CHR 0xD0, CHR 0xBD, CHR 0xD0, CHR 0xB5, CHR 0xD1, CHR 0x82]"

definition dlq_empty :: string where
  "dlq_empty =
     ''DLQ '' @ [CHR 0xD0, CHR 0xBF, CHR 0xD1, CHR 0x83, CHR 0xD1, CHR 0x81, CHR 0xD1, CHR 0x82]"

definition list_header :: string where
  "list_header =
     [CHR 0xD0, CHR 0x9F, CHR 0xD0, CHR 0xBE, CHR 0xD1, CHR 0x81, CHR 0xD0, CHR 0xBB, CHR 0xD0, CHR
     0xB5, CHR 0xD0, CHR 0xB4, CHR 0xD0, CHR 0xBD, CHR 0xD0, CHR 0xB8, CHR 0xD0, CHR 0xB5, CHR 0x20,
     CHR 0xD1, CHR 0x8D, CHR 0xD0, CHR 0xBB, CHR 0xD0, CHR 0xB5, CHR 0xD0, CHR 0xBC, CHR 0xD0, CHR
     0xB5, CHR 0xD0, CHR 0xBD, CHR 0xD1, CHR 0x82, CHR 0xD1, CHR 0x8B, CHR 0x20] @ ''DLQ:''"

definition replay_unavailable :: string where
  "replay_unavailable =
     ''DLQ replay '' @ [CHR 0xD0, CHR 0xBD, CHR 0xD0, CHR 0xB5, CHR 0xD0, CHR 0xB4, CHR 0xD0, CHR
     0xBE, CHR 0xD1, CHR 0x81, CHR 0xD1, CHR 0x82, CHR 0xD1, CHR 0x83, CHR 0xD0, CHR 0xBF, CHR 0xD0,
     CHR 0xB5, CHR 0xD0, CHR 0xBD]"

definition replay_usage :: string where
  "replay_usage =
     [CHR 0xD0, CHR 0x98, CHR 0xD1, CHR 0x81, CHR 0xD0, CHR 0xBF, CHR 0xD0, CHR 0xBE, CHR 0xD0, CHR
     0xBB, CHR 0xD1, CHR 0x8C, CHR 0xD0, CHR 0xB7, CHR 0xD0, CHR 0xBE, CHR 0xD0, CHR 0xB2, CHR 0xD0,
     CHR 0xB0, CHR 0xD0, CHR 0xBD, CHR 0xD0, CHR 0xB8, CHR 0xD0, CHR 0xB5] @ '': /replay <id>''"

definition item_missing :: string where
  "item_missing =
     [CHR 0xD0, CHR 0xAD, CHR 0xD0, CHR 0xBB, CHR 0xD0, CHR 0xB5, CHR 0xD0, CHR 0xBC, CHR 0xD0, CHR
     0xB5, CHR 0xD0, CHR 0xBD, CHR 0xD1, CHR 0x82, CHR 0x20] @ ''DLQ '' @ [CHR 0xD0, CHR 0xBD, CHR
     0xD0, CHR 0xB5, CHR 0x20, CHR 0xD0, CHR 0xBD, CHR 0xD0, CHR 0xB0, CHR 0xD0, CHR 0xB9, CHR 0xD0,
     CHR 0xB4, CHR 0xD0, CHR 0xB5, CHR 0xD0, CHR 0xBD] @ '': ''"

definition replay_failed :: string where
  "replay_failed =
     ''Replay '' @ [CHR 0xD0, CHR 0xBD, CHR 0xD0, CHR 0xB5, CHR 0x20, CHR 0xD1, CHR 0x83, CHR 0xD0,
     CHR 0xB4, CHR 0xD0, CHR 0xB0, CHR 0xD0, CHR 0xBB, CHR 0xD1, CHR 0x81, CHR 0xD1, CHR 0x8F] @ '': ''"

definition and_not_updated :: string where
  "and_not_updated =
     '' ('' @ [CHR 0xD0, CHR 0xB8, CHR 0x20, CHR 0xD0, CHR 0xBD, CHR 0xD0, CHR 0xB5, CHR 0x20, CHR
     0xD1, CHR 0x83, CHR 0xD0, CHR 0xB4, CHR 0xD0, CHR 0xB0, CHR 0xD0, CHR 0xBB, CHR 0xD0, CHR 0xBE,
     CHR 0xD1, CHR 0x81, CHR 0xD1, CHR 0x8C, CHR 0x20, CHR 0xD0, CHR 0xBE, CHR 0xD0, CHR 0xB1, CHR
     0xD0, CHR 0xBD, CHR 0xD0, CHR 0xBE, CHR 0xD0, CHR 0xB2, CHR 0xD0, CHR 0xB8, CHR 0xD1, CHR 0x82,
     CHR 0xD1, CHR 0x8C, CHR 0x20] @ ''DLQ: ''"

definition sent_not_updated :: string where
  "sent_not_updated =
     ''Replay '' @ [CHR 0xD0, CHR 0xBE, CHR 0xD1, CHR 0x82, CHR 0xD0, CHR 0xBF, CHR 0xD1, CHR 0x80,
     CHR 0xD0, CHR 0xB0, CHR 0xD0, CHR 0xB2, CHR 0xD0, CHR 0xBB, CHR 0xD0, CHR 0xB5, CHR 0xD0, CHR
     0xBD] @ '', '' @ [CHR 0xD0, CHR 0xBD, CHR 0xD0, CHR 0xBE, CHR 0x20, CHR 0xD0, CHR 0xBD, CHR
     0xD0, CHR 0xB5, CHR 0x20, CHR 0xD1, CHR 0x83, CHR 0xD0, CHR 0xB4, CHR 0xD0, CHR 0xB0, CHR 0xD0,
     CHR 0xBB, CHR 0xD0, CHR 0xBE, CHR 0xD1, CHR 0x81, CHR 0xD1, CHR 0x8C, CHR 0x20, CHR 0xD0, CHR
     0xBE, CHR 0xD0, CHR 0xB1, CHR 0xD0, CHR 0xBD, CHR 0xD0, CHR 0xBE, CHR 0xD0, CHR 0xB2, CHR 0xD0,
     CHR 0xB8, CHR 0xD1, CHR 0x82, CHR 0xD1, CHR 0x8C, CHR 0x20] @ ''DLQ: ''"

definition replay_ok :: string where
  "replay_ok =
     ''Replay '' @ [CHR 0xD1, CHR 0x83, CHR 0xD1, CHR 0x81, CHR 0xD0, CHR 0xBF, CHR 0xD0, CHR 0xB5,
     CHR 0xD1, CHR 0x88, CHR 0xD0, CHR 0xBD, CHR 0xD0, CHR 0xBE, CHR 0x20, CHR 0xD0, CHR 0xB2, CHR
     0xD1, CHR 0x8B, CHR 0xD0, CHR 0xBF, CHR 0xD0, CHR 0xBE, CHR 0xD0, CHR 0xBB, CHR 0xD0, CHR 0xBD,
     CHR 0xD0, CHR 0xB5, CHR 0xD0, CHR 0xBD] @ '':''"

definition show_usage :: string where
  "show_usage =
     [CHR 0xD0, CHR 0x98, CHR 0xD1, CHR 0x81, CHR 0xD0, CHR 0xBF, CHR 0xD0, CHR 0xBE, CHR 0xD0, CHR
     0xBB, CHR 0xD1, CHR 0x8C, CHR 0xD0, CHR 0xB7, CHR 0xD0, CHR 0xBE, CHR 0xD0, CHR 0xB2, CHR 0xD0,
     CHR 0xB0, CHR 0xD0, CHR 0xBD, CHR 0xD0, CHR 0xB8, CHR 0xD0, CHR 0xB5] @ '': /dlq_show <id>''"

definition dry_unavailable :: string where
  "dry_unavailable =
     ''DLQ dry-run '' @ [CHR 0xD0, CHR 0xBD, CHR 0xD0, CHR 0xB5, CHR 0xD0, CHR 0xB4, CHR 0xD0, CHR
     0xBE, CHR 0xD1, CHR 0x81, CHR 0xD1, CHR 0x82, CHR 0xD1, CHR 0x83, CHR 0xD0, CHR 0xBF, CHR 0xD0,
     CHR 0xB5, CHR 0xD0, CHR 0xBD]"

definition dry_usage :: string where
  "dry_usage =
     [CHR 0xD0, CHR 0x98, CHR 0xD1, CHR 0x81, CHR 0xD0, CHR 0xBF, CHR 0xD0, CHR 0xBE, CHR 0xD0, CHR
     0xBB, CHR 0xD1, CHR 0x8C, CHR 0xD0, CHR 0xB7, CHR 0xD0, CHR 0xBE, CHR 0xD0, CHR 0xB2, CHR 0xD0,
     CHR 0xB0, CHR 0xD0, CHR 0xBD, CHR 0xD0, CHR 0xB8, CHR 0xD0, CHR 0xB5] @ '': /replay_dry <id>''"

definition dry_failed :: string where
  "dry_failed =
     ''Dry-run '' @ [CHR 0xD0, CHR 0xBD, CHR 0xD0, CHR 0xB5, CHR 0x20, CHR 0xD0, CHR 0xBF, CHR 0xD1,
     CHR 0x80, CHR 0xD0, CHR 0xBE, CHR 0xD1, CHR 0x88, CHR 0xD1, CHR 0x91, CHR 0xD0, CHR 0xBB] @ '': ''"

definition dry_ok :: string where
  "dry_ok =
     ''Dry-run OK '' @ [CHR 0xD0, CHR 0xB4, CHR 0xD0, CHR 0xBB, CHR 0xD1, CHR 0x8F, CHR 0x20]"

definition batch_usage :: string where
  "batch_usage =
     [CHR 0xD0, CHR 0x98, CHR 0xD1, CHR 0x81, CHR 0xD0, CHR 0xBF, CHR 0xD0, CHR 0xBE, CHR 0xD0, CHR
     0xBB, CHR 0xD1, CHR 0x8C, CHR 0xD0, CHR 0xB7, CHR 0xD0, CHR 0xBE, CHR 0xD0, CHR 0xB2, CHR 0xD0,
     CHR 0xB0, CHR 0xD0, CHR 0xBD, CHR 0xD0, CHR 0xB8, CHR 0xD0, CHR 0xB5] @ '': /replay_batch <limit> [only_failed|only_pending]''"

definition batch_none :: string where
  "batch_none =
     [CHR 0xD0, CHR 0x9D, CHR 0xD0, CHR 0xB5, CHR 0xD1, CHR 0x82, CHR 0x20, CHR 0xD1, CHR 0x8D, CHR
     0xD0, CHR 0xBB, CHR 0xD0, CHR 0xB5, CHR 0xD0, CHR 0xBC, CHR 0xD0, CHR 0xB5, CHR 0xD0, CHR 0xBD,
     CHR 0xD1, CHR 0x82, CHR 0xD0, CHR 0xBE, CHR 0xD0, CHR 0xB2, CHR 0x20, CHR 0xD0, CHR 0xB4, CHR
     0xD0, CHR 0xBB, CHR 0xD1, CHR 0x8F, CHR 0x20] @ ''replay_batch''"

definition batch_done :: string where
  "batch_done =
     ''Replay batch '' @ [CHR 0xD0, CHR 0xB7, CHR 0xD0, CHR 0xB0, CHR 0xD0, CHR 0xB2, CHR 0xD0, CHR
     0xB5, CHR 0xD1, CHR 0x80, CHR 0xD1, CHR 0x88, CHR 0xD1, CHR 0x91, CHR 0xD0, CHR 0xBD] @ '': '' @
     [CHR 0xD0, CHR 0xB2, CHR 0xD1, CHR 0x81, CHR 0xD0, CHR 0xB5, CHR 0xD0, CHR 0xB3, CHR 0xD0, CHR
     0xBE] @ ''=''"

fun status_text :: "status \<Rightarrow> string" where
  "status_text StatusPending = ''pending''"
| "status_text StatusProcessing = ''processing''"
| "status_text StatusDone = ''done''"
| "status_text StatusFailed = ''failed''"
| "status_text (StatusOther s) = s"

abbreviation newline :: string where
  "newline \<equiv> [CHR 0x0A]"

section \<open>Helpers\<close>

definition shortID :: "string \<Rightarrow> string" where
  "shortID ident = (if length ident \<le> 12 then ident else take 12 ident)"

definition admin_fallback :: "string \<Rightarrow> string \<Rightarrow> string" where
  "admin_fallback v d = (if TrimSpace v = [] then d else v)"

definition admin_nextDelay :: "int \<Rightarrow> duration \<Rightarrow> duration \<Rightarrow> duration" where
  "admin_nextDelay attempt0 base0 mx0 =
     (let base = (if base0 \<le> 0 then 1000000000 else base0);
          mx = (if mx0 \<le> 0 then 5 * 60 * 1000000000 else mx0);
          attempt = (if attempt0 < 1 then 1 else attempt0);
          d = shl64 base (attempt - 1)
      in if d < base \<or> d > mx then mx else d)"

definition parseReplayBatchMode :: "golib \<Rightarrow> string \<Rightarrow> (status \<Rightarrow> bool) result" where
  "parseReplayBatchMode L mode =
     (let v = TrimSpace (ToLower L mode) in
      if v = [] \<or> v = ''only_pending'' then Inr (\<lambda>st. st = StatusPending)
      else if v = ''only_failed'' then Inr (\<lambda>st. st = StatusFailed)
      else Inl (ErrorString batch_usage))"

text \<open>\<open>time.Duration.Round(time.Second)\<close>: halves away from zero, saturating.\<close>

definition round_second :: "duration \<Rightarrow> duration" where
  "round_second d =
     (let m = 1000000000; r = (if d < 0 then - ((- d) mod m) else d mod m) in
      if d < 0
        then (let q = - r in
              if q + q < m then d + q
              else let d1 = wrap64 (d - m + q) in if d1 < d then d1 else - (2 ^ 63))
        else (if r + r < m then d - r
              else let d1 = wrap64 (d + m - r) in if d1 > d then d1 else MaxInt64))"

section \<open>Commands\<close>

record 'w Admin =
  a_lib :: golib
  a_codec :: codec
  a_ext :: "'w external"
  a_Relay :: "'w relay_func option"
  a_DryRun :: "(context_values \<Rightarrow> string \<Rightarrow> string \<Rightarrow> 'w sys \<Rightarrow> string result) option"
  a_WithReplay :: "(context_values \<Rightarrow> context_values) option"
  a_MaxRetries :: int
  a_BaseDelay :: duration
  a_MaxDelay :: duration

definition Summary :: "'w Admin \<Rightarrow> 'w sys \<Rightarrow> string \<times> 'w sys" where
  "Summary A s =
     (case sys_dlq s of
        None \<Rightarrow> (dlq_unavailable, s)
      | Some store \<Rightarrow>
          (case in_world (x_store (a_ext A)) s of
             (E1, s1) \<Rightarrow>
               (case in_world (x_now (a_ext A)) s1 of
                  (now, s2) \<Rightarrow>
                    (case in_world (x_store (a_ext A)) s2 of
                       (E2, s3) \<Rightarrow>
                         (let st = Stats E1 store;
                              oldest = (case OldestPendingAge E2 now store of
                                          (age, True) \<Rightarrow> Duration_String (a_lib A) (round_second age)
                                        | (_, False) \<Rightarrow> no_oldest)
                          in (''DLQ: pending='' @ FormatInt (uint (Pending st)) @ '' failed='' @ FormatInt (uint (Failed st))
                              @ '' done='' @ FormatInt (uint (Done st)) @ '' oldest_pending='' @ oldest, s3))))))"

definition list_line :: "golib \<Rightarrow> item \<Rightarrow> string" where
  "list_line L it = ''- id='' @ shortID (ID it) @ '' status='' @ status_text (Status it)
     @ '' attempts='' @ FormatInt (Attempt it) @ '' updated='' @ Format_RFC3339 L (UpdatedAt it)
     @ '' err='' @ admin_fallback (LastError it) ''-''"

definition admin_List :: "'w Admin \<Rightarrow> int \<Rightarrow> 'w sys \<Rightarrow> string \<times> 'w sys" where
  "admin_List A limit s =
     (case sys_dlq s of
        None \<Rightarrow> (dlq_unavailable, s)
      | Some store \<Rightarrow>
          (case in_world (x_store (a_ext A)) s of
             (E, s1) \<Rightarrow>
               (let its = List_items E limit store in
                if its = [] then (dlq_empty, s1)
                else (Join (list_header # map (list_line (a_lib A))
                        (sort_slice (\<lambda>a b. UpdatedAt a > UpdatedAt b) its)) newline, s1))))"

definition Replay :: "'w Admin \<Rightarrow> context_values \<Rightarrow> string \<Rightarrow> 'w sys \<Rightarrow> string \<times> 'w sys" where
  "Replay A ctx ident0 s =
     (case (sys_dlq s, a_Relay A) of
        (Some store, Some relay) \<Rightarrow>
          (let ident = TrimSpace ident0 in
           if ident = [] then (replay_usage, s)
           else
             (case Get ident store of
                None \<Rightarrow> (item_missing @ ident, s)
              | Some it \<Rightarrow>
                  (let replayCtx = (case a_WithReplay A of None \<Rightarrow> ctx | Some f \<Rightarrow> f ctx) in
                   case relay replayCtx (ItemRecipient it) (RawMessage it) s of
                     (Some err, s1) \<Rightarrow>
                       (case in_world (x_now (a_ext A)) s1 of
                          (now, s2) \<Rightarrow>
                            (let next_at = now + admin_nextDelay (wrap64 (Attempt it + 1)) (a_BaseDelay A) (a_MaxDelay A) in
                             case sys_dlq s2 of
                               None \<Rightarrow> (replay_failed @ Error (a_lib A) err, s2)
                             | Some store2 \<Rightarrow>
                                 (case with_store (a_ext A)
                                         (\<lambda>E. MarkRetry (a_lib A) (a_codec A) E (ID it) next_at (Some err) (a_MaxRetries A))
                                         store2 s2 of
                                    (Some markErr, s3) \<Rightarrow>
                                      (replay_failed @ Error (a_lib A) err @ and_not_updated @ Error (a_lib A) markErr @ '')'', s3)
                                  | (None, s3) \<Rightarrow> (replay_failed @ Error (a_lib A) err, s3))))
                   | (None, s1) \<Rightarrow>
                       (case sys_dlq s1 of
                          None \<Rightarrow> (replay_ok @ '' '' @ ident, s1)
                        | Some store1 \<Rightarrow>
                            (case with_store (a_ext A) (\<lambda>E. MarkDone (a_codec A) E (ID it)) store1 s1 of
                               (Some err, s2) \<Rightarrow> (sent_not_updated @ Error (a_lib A) err, s2)
                             | (None, s2) \<Rightarrow> (replay_ok @ '' '' @ ident, s2))))))
      | _ \<Rightarrow> (replay_unavailable, s))"

definition Show :: "'w Admin \<Rightarrow> string \<Rightarrow> 'w sys \<Rightarrow> string" where
  "Show A ident0 s =
     (case sys_dlq s of
        None \<Rightarrow> dlq_unavailable
      | Some store \<Rightarrow>
          (let ident = TrimSpace ident0 in
           if ident = [] then show_usage
           else
             (case Get ident store of
                None \<Rightarrow> item_missing @ ident
              | Some it \<Rightarrow>
                  Join [''DLQ item '' @ ID it,
                        ''- recipient: '' @ ItemRecipient it,
                        ''- status: '' @ status_text (Status it),
                        ''- attempts: '' @ FormatInt (Attempt it),
                        ''- last_error: '' @ admin_fallback (LastError it) ''-'',
                        ''- next_retry_at: '' @ Format_RFC3339 (a_lib A) (NextRetryAt it),
                        ''- created_at: '' @ Format_RFC3339 (a_lib A) (CreatedAt it),
                        ''- updated_at: '' @ Format_RFC3339 (a_lib A) (UpdatedAt it)] newline)))"

definition ReplayDry :: "'w Admin \<Rightarrow> context_values \<Rightarrow> string \<Rightarrow> 'w sys \<Rightarrow> string" where
  "ReplayDry A ctx ident0 s =
     (case (sys_dlq s, a_DryRun A) of
        (Some store, Some dry) \<Rightarrow>
          (let ident = TrimSpace ident0 in
           if ident = [] then dry_usage
           else
             (case Get ident store of
                None \<Rightarrow> item_missing @ ident
              | Some it \<Rightarrow>
                  (case dry ctx (ItemRecipient it) (RawMessage it) s of
                     Inl err \<Rightarrow> dry_failed @ Error (a_lib A) err
                   | Inr msg \<Rightarrow> dry_ok @ ident @ '': '' @ msg)))
      | _ \<Rightarrow> dry_unavailable)"

text \<open>The selection loop of \<open>ReplayBatch\<close>, with its break at the limit, and the replay loop.\<close>

fun select_loop :: "(status \<Rightarrow> bool) \<Rightarrow> int \<Rightarrow> item list \<Rightarrow> item list \<Rightarrow> item list" where
  "select_loop want limit selected [] = selected"
| "select_loop want limit selected (it # its) =
     (if \<not> want (Status it) then select_loop want limit selected its
      else let selected' = selected @ [it] in
        if int (length selected') = limit then selected' else select_loop want limit selected' its)"

fun batch_loop :: "'w Admin \<Rightarrow> context_values \<Rightarrow> item list \<Rightarrow> int \<times> int \<Rightarrow> 'w sys \<Rightarrow> (int \<times> int) \<times> 'w sys" where
  "batch_loop A ctx [] (okCount, failCount) s = ((okCount, failCount), s)"
| "batch_loop A ctx (it # its) (okCount, failCount) s =
     (case Replay A ctx (ID it) s of
        (res, s1) \<Rightarrow>
          if HasPrefix res replay_ok then batch_loop A ctx its (okCount + 1, failCount) s1
          else batch_loop A ctx its (okCount, failCount + 1) s1)"

definition ReplayBatch :: "'w Admin \<Rightarrow> context_values \<Rightarrow> int \<Rightarrow> string \<Rightarrow> 'w sys \<Rightarrow> string \<times> 'w sys" where
  "ReplayBatch A ctx limit mode s =
     (case (sys_dlq s, a_Relay A) of
        (Some store, Some _) \<Rightarrow>
          if limit \<le> 0 then (batch_usage, s)
          else
            (case parseReplayBatchMode (a_lib A) mode of
               Inl err \<Rightarrow> (Error (a_lib A) err, s)
             | Inr want \<Rightarrow>
                 (case in_world (x_store (a_ext A)) s of
                    (E, s1) \<Rightarrow>
                      (let selected = select_loop want limit [] (List_items E 1000000 store) in
                       if selected = [] then (batch_none, s1)
                       else
                         (case batch_loop A ctx selected (0, 0) s1 of
                            ((okCount, failCount), s2) \<Rightarrow>
                              (batch_done @ FormatInt (int (length selected)) @ '' ok='' @ FormatInt okCount
                                 @ '' failed='' @ FormatInt failCount, s2)))))
      | _ \<Rightarrow> (replay_unavailable, s))"

section \<open>Properties\<close>

text \<open>
  C34: The administrator's replay and the worker compute the same delays: the two formulations of
  the back-off agree for every base, maximum and attempt, overflow included, the jitter aside.
\<close>

theorem nextDelay_same:
  "admin_nextDelay attempt base mx = delay_before_jitter base mx attempt"
  by (simp add: admin_nextDelay_def delay_before_jitter_def Let_def)

lemma select_loop_take:
  "int (length selected) < limit \<Longrightarrow>
     select_loop want limit selected its
       = selected @ take (nat limit - length selected) (filter (\<lambda>it. want (Status it)) its)"
proof (induction its arbitrary: selected)
  case (Cons it its)
  show ?case
  proof (cases "want (Status it)")
    case True
    have n: "nat limit - length selected = Suc (nat limit - Suc (length selected))" using Cons.prems by simp
    show ?thesis
    proof (cases "int (length selected) + 1 = limit")
      case False
      then have "select_loop want limit (selected @ [it]) its
          = (selected @ [it]) @ take (nat limit - length (selected @ [it])) (filter (\<lambda>it. want (Status it)) its)"
        using Cons.prems by (intro Cons.IH) simp
      then show ?thesis using True False n by (simp add: Let_def add.commute)
    next
      case last: True
      then have "nat limit - Suc (length selected) = 0" by simp
      then show ?thesis using True last n by (simp add: Let_def add.commute)
    qed
  qed (use Cons in simp)
qed simp

lemma batch_loop_counts:
  "batch_loop A ctx its (a, b) s = ((a', b'), s') \<Longrightarrow>
     a' + b' = a + b + int (length its) \<and> a \<le> a' \<and> b \<le> b'"
proof (induction its arbitrary: a b s)
  case (Cons it its)
  obtain res s1 where r: "Replay A ctx (ID it) s = (res, s1)" by fastforce
  show ?case
  proof (cases "HasPrefix res replay_ok")
    case True
    then have "batch_loop A ctx its (a + 1, b) s1 = ((a', b'), s')" using Cons.prems r by simp
    from Cons.IH [OF this] show ?thesis by simp
  next
    case False
    then have "batch_loop A ctx its (a, b + 1) s1 = ((a', b'), s')" using Cons.prems r by simp
    from Cons.IH [OF this] show ?thesis by simp
  qed
qed simp

text \<open>
  A batch replay takes the most recently updated items of the wanted status, at most as many
  as asked for, replays each of them once, and reports counts that add up.
\<close>

lemma ReplayBatch_spec:
  assumes "sys_dlq s = Some store" and "a_Relay A = Some relay" and "0 < limit"
    and "parseReplayBatchMode (a_lib A) mode = Inr want"
  shows "\<exists>E s1. in_world (x_store (a_ext A)) s = (E, s1) \<and>
    (let selected = take (nat limit) (filter (\<lambda>it. want (Status it)) (List_items E 1000000 store)) in
     if selected = [] then ReplayBatch A ctx limit mode s = (batch_none, s1)
     else \<exists>ok bad s2. batch_loop A ctx selected (0, 0) s1 = ((ok, bad), s2)
       \<and> ok + bad = int (length selected) \<and> 0 \<le> ok \<and> 0 \<le> bad
       \<and> ReplayBatch A ctx limit mode s =
           (batch_done @ FormatInt (int (length selected)) @ '' ok='' @ FormatInt ok @ '' failed='' @ FormatInt bad, s2))"
proof -
  obtain E s1 where 1: "in_world (x_store (a_ext A)) s = (E, s1)" by fastforce
  let ?sel = "take (nat limit) (filter (\<lambda>it. want (Status it)) (List_items E 1000000 store))"
  have sel: "select_loop want limit [] (List_items E 1000000 store) = ?sel"
    using select_loop_take [of "[]" limit want] assms(3) by simp
  obtain ok bad s2 where 2: "batch_loop A ctx ?sel (0, 0) s1 = ((ok, bad), s2)" by (metis surj_pair)
  show ?thesis
    using batch_loop_counts [OF 2] assms 1 2
    by (intro exI [of _ E] exI [of _ s1]) (auto simp: ReplayBatch_def Let_def sel)
qed

context replayer
begin

text \<open>The administrator's replay has the same effect on the item as the worker's.\<close>

lemma Replay_items:
  assumes "a_Relay A = Some relay" "a_WithReplay A = Some WithDLQBypass" "sys_dlq s = Some st"
    "TrimSpace k = k" "k \<noteq> []" "items st k = Some it" "ID it = k"
  shows "\<exists>st' it'. sys_dlq (snd (Replay A ctx k s)) = Some st' \<and> items st' = (items st)(k \<mapsto> it')
    \<and> settled_as (a_lib A) (a_MaxRetries A) (fst (relay (WithDLQBypass ctx) (ItemRecipient it) (RawMessage it) s)) it it'
    \<and> (HasPrefix (fst (Replay A ctx k s)) replay_ok \<longrightarrow> Status it' = StatusDone)"
proof -
  obtain r s1 where 1: "relay (WithDLQBypass ctx) (ItemRecipient it) (RawMessage it) s = (r, s1)" by fastforce
  have st1: "sys_dlq s1 = Some st"
    using queue_kept [OF _ 1] assms(3) by (simp add: WithDLQBypass_def shouldBypassDLQ_def)
  show ?thesis
  proof (cases r)
    case None
    obtain E s2 where 2: "in_world (x_store (a_ext A)) s1 = (E, s2)" by fastforce
    obtain q st' where q: "MarkDone (a_codec A) E k st = (q, st')" by fastforce
    have "items st' = (items st)(k \<mapsto> it\<lparr>Status := StatusDone, UpdatedAt := se_now E\<rparr>)"
      using MarkDone_items [of "a_codec A" E k st] q assms(6) by simp
    moreover note done_settled [of "a_lib A" "a_MaxRetries A" it "se_now E"]
    moreover have "sys_dlq (snd (Replay A ctx k s)) = Some st'"
      using assms 1 2 q st1 None by (simp add: Replay_def Get_def Let_def with_store_def split: option.splits)
    ultimately show ?thesis using 1 None by auto
  next
    case (Some err)
    obtain now s2 where 2: "in_world (x_now (a_ext A)) s1 = (now, s2)" by fastforce
    have st2: "sys_dlq s2 = Some st" using st1 in_worldD [OF 2] by simp
    obtain E s3 where 3: "in_world (x_store (a_ext A)) s2 = (E, s3)" by fastforce
    let ?t = "now + admin_nextDelay (wrap64 (Attempt it + 1)) (a_BaseDelay A) (a_MaxDelay A)"
    obtain q st' where q: "MarkRetry (a_lib A) (a_codec A) E k ?t (Some err) (a_MaxRetries A) st = (q, st')" by fastforce
    let ?it = "retried (a_lib A) (se_now E) ?t (Some err) (a_MaxRetries A) it"
    have "items st' = (items st)(k \<mapsto> ?it)"
      using MarkRetry_items [of "a_lib A" "a_codec A" E k ?t "Some err" "a_MaxRetries A" st] q assms(6) by simp
    moreover have "settled_as (a_lib A) (a_MaxRetries A) (Some err) it ?it" by (rule retried_settled)
    moreover have "sys_dlq (snd (Replay A ctx k s)) = Some st'
        \<and> HasPrefix (fst (Replay A ctx k s)) replay_failed"
      using assms 1 2 3 q st2 Some
      by (simp add: Replay_def Get_def Let_def with_store_def HasPrefix_iff split: option.splits)
    moreover have "\<not> HasPrefix x replay_ok" if "HasPrefix x replay_failed" for x
      using that by (auto simp: HasPrefix_iff replay_ok_def replay_failed_def)
    ultimately show ?thesis using 1 Some by auto
  qed
qed

end

text \<open>
  The administrator's replay of an item settles it like a round of the worker: it ends
  delivered, or with one more failed attempt; success is reported only when it is marked as
  delivered; no other item changes. This holds for every item, also one that was delivered
  before, which a failing replay makes pending again.
\<close>

lemma Replay_settles:
  assumes "a_Relay A = Some (Relay S)" and "a_WithReplay A = Some WithDLQBypass" and "sys_dlq s = Some st"
    and "TrimSpace k = k" and "k \<noteq> []" and "items st k = Some it" and "ID it = k"
  shows "\<exists>st' it'. sys_dlq (snd (Replay A ctx k s)) = Some st' \<and> items st' = (items st)(k \<mapsto> it')
    \<and> settled_as (a_lib A) (a_MaxRetries A) (fst (Relay S (WithDLQBypass ctx) (ItemRecipient it) (RawMessage it) s)) it it'
    \<and> (HasPrefix (fst (Replay A ctx k s)) replay_ok \<longrightarrow> Status it' = StatusDone)"
  using assms by (rule relay_replayer.Replay_items)

end
