(* ===== verification/Go_Sort.thy ===== *)
theory Go_Sort
  imports Go_Strings "HOL-Library.List_Lexorder" "HOL-Library.Char_ord"
begin

text \<open>
  Sorting what was collected from a map. Go compares strings bytewise, which is the
  lexicographic order of \<open>List_Lexorder\<close> over \<open>Char_ord\<close>.

  A loop over a map fills a slice in an unspecified order. When the comparison function tells
  elements with different keys apart, and no key occurs twice, the sorted slice does not depend
  on that order: the locale \<open>keyed_slice_order\<close>.
\<close>

locale keyed_slice_order = slice_order +
  fixes key :: "'a \<Rightarrow> 'k"
  assumes total: "key x \<noteq> key y \<Longrightarrow> lt x y \<or> lt y x"
begin

lemma sorted_unique:
  "sorted_wrt (\<lambda>a b. \<not> lt b a) xs \<Longrightarrow> sorted_wrt (\<lambda>a b. \<not> lt b a) ys \<Longrightarrow> mset xs = mset ys
     \<Longrightarrow> distinct (map key xs) \<Longrightarrow> xs = ys"
proof (induction xs arbitrary: ys)
  case (Cons x xs)
  then obtain y ys' where ys: "ys = y # ys'" by (cases ys) auto
  have sets: "insert x (set xs) = insert y (set ys')"
    using Cons.prems(3) ys by (metis list.simps(15) set_mset_mset)
  have "x = y"
  proof (rule ccontr)
    assume neq: "x \<noteq> y"
    with sets have "x \<in> set ys'" "y \<in> set xs" by auto
    then have "\<not> lt x y" "\<not> lt y x" "key x \<noteq> key y" using Cons.prems ys by auto
    then show False using total by blast
  qed
  then show ?case using Cons ys by simp
qed simp

lemma sort_slice_unique:
  "mset xs = mset ys \<Longrightarrow> distinct (map key xs) \<Longrightarrow> sort_slice lt xs = sort_slice lt ys"
proof (rule sorted_unique)
  assume "mset xs = mset ys" "distinct (map key xs)"
  then show "distinct (map key (sort_slice lt xs))"
    by (metis mset_eq_imp_distinct_iff mset_map mset_sort_slice)
qed (simp_all add: sorted_sort_slice)

end

text \<open>\<open>sort.Strings\<close>.\<close>

definition sort_Strings :: "string list \<Rightarrow> string list" where
  "sort_Strings xs = sort_slice (\<lambda>a b. a < b) xs"

interpretation strings: keyed_slice_order "\<lambda>a b. (a :: string) < b" "\<lambda>s. s"
  by unfold_locales auto

end
