(* ===== verification/Metrics_Report.thy ===== *)
theory Metrics_Report
  imports Metrics Go_Sort
begin

text \<open>
  What \<open>internal/metrics/collector.go\<close> tells about the recorded figures: the lines served over HTTP
  (\<open>Handler\<close>) and the report of the bot commands (\<open>BuildLastDaysReport\<close>).

  A loop over one of the collector's maps takes the list of its keys in the order the runtime
  iterated it. The rendering of a sum of latencies in floating point is an argument.
\<close>

section \<open>The exposition\<close>

definition boolLabel :: "bool \<Rightarrow> string" where
  "boolLabel v = (if v then ''true'' else ''false'')"

definition escapeLabel :: "string \<Rightarrow> string" where
  "escapeLabel v =
     Replace [([CHR 0x5C], [CHR 0x5C, CHR 0x5C]), ([CHR 0x22], [CHR 0x5C, CHR 0x22]), ([CHR 0x0A], [CHR 0x5C, CHR ''n''])] v"

text \<open>The comparison of \<open>deliveryMetricLines\<close>.\<close>

definition delivery_less :: "deliveryKey \<Rightarrow> deliveryKey \<Rightarrow> bool" where
  "delivery_less a b =
     (if Address a \<noteq> Address b then Address a < Address b
      else if Delivered a \<noteq> Delivered b then \<not> Delivered a \<and> Delivered b
      else if MaxRecipient a \<noteq> MaxRecipient b then MaxRecipient a < MaxRecipient b
      else RecipientName a < RecipientName b)"

definition delivery_line :: "golib \<Rightarrow> deliveryKey \<Rightarrow> u64 \<Rightarrow> string" where
  "delivery_line L k n =
     ''smtp_relay_delivery_total{address='' @ strconv_Quote L (escapeLabel (Address k))
       @ '',delivered='' @ strconv_Quote L (boolLabel (Delivered k))
       @ '',max_recipient_id='' @ strconv_Quote L (escapeLabel (MaxRecipient k))
       @ '',max_recipient_name='' @ strconv_Quote L (escapeLabel (RecipientName k))
       @ ''} '' @ FormatInt (uint n)"

definition deliveryMetricLines :: "golib \<Rightarrow> deliveryKey list \<Rightarrow> Collector \<Rightarrow> string list" where
  "deliveryMetricLines L keys c =
     map (\<lambda>k. delivery_line L k (count_at (deliveryByAddress c) k)) (sort_slice delivery_less keys)"

text \<open>\<open>formatPromFloat\<close> of a bucket bound: seconds with six decimals.\<close>

definition formatPromFloat :: "duration \<Rightarrow> string" where
  "formatPromFloat ub =
     (let us = ub div 1000; frac = FormatInt (us mod 1000000) in
      FormatInt (us div 1000000) @ ''.'' @ replicate (6 - length frac) (CHR ''0'') @ frac)"

definition stage_lines :: "golib \<Rightarrow> (duration list \<Rightarrow> string) \<Rightarrow> string \<Rightarrow> latencyHistogram \<Rightarrow> string list" where
  "stage_lines L fmt_sum stage h =
     (let q = strconv_Quote L (escapeLabel stage) in
      map2 (\<lambda>ub n. ''smtp_relay_latency_seconds_bucket{stage='' @ q @ '',le='' @ strconv_Quote L (formatPromFloat ub)
              @ ''} '' @ FormatInt (uint n)) latencyBucketUpperBounds (buckets h)
      @ [''smtp_relay_latency_seconds_bucket{stage='' @ q @ '',le='' @ [CHR 0x22] @ ''+Inf'' @ [CHR 0x22] @ ''} ''
           @ FormatInt (uint (hist_count h)),
         ''smtp_relay_latency_seconds_sum{stage='' @ q @ ''} '' @ fmt_sum (hist_sum h),
         ''smtp_relay_latency_seconds_count{stage='' @ q @ ''} '' @ FormatInt (uint (hist_count h))])"

definition latencyMetricLines ::
  "golib \<Rightarrow> (duration list \<Rightarrow> string) \<Rightarrow> string list \<Rightarrow> Collector \<Rightarrow> string list" where
  "latencyMetricLines L fmt_sum stages c =
     concat (map (\<lambda>stage. case latencies c stage of
                            None \<Rightarrow> [] | Some h \<Rightarrow> stage_lines L fmt_sum stage h)
       (sort_Strings stages))"

definition counter_line :: "string \<Rightarrow> u64 \<Rightarrow> string" where
  "counter_line name n = name @ '' '' @ FormatInt (uint n)"

text \<open>The body of the response, line by line.\<close>

definition Handler ::
  "golib \<Rightarrow> (duration list \<Rightarrow> string) \<Rightarrow> deliveryKey list \<Rightarrow> string list \<Rightarrow> Collector \<Rightarrow> string list" where
  "Handler L fmt_sum keys stages c =
     [counter_line ''smtp_relay_received_total'' (received c),
      counter_line ''smtp_relay_relayed_total'' (relayed c),
      counter_line ''smtp_relay_failed_total'' (failed c),
      counter_line ''smtp_relay_text_sent_total'' (textSent c),
      counter_line ''smtp_relay_files_sent_total'' (filesSent c),
      counter_line ''smtp_relay_dlq_enqueued_total'' (dlqEnqueued c),
      counter_line ''smtp_relay_dlq_replayed_total'' (dlqReplayed c),
      counter_line ''smtp_relay_dlq_replay_failed_total'' (dlqReplayFailed c),
      counter_line ''smtp_relay_dlq_pending'' (dlqPending c),
      counter_line ''smtp_relay_dlq_failed'' (dlqFailed c),
      counter_line ''smtp_relay_dlq_done'' (dlqDone c),
      counter_line ''smtp_relay_dlq_oldest_pending_seconds'' (dlqOldestSec c),
      counter_line ''max_send_rate_limited_total'' (maxSendRateLimited c),
      counter_line ''max_send_queue_depth'' (maxSendQueueDepth c),
      counter_line ''max_send_queue_dropped_total'' (maxSendQueueDrop c)]
     @ deliveryMetricLines L keys c @ latencyMetricLines L fmt_sum stages c"

section \<open>The report\<close>

definition report_header :: string where
  "report_header =
     [CHR 0xD0, CHR 0xA1, CHR 0xD1, CHR 0x82, CHR 0xD0, CHR 0xB0, CHR 0xD1, CHR 0x82, CHR 0xD0,
     CHR 0xB8, CHR 0xD1, CHR 0x81, CHR 0xD1, CHR 0x82, CHR 0xD0, CHR 0xB8, CHR 0xD0, CHR 0xBA,
     CHR 0xD0, CHR 0xB0, CHR 0x20, CHR 0xD0, CHR 0xB7, CHR 0xD0, CHR 0xB0, CHR 0x20]"

definition report_days :: string where
  "report_days =
     '' '' @ [CHR 0xD0, CHR 0xB4, CHR 0xD0, CHR 0xBD, CHR 0xD0, CHR 0xB5, CHR 0xD0, CHR 0xB9] @
     '':''"

definition report_total :: string where
  "report_total =
     [CHR 0xD0, CHR 0x9F, CHR 0xD1, CHR 0x80, CHR 0xD0, CHR 0xB8, CHR 0xD0, CHR 0xBD, CHR 0xD1,
     CHR 0x8F, CHR 0xD1, CHR 0x82, CHR 0xD0, CHR 0xBE] @ '': ''"

definition report_delivered :: string where
  "report_delivered =
     [CHR 0xD0, CHR 0x94, CHR 0xD0, CHR 0xBE, CHR 0xD1, CHR 0x81, CHR 0xD1, CHR 0x82, CHR 0xD0,
     CHR 0xB0, CHR 0xD0, CHR 0xB2, CHR 0xD0, CHR 0xBB, CHR 0xD0, CHR 0xB5, CHR 0xD0, CHR 0xBD,
     CHR 0xD0, CHR 0xBE] @ '': ''"

definition report_failed :: string where
  "report_failed =
     [CHR 0xD0, CHR 0x9E, CHR 0xD1, CHR 0x88, CHR 0xD0, CHR 0xB8, CHR 0xD0, CHR 0xB1, CHR 0xD0,
     CHR 0xBE, CHR 0xD0, CHR 0xBA] @ '': ''"

definition top_addresses :: string where
  "top_addresses =
     [CHR 0xD0, CHR 0xA2, CHR 0xD0, CHR 0xBE, CHR 0xD0, CHR 0xBF, CHR 0x20, CHR 0xD0, CHR 0xB0,
     CHR 0xD0, CHR 0xB4, CHR 0xD1, CHR 0x80, CHR 0xD0, CHR 0xB5, CHR 0xD1, CHR 0x81, CHR 0xD0,
     CHR 0xBE, CHR 0xD0, CHR 0xB2] @ '':''"

definition top_recipients :: string where
  "top_recipients =
     [CHR 0xD0, CHR 0xA2, CHR 0xD0, CHR 0xBE, CHR 0xD0, CHR 0xBF, CHR 0x20, CHR 0xD0, CHR 0xBF,
     CHR 0xD0, CHR 0xBE, CHR 0xD0, CHR 0xBB, CHR 0xD1, CHR 0x83, CHR 0xD1, CHR 0x87, CHR 0xD0,
     CHR 0xB0, CHR 0xD1, CHR 0x82, CHR 0xD0, CHR 0xB5, CHR 0xD0, CHR 0xBB, CHR 0xD0, CHR 0xB5,
     CHR 0xD0, CHR 0xB9, CHR 0x20] @ ''MAX:''"

definition aggregated :: string where
  "aggregated =
     [CHR 0xD0, CHR 0x90, CHR 0xD0, CHR 0xB3, CHR 0xD1, CHR 0x80, CHR 0xD0, CHR 0xB5, CHR 0xD0,
     CHR 0xB3, CHR 0xD0, CHR 0xB8, CHR 0xD1, CHR 0x80, CHR 0xD0, CHR 0xBE, CHR 0xD0, CHR 0xB2,
     CHR 0xD0, CHR 0xB0, CHR 0xD0, CHR 0xBD, CHR 0xD0, CHR 0xBE, CHR 0x20, CHR 0xD0, CHR 0xBF,
     CHR 0xD0, CHR 0xBE, CHR 0x20, CHR 0xD0, CHR 0xBF, CHR 0xD0, CHR 0xBE, CHR 0xD0, CHR 0xBB,
     CHR 0xD1, CHR 0x83, CHR 0xD1, CHR 0x87, CHR 0xD0, CHR 0xB0, CHR 0xD1, CHR 0x82, CHR 0xD0,
     CHR 0xB5, CHR 0xD0, CHR 0xBB, CHR 0xD1, CHR 0x8F, CHR 0xD0, CHR 0xBC, CHR 0x20] @ ''MAX:''"

definition unique_recipients :: string where
  "unique_recipients =
     ''- '' @ [CHR 0xD0, CHR 0xA3, CHR 0xD0, CHR 0xBD, CHR 0xD0, CHR 0xB8, CHR 0xD0, CHR 0xBA,
     CHR 0xD0, CHR 0xB0, CHR 0xD0, CHR 0xBB, CHR 0xD1, CHR 0x8C, CHR 0xD0, CHR 0xBD, CHR 0xD1,
     CHR 0x8B, CHR 0xD1, CHR 0x85, CHR 0x20, CHR 0xD0, CHR 0xBF, CHR 0xD0, CHR 0xBE, CHR 0xD0,
     CHR 0xBB, CHR 0xD1, CHR 0x83, CHR 0xD1, CHR 0x87, CHR 0xD0, CHR 0xB0, CHR 0xD1, CHR 0x82,
     CHR 0xD0, CHR 0xB5, CHR 0xD0, CHR 0xBB, CHR 0xD0, CHR 0xB5, CHR 0xD0, CHR 0xB9] @ '': ''"

definition agg_total :: string where
  "agg_total =
     '': '' @ [CHR 0xD0, CHR 0xB2, CHR 0xD1, CHR 0x81, CHR 0xD0, CHR 0xB5, CHR 0xD0, CHR 0xB3,
     CHR 0xD0, CHR 0xBE, CHR 0x20]"

definition agg_delivered :: string where
  "agg_delivered =
     '', '' @ [CHR 0xD0, CHR 0xB4, CHR 0xD0, CHR 0xBE, CHR 0xD1, CHR 0x81, CHR 0xD1, CHR 0x82,
     CHR 0xD0, CHR 0xB0, CHR 0xD0, CHR 0xB2, CHR 0xD0, CHR 0xBB, CHR 0xD0, CHR 0xB5, CHR 0xD0,
     CHR 0xBD, CHR 0xD0, CHR 0xBE, CHR 0x20]"

definition agg_failed :: string where
  "agg_failed =
     '', '' @ [CHR 0xD0, CHR 0xBE, CHR 0xD1, CHR 0x88, CHR 0xD0, CHR 0xB8, CHR 0xD0, CHR 0xB1,
     CHR 0xD0, CHR 0xBE, CHR 0xD0, CHR 0xBA, CHR 0x20]"

record recipientStats =
  rs_Total :: int
  rs_Delivered :: int
  rs_Failed :: int

definition formatRecipientLabel :: "string \<Rightarrow> string \<Rightarrow> string" where
  "formatRecipientLabel name ident =
     (let cleanName = (if TrimSpace name = [] then ''unknown'' else TrimSpace name);
          cleanID = (if TrimSpace ident = [] then ''unknown'' else TrimSpace ident)
      in cleanName @ '' (id='' @ cleanID @ '')'')"

text \<open>\<open>topK\<close> and \<open>topRecipientStats\<close>: the items in iteration order, sorted, the first \<open>k\<close>.\<close>

definition kv_less :: "string \<times> int \<Rightarrow> string \<times> int \<Rightarrow> bool" where
  "kv_less a b = (if snd a \<noteq> snd b then snd a > snd b else fst a < fst b)"

definition first_k :: "int \<Rightarrow> 'a list \<Rightarrow> 'a list" where
  "first_k k xs = (if k > 0 \<and> int (length xs) > k then take (nat k) xs else xs)"

definition topK :: "(string \<times> int) list \<Rightarrow> int \<Rightarrow> (string \<times> int) list" where
  "topK its k = first_k k (sort_slice kv_less its)"

definition stat_less :: "string \<times> recipientStats \<Rightarrow> string \<times> recipientStats \<Rightarrow> bool" where
  "stat_less a b =
     (if rs_Total (snd a) \<noteq> rs_Total (snd b) then rs_Total (snd a) > rs_Total (snd b) else fst a < fst b)"

definition topRecipientStats :: "(string \<times> recipientStats) list \<Rightarrow> int \<Rightarrow> (string \<times> recipientStats) list" where
  "topRecipientStats its k = first_k k (sort_slice stat_less its)"

text \<open>The variables of the loop over the events.\<close>

record report_acc =
  r_total :: int
  r_delivered :: int
  r_failed :: int
  byAddress :: "string \<rightharpoonup> int"
  byRecipient :: "string \<rightharpoonup> int"
  recipientAgg :: "string \<rightharpoonup> recipientStats"

definition acc_init :: report_acc where
  "acc_init = \<lparr>r_total = 0, r_delivered = 0, r_failed = 0, byAddress = Map.empty, byRecipient = Map.empty,
     recipientAgg = Map.empty\<rparr>"

definition bump :: "(string \<rightharpoonup> int) \<Rightarrow> string \<Rightarrow> (string \<rightharpoonup> int)" where
  "bump m k = m(k \<mapsto> (case m k of None \<Rightarrow> 0 | Some n \<Rightarrow> n) + 1)"

definition agg_event :: "bool \<Rightarrow> recipientStats option \<Rightarrow> recipientStats" where
  "agg_event delivered agg0 =
     (let agg = (case agg0 of None \<Rightarrow> \<lparr>rs_Total = 0, rs_Delivered = 0, rs_Failed = 0\<rparr> | Some a \<Rightarrow> a) in
      if delivered then agg\<lparr>rs_Total := rs_Total agg + 1, rs_Delivered := rs_Delivered agg + 1\<rparr>
      else agg\<lparr>rs_Total := rs_Total agg + 1, rs_Failed := rs_Failed agg + 1\<rparr>)"

definition acc_event :: "time \<Rightarrow> deliveryEvent \<Rightarrow> report_acc \<Rightarrow> report_acc" where
  "acc_event since ev a =
     (if At ev < since then a
      else
        let k = Key ev; recipientKey = formatRecipientLabel (RecipientName k) (MaxRecipient k) in
        a\<lparr>r_total := r_total a + 1,
          r_delivered := (if Delivered k then r_delivered a + 1 else r_delivered a),
          r_failed := (if Delivered k then r_failed a else r_failed a + 1),
          byAddress := bump (byAddress a) (Address k),
          byRecipient := (if Delivered k then bump (byRecipient a) recipientKey else byRecipient a),
          recipientAgg := (recipientAgg a)(recipientKey \<mapsto> agg_event (Delivered k) (recipientAgg a recipientKey))\<rparr>)"

definition kv_line :: "string \<times> int \<Rightarrow> string" where
  "kv_line kv = ''- '' @ fst kv @ '': '' @ FormatInt (snd kv)"

definition stat_line :: "string \<times> recipientStats \<Rightarrow> string" where
  "stat_line kv = ''- '' @ fst kv @ agg_total @ FormatInt (rs_Total (snd kv)) @ agg_delivered
     @ FormatInt (rs_Delivered (snd kv)) @ agg_failed @ FormatInt (rs_Failed (snd kv))"

text \<open>The items of a map in the order of its keys.\<close>

definition map_items :: "('k \<rightharpoonup> 'v) \<Rightarrow> 'k list \<Rightarrow> ('k \<times> 'v) list" where
  "map_items m ks = List.map_filter (\<lambda>k. map_option (Pair k) (m k)) ks"

definition report_lines :: "int \<Rightarrow> string list \<Rightarrow> string list \<Rightarrow> string list \<Rightarrow> report_acc \<Rightarrow> string list" where
  "report_lines days ka kr kg a =
     [report_header @ FormatInt days @ report_days, report_total @ FormatInt (r_total a),
      report_delivered @ FormatInt (r_delivered a), report_failed @ FormatInt (r_failed a)]
     @ (if map_items (byAddress a) ka \<noteq> [] then top_addresses # map kv_line (topK (map_items (byAddress a) ka) 5) else [])
     @ (if map_items (byRecipient a) kr \<noteq> [] then top_recipients # map kv_line (topK (map_items (byRecipient a) kr) 5) else [])
     @ (if map_items (recipientAgg a) kg \<noteq> []
        then [aggregated, unique_recipients @ FormatInt (int (length (map_items (recipientAgg a) kg)))]
             @ map stat_line (topRecipientStats (map_items (recipientAgg a) kg) 5)
        else [])"

text \<open>\<open>ka\<close>, \<open>kr\<close> and \<open>kg\<close> are the iteration orders of the three maps.\<close>

definition BuildLastDaysReport ::
  "time \<Rightarrow> string list \<Rightarrow> string list \<Rightarrow> string list \<Rightarrow> int \<Rightarrow> Collector \<Rightarrow> string" where
  "BuildLastDaysReport now ka kr kg days0 c =
     (let days = (if days0 \<le> 0 then 7 else days0);
          since = now + wrap64 (- days * 24 * 3600000000000);
          a = fold (acc_event since) (deliveryEvents c) acc_init
      in Join (report_lines days ka kr kg a) [CHR 0x0A])"


section \<open>The order of the output\<close>

interpretation deliveries: keyed_slice_order delivery_less "\<lambda>k. k"
proof
  fix x y z :: deliveryKey
  show "delivery_less x y \<Longrightarrow> \<not> delivery_less y x"
    by (auto simp: delivery_less_def split: if_splits)
  show "\<not> delivery_less x y \<Longrightarrow> \<not> delivery_less y z \<Longrightarrow> \<not> delivery_less x z"
    by (auto simp: delivery_less_def not_less split: if_splits dest: order_trans)
  show "x \<noteq> y \<Longrightarrow> delivery_less x y \<or> delivery_less y x"
    by (cases x; cases y) (auto simp: delivery_less_def split: if_splits)
qed

interpretation top_items: keyed_slice_order kv_less fst
  by unfold_locales (auto simp: kv_less_def split: if_splits)

interpretation top_stats: keyed_slice_order stat_less fst
  by unfold_locales (auto simp: stat_less_def split: if_splits)

lemma map_items_keys: "set ks \<subseteq> dom m \<Longrightarrow> map fst (map_items m ks) = ks"
  by (induction ks) (auto simp: map_items_def List.map_filter_def)

lemma mset_map_items: "mset ks = mset ks' \<Longrightarrow> mset (map_items m ks) = mset (map_items m ks')"
  by (simp add: map_items_def List.map_filter_def)

lemma map_items_order:
  assumes "map_order m ks" and "map_order m ks'"
  shows "mset (map_items m ks) = mset (map_items m ks')" and "distinct (map fst (map_items m ks))"
    and "length (map_items m ks) = length (map_items m ks')"
proof -
  show eq: "mset (map_items m ks) = mset (map_items m ks')"
    using map_order_unique [OF assms] by (rule mset_map_items)
  then show "length (map_items m ks) = length (map_items m ks')" by (rule mset_eq_length)
  show "distinct (map fst (map_items m ks))"
    using assms(1) map_items_keys [of ks m] by (simp add: map_order_def)
qed

lemma topK_order: "map_order m ks \<Longrightarrow> map_order m ks' \<Longrightarrow> topK (map_items m ks) k = topK (map_items m ks') k"
  unfolding topK_def using map_items_order top_items.sort_slice_unique by metis

lemma topRecipientStats_order:
  "map_order m ks \<Longrightarrow> map_order m ks' \<Longrightarrow> topRecipientStats (map_items m ks) k = topRecipientStats (map_items m ks') k"
  unfolding topRecipientStats_def using map_items_order top_stats.sort_slice_unique by metis

lemma map_items_Nil: "map_order m ks \<Longrightarrow> map_order m ks' \<Longrightarrow> map_items m ks = [] \<longleftrightarrow> map_items m ks' = []"
  using map_items_order(3) [of m ks ks'] by (metis length_0_conv)

lemma report_lines_order:
  assumes "map_order (byAddress a) ka" "map_order (byAddress a) ka'"
    and "map_order (byRecipient a) kr" "map_order (byRecipient a) kr'"
    and "map_order (recipientAgg a) kg" "map_order (recipientAgg a) kg'"
  shows "report_lines days ka kr kg a = report_lines days ka' kr' kg' a"
  unfolding report_lines_def topK_order [OF assms(1,2)] topK_order [OF assms(3,4)] topRecipientStats_order [OF assms(5,6)]
    map_items_Nil [OF assms(1,2)] map_items_Nil [OF assms(3,4)] map_items_Nil [OF assms(5,6)] map_items_order(3) [OF assms(5,6)]
  by (rule refl)

lemma sorted_keys_order: "map_order m ks \<Longrightarrow> map_order m ks' \<Longrightarrow> sort_slice delivery_less ks = sort_slice delivery_less ks'"
  by (rule deliveries.sort_slice_unique, erule (1) map_order_unique) (simp add: map_order_def)

lemma sorted_stages_order: "map_order m ss \<Longrightarrow> map_order m ss' \<Longrightarrow> sort_Strings ss = sort_Strings ss'"
  unfolding sort_Strings_def by (rule strings.sort_slice_unique, erule (1) map_order_unique) (simp add: map_order_def)

text \<open>
  The metrics page does not depend on the order in which Go iterates the collector's maps. Its
  delivery lines are one for each counted combination of address, outcome and recipient, with
  its count, in strictly ascending order.
\<close>

lemma exposition_deterministic:
  assumes "map_order (deliveryByAddress c) ks" "map_order (deliveryByAddress c) ks'"
    and "map_order (latencies c) ss" "map_order (latencies c) ss'"
  shows "Handler L fmt ks ss c = Handler L fmt ks' ss' c
    \<and> (\<exists>sorted. deliveryMetricLines L ks c
          = map (\<lambda>k. delivery_line L k (the (deliveryByAddress c k))) sorted
        \<and> sorted_wrt delivery_less sorted \<and> set sorted = dom (deliveryByAddress c))"
proof -
  let ?s = "sort_slice delivery_less ks"
  have "set ?s = dom (deliveryByAddress c)" "distinct ?s" using assms(1) by (simp_all add: map_order_def)
  moreover have "sorted_wrt delivery_less ?s"
    using deliveries.sorted_sort_slice [of ks] \<open>distinct ?s\<close> deliveries.total
    unfolding sorted_wrt_iff_nth_less by (metis nat_neq_iff nth_eq_iff_index_eq order.strict_trans)
  moreover have "deliveryMetricLines L ks c = map (\<lambda>k. delivery_line L k (the (deliveryByAddress c k))) ?s"
    using assms(1) by (auto simp: deliveryMetricLines_def count_at_def map_order_def split: option.splits)
  ultimately have "\<exists>sorted. deliveryMetricLines L ks c
          = map (\<lambda>k. delivery_line L k (the (deliveryByAddress c k))) sorted
        \<and> sorted_wrt delivery_less sorted \<and> set sorted = dom (deliveryByAddress c)" by blast
  moreover have "Handler L fmt ks ss c = Handler L fmt ks' ss' c"
    using sorted_keys_order [OF assms(1,2)] sorted_stages_order [OF assms(3,4)]
    by (simp add: Handler_def deliveryMetricLines_def latencyMetricLines_def)
  ultimately show ?thesis by blast
qed

section \<open>What the report counts\<close>

text \<open>The counts of a list of events, by definition.\<close>

definition recent :: "time \<Rightarrow> Collector \<Rightarrow> deliveryKey list" where
  "recent since c = map Key (filter (\<lambda>ev. since \<le> At ev) (deliveryEvents c))"

definition recipient_label :: "deliveryKey \<Rightarrow> string" where
  "recipient_label k = formatRecipientLabel (RecipientName k) (MaxRecipient k)"

definition tally :: "('a \<Rightarrow> bool) \<Rightarrow> 'a list \<Rightarrow> int" where
  "tally P xs = int (length (filter P xs))"

lemma tally_simps [simp]:
  "tally P [] = 0" "tally P (xs @ [x]) = tally P xs + (if P x then 1 else 0)" "tally P xs + 1 \<noteq> 0"
  by (simp_all add: tally_def)

definition positive :: "int \<Rightarrow> int option" where
  "positive n = (if n = 0 then None else Some n)"

definition stats_of :: "deliveryKey list \<Rightarrow> string \<Rightarrow> recipientStats option" where
  "stats_of ks l =
     (if tally (\<lambda>k. recipient_label k = l) ks = 0 then None
      else Some \<lparr>rs_Total = tally (\<lambda>k. recipient_label k = l) ks,
                 rs_Delivered = tally (\<lambda>k. recipient_label k = l \<and> Delivered k) ks,
                 rs_Failed = tally (\<lambda>k. recipient_label k = l \<and> \<not> Delivered k) ks\<rparr>)"

definition counted :: "deliveryKey list \<Rightarrow> report_acc" where
  "counted ks = \<lparr>r_total = int (length ks), r_delivered = tally Delivered ks, r_failed = tally (\<lambda>k. \<not> Delivered k) ks,
     byAddress = (\<lambda>a. positive (tally (\<lambda>k. Address k = a) ks)),
     byRecipient = (\<lambda>l. positive (tally (\<lambda>k. recipient_label k = l \<and> Delivered k) ks)),
     recipientAgg = stats_of ks\<rparr>"

lemma bump_positive:
  "bump (\<lambda>a. positive (tally (P a) ks)) k = (\<lambda>a. positive (tally (P a) ks + (if a = k then 1 else 0)))"
  by (rule ext) (simp add: bump_def positive_def)

lemma agg_event_stats:
  "(stats_of ks)(recipient_label k \<mapsto> agg_event (Delivered k) (stats_of ks (recipient_label k))) = stats_of (ks @ [k])"
proof
  fix l
  let ?n = "tally (\<lambda>k'. recipient_label k' = recipient_label k) ks"
  have zero: "?n = 0 \<Longrightarrow> tally (\<lambda>k'. recipient_label k' = recipient_label k \<and> P k') ks = 0" for P
    by (auto simp: tally_def filter_empty_conv)
  show "((stats_of ks)(recipient_label k \<mapsto> agg_event (Delivered k) (stats_of ks (recipient_label k)))) l
      = stats_of (ks @ [k]) l"
    using zero [of Delivered] zero [of "\<lambda>k. \<not> Delivered k"]
    by (auto simp: stats_of_def agg_event_def)
qed

lemma acc_event_counted:
  "acc_event since ev (counted ks) = (if since \<le> At ev then counted (ks @ [Key ev]) else counted ks)"
  by (simp add: acc_event_def counted_def Let_def bump_positive agg_event_stats recipient_label_def [symmetric]
      eq_commute)

lemma fold_counted:
  "fold (acc_event since) evs (counted ks) = counted (ks @ map Key (filter (\<lambda>ev. since \<le> At ev) evs))"
  by (induction evs arbitrary: ks) (simp_all add: acc_event_counted)

lemma counted_Nil: "counted [] = acc_init"
  by (simp add: counted_def acc_init_def positive_def stats_of_def [abs_def])

text \<open>
  C37: The report is rendered from exact counts of the events of its period: the total, the
  deliveries and the failures, per address, per recipient that was reached, and per recipient.
  It does not depend on the order in which the maps of these counts are iterated.
\<close>

theorem report_counts:
  assumes "days > 0" and "a = counted (recent (now + wrap64 (- days * 24 * 3600000000000)) c)"
    and "map_order (byAddress a) ka" "map_order (byAddress a) ka'"
    and "map_order (byRecipient a) kr" "map_order (byRecipient a) kr'"
    and "map_order (recipientAgg a) kg" "map_order (recipientAgg a) kg'"
  shows "BuildLastDaysReport now ka kr kg days c = Join (report_lines days ka' kr' kg' a) [CHR 0x0A]
    \<and> r_delivered a + r_failed a = r_total a"
proof -
  have "fold (acc_event (now + wrap64 (- days * 24 * 3600000000000))) (deliveryEvents c) acc_init = a"
    using fold_counted [of _ "deliveryEvents c" "[]"] assms(2) by (simp add: counted_Nil recent_def)
  then have "BuildLastDaysReport now ka kr kg days c = Join (report_lines days ka kr kg a) [CHR 0x0A]"
    using assms(1) by (simp add: BuildLastDaysReport_def)
  moreover have "r_delivered a + r_failed a = r_total a"
    using assms(2) sum_length_filter_compl [of Delivered] by (simp add: counted_def tally_def flip: of_nat_add)
  ultimately show ?thesis using report_lines_order [OF assms(3-8)] by simp
qed

text \<open>The report on two deliveries, with the maps iterated in one order and in the other.\<close>

lemma tally_zero: "tally P ks = 0 \<longleftrightarrow> (\<forall>k \<in> set ks. \<not> P k)"
  by (simp add: tally_def filter_empty_conv)

lemma counted_dom:
  "dom (byAddress (counted ks)) = Address ` set ks"
  "dom (byRecipient (counted ks)) = recipient_label ` {k \<in> set ks. Delivered k}"
  "dom (recipientAgg (counted ks)) = recipient_label ` set ks"
  by (auto simp: counted_def positive_def stats_of_def dom_def tally_zero split: if_splits)

definition demo_key :: "string \<Rightarrow> string \<Rightarrow> string \<Rightarrow> deliveryKey" where
  "demo_key a n l = \<lparr>Address = a, Delivered = True, MaxRecipient = n, RecipientName = l\<rparr>"

definition demo_collector :: Collector where
  "demo_collector = NewCollector\<lparr>deliveryEvents :=
     [\<lparr>At = 5, Key = demo_key ''a@d'' ''1'' ''ops''\<rparr>, \<lparr>At = 6, Key = demo_key ''b@d'' ''2'' ''dev''\<rparr>]\<rparr>"

theorem report_counts_witness:
  "BuildLastDaysReport 0 [''a@d'', ''b@d''] [''ops (id=1)'', ''dev (id=2)''] [''ops (id=1)'', ''dev (id=2)''] 7 demo_collector
     = Join (report_lines 7 [''b@d'', ''a@d''] [''dev (id=2)'', ''ops (id=1)''] [''dev (id=2)'', ''ops (id=1)'']
         (counted [demo_key ''a@d'' ''1'' ''ops'', demo_key ''b@d'' ''2'' ''dev''])) [CHR 0x0A]"
proof (rule conjunct1 [OF report_counts])
  let ?ks = "[demo_key ''a@d'' ''1'' ''ops'', demo_key ''b@d'' ''2'' ''dev'']"
  have "0 + wrap64 (- 7 * 24 * 3600000000000) \<le> 0" by code_simp
  then show "counted ?ks = counted (recent (0 + wrap64 (- 7 * 24 * 3600000000000)) demo_collector)"
    by (simp add: recent_def demo_collector_def)
  have l: "recipient_label (demo_key ''a@d'' ''1'' ''ops'') = ''ops (id=1)''"
    "recipient_label (demo_key ''b@d'' ''2'' ''dev'') = ''dev (id=2)''" by code_simp+
  have k: "Address (demo_key a n l) = a" "Delivered (demo_key a n l)" for a n l by (simp_all add: demo_key_def)
  show "map_order (byAddress (counted ?ks)) [''a@d'', ''b@d'']" "map_order (byAddress (counted ?ks)) [''b@d'', ''a@d'']"
    by (auto simp: map_order_def counted_dom k)
  have "{k \<in> set ?ks. Delivered k} = set ?ks" by (auto simp: k)
  then show "map_order (byRecipient (counted ?ks)) [''ops (id=1)'', ''dev (id=2)'']"
    "map_order (byRecipient (counted ?ks)) [''dev (id=2)'', ''ops (id=1)'']"
    unfolding map_order_def counted_dom by (auto simp: l)
  show "map_order (recipientAgg (counted ?ks)) [''ops (id=1)'', ''dev (id=2)'']"
    "map_order (recipientAgg (counted ?ks)) [''dev (id=2)'', ''ops (id=1)'']"
    by (auto simp: map_order_def counted_dom l)
qed simp

end
