(* ===== verification/Bot_Runtime.thy ===== *)
theory Bot_Runtime
  imports Bot_Help Bot_Texts Admin_Confirm Dlq_Admin Metrics_Report
begin

text \<open>
  \<open>internal/max/bot_runtime.go\<close>: the bot's side of the program. Every message that reaches the bot
  is answered with the help text, handled as an administrator's command, or ignored.

  The state of the bot is the shared state of the program, the actions that wait for a
  confirmation, and the alias file. A loop over a map asks the world for the order of the keys;
  log lines are left out.
\<close>

section \<open>State\<close>

record 'w bot_state =
  bot_sys :: "'w sys"
  bot_pending :: "'w sys pending"
  bot_file :: "string option"

text \<open>
  What the bot is started with. \<open>b_aliasAdmin\<close> and \<open>b_dlqAdmin\<close> say whether these interfaces were
  given; the statistics are there when the metrics are.
\<close>

record 'w bot =
  b_lib :: golib
  b_ext :: "'w external"
  b_encode :: "(string \<rightharpoonup> string list) \<Rightarrow> string result"
  b_io :: "'w \<Rightarrow> fs_io \<times> 'w"
  b_rand :: "'w \<Rightarrow> string option \<times> 'w"
  b_base36 :: "time \<Rightarrow> string"
  b_keys :: "'w \<Rightarrow> string list \<times> 'w"
  b_version :: string
  b_UserID :: int
  b_Username :: string
  b_Domain :: string
  b_aliasAdmin :: bool
  b_dlqAdmin :: "'w Admin option"
  b_adminChatID :: int

record bot_user =
  UserId :: int
  IsBot :: bool

record bot_message =
  m_Sender :: "bot_user option"
  m_ChatId :: int
  m_Text :: string

datatype bot_update = MessageCreated "bot_message option" | OtherUpdate

text \<open>An operation on the shared state, and one of the outside world, in the bot's state.\<close>

definition on_sys :: "('w sys \<Rightarrow> 'a \<times> 'w sys) \<Rightarrow> 'w bot_state \<Rightarrow> 'a \<times> 'w bot_state" where
  "on_sys f st = (case f (bot_sys st) of (r, s) \<Rightarrow> (r, st\<lparr>bot_sys := s\<rparr>))"

abbreviation on_world :: "('w \<Rightarrow> 'a \<times> 'w) \<Rightarrow> 'w bot_state \<Rightarrow> 'a \<times> 'w bot_state" where
  "on_world f \<equiv> on_sys (in_world f)"

section \<open>Names and targets\<close>

definition normalizeAliasName :: "golib \<Rightarrow> string \<Rightarrow> string" where
  "normalizeAliasName L v0 =
     (let v = TrimSpace (ToLower L v0) in
      if list_all (\<lambda>r. 97 \<le> byte r \<and> byte r \<le> 122 \<or> 48 \<le> byte r \<and> byte r \<le> 57 \<or> r = CHR ''.'' \<or> r = CHR ''_'' \<or> r = CHR ''-'') v
      then v else [])"

text \<open>\<open>numericAliasTargetPattern\<close>, \<open>^-?\d+(\.silent)?$\<close>.\<close>

definition numericAliasTargetPattern :: "string \<Rightarrow> bool" where
  "numericAliasTargetPattern s \<longleftrightarrow>
     (let d = TrimPrefix s ''-'' in
      takeWhile is_digit d \<noteq> [] \<and> (dropWhile is_digit d = [] \<or> dropWhile is_digit d = ''.silent''))"

definition normalizeAliasTarget :: "golib \<Rightarrow> string \<Rightarrow> string result" where
  "normalizeAliasTarget L v =
     (let target = ToLower L (TrimSpace v) in
      if target = [] then Inl (ErrorString target_empty)
      else if HasPrefix target ''chatid'' then Inr target
      else if numericAliasTargetPattern target then Inr (''chatid'' @ target)
      else Inl (ErrorString target_format))"

fun alias_arg_loop :: "golib \<Rightarrow> string list \<Rightarrow> string list \<Rightarrow> string list result" where
  "alias_arg_loop L targets [] = Inr targets"
| "alias_arg_loop L targets (raw # rest) =
     (case normalizeAliasTarget L raw of
        Inl err \<Rightarrow> Inl err
      | Inr target \<Rightarrow>
          if target \<in> set targets then alias_arg_loop L targets rest
          else alias_arg_loop L (targets @ [target]) rest)"

definition normalizeAliasTargetsArg :: "golib \<Rightarrow> string \<Rightarrow> string list result" where
  "normalizeAliasTargetsArg L v =
     (case alias_arg_loop L [] (Split v CHR '','') of
        Inl err \<Rightarrow> Inl err
      | Inr targets \<Rightarrow> if targets = [] then Inl (ErrorString target_needed) else Inr targets)"

definition extractChatIDFromAliasTarget :: "golib \<Rightarrow> string \<Rightarrow> string" where
  "extractChatIDFromAliasTarget L target =
     (let v0 = TrimSpace (ToLower L target);
          v1 = (case IndexByte v0 CHR ''.'' of Some idx \<Rightarrow> take idx v0 | None \<Rightarrow> v0);
          v = TrimPrefix v1 ''chatid''
      in if v = [] then ''unknown'' else v)"

definition buildAliasesListReply :: "golib \<Rightarrow> string list \<Rightarrow> (string \<rightharpoonup> string list) \<Rightarrow> string" where
  "buildAliasesListReply L keys al =
     (let names = sort_Strings (map fst (map_items al keys)) in
      if names = [] then aliases_empty
      else Join (aliases_header # map (\<lambda>name. ''- '' @ name @ '' -> ''
               @ Join (map (extractChatIDFromAliasTarget L) (the (al name))) '','' @ '' -> '' @ chat_name_unavailable) names)
             [CHR 0x0A])"

section \<open>Commands on the queue\<close>

type_synonym 'w command = "'w bot \<Rightarrow> context_values \<Rightarrow> int \<Rightarrow> string list \<Rightarrow> 'w bot_state \<Rightarrow> string \<times> 'w bot_state"

definition dlq_command :: "'w command" where
  "dlq_command B ctx chatID parts st =
     (case b_dlqAdmin B of None \<Rightarrow> (dlq_unavailable, st) | Some A \<Rightarrow> on_sys (Summary A) st)"

definition dlq_list_command :: "'w command" where
  "dlq_list_command B ctx chatID parts st =
     (case b_dlqAdmin B of
        None \<Rightarrow> (dlq_unavailable, st)
      | Some A \<Rightarrow>
          if length parts = 2 then
            (case strconv_Atoi (parts ! 1) of
               Inl _ \<Rightarrow> (usage_dlq_list, st)
             | Inr n \<Rightarrow> if n \<le> 0 then (usage_dlq_list, st) else on_sys (admin_List A n) st)
          else on_sys (admin_List A 10) st)"

definition dlq_show_command :: "'w command" where
  "dlq_show_command B ctx chatID parts st =
     (case b_dlqAdmin B of
        None \<Rightarrow> (dlq_unavailable, st)
      | Some A \<Rightarrow>
          if length parts \<noteq> 2 then (show_usage, st) else (Show A (parts ! 1) (bot_sys st), st))"

definition replay_dry_command :: "'w command" where
  "replay_dry_command B ctx chatID parts st =
     (case b_dlqAdmin B of
        None \<Rightarrow> (dlq_unavailable, st)
      | Some A \<Rightarrow>
          if length parts \<noteq> 2 then (dry_usage, st) else (ReplayDry A ctx (parts ! 1) (bot_sys st), st))"

text \<open>\<open>randomToken(8)\<close>, which reads the clock only when there are no random bytes.\<close>

definition new_token :: "'w bot \<Rightarrow> 'w bot_state \<Rightarrow> string \<times> 'w bot_state" where
  "new_token B st =
     (case on_world (b_rand B) st of
        (Some buf, st1) \<Rightarrow> (randomToken (b_base36 B) (Some buf) 0, st1)
      | (None, st1) \<Rightarrow>
          (case on_world (x_now (b_ext B)) st1 of (now, st2) \<Rightarrow> (randomToken (b_base36 B) None now, st2)))"

text \<open>Registering an action for five minutes, and the reply that asks for the confirmation.\<close>

definition ask_confirm :: "'w bot \<Rightarrow> int \<Rightarrow> ('w sys \<Rightarrow> string \<times> 'w sys) \<Rightarrow> 'w bot_state \<Rightarrow> string \<times> 'w bot_state" where
  "ask_confirm B chatID action st =
     (case new_token B st of
        (token, st1) \<Rightarrow>
          (case on_world (x_now (b_ext B)) st1 of
             (now, st2) \<Rightarrow>
               (confirm_required @ token @ confirm_valid,
                st2\<lparr>bot_pending := registerConfirm token now chatID (5 * 60 * 1000000000) action (bot_pending st2)\<rparr>)))"

definition replay_command :: "'w command" where
  "replay_command B ctx chatID parts st =
     (case b_dlqAdmin B of
        None \<Rightarrow> (dlq_unavailable, st)
      | Some A \<Rightarrow>
          if length parts \<noteq> 2 then (replay_usage, st)
          else ask_confirm B chatID (Replay A ctx (parts ! 1)) st)"

definition replay_batch_command :: "'w command" where
  "replay_batch_command B ctx chatID parts st =
     (case b_dlqAdmin B of
        None \<Rightarrow> (dlq_unavailable, st)
      | Some A \<Rightarrow>
          if length parts < 2 \<or> length parts > 3 then (batch_usage, st)
          else
            (case strconv_Atoi (parts ! 1) of
               Inl _ \<Rightarrow> (batch_usage, st)
             | Inr limit \<Rightarrow>
                 if limit \<le> 0 then (batch_usage, st)
                 else ask_confirm B chatID (ReplayBatch A ctx limit (if length parts = 3 then parts ! 2 else [])) st))"

definition confirm_command :: "'w command" where
  "confirm_command B ctx chatID parts st =
     (if length parts \<noteq> 2 then (usage_confirm, st)
      else
        (case on_world (x_now (b_ext B)) st of
           (now, st1) \<Rightarrow>
             (case consumeConfirm now chatID (parts ! 1) (bot_pending st1) (bot_sys st1) of
                (reply, p, s) \<Rightarrow>
                  (case reply of None \<Rightarrow> confirm_missing | Some r \<Rightarrow> r, st1\<lparr>bot_pending := p, bot_sys := s\<rparr>))))"

section \<open>Statistics\<close>

definition stats_command :: "int \<Rightarrow> 'w command" where
  "stats_command days B ctx chatID parts st =
     (case sys_metrics (bot_sys st) of
        None \<Rightarrow> (stats_unavailable, st)
      | Some c \<Rightarrow>
          (case on_world (x_now (b_ext B)) st of
             (now, st1) \<Rightarrow>
               (case on_world (b_keys B) st1 of
                  (ka, st2) \<Rightarrow>
                    (case on_world (b_keys B) st2 of
                       (kr, st3) \<Rightarrow>
                         (case on_world (b_keys B) st3 of
                            (kg, st4) \<Rightarrow> (BuildLastDaysReport now ka kr kg days c, st4))))))"

section \<open>Alias commands\<close>

text \<open>An update of the alias table followed by \<open>SaveAliases\<close>, with the reply for either outcome.\<close>

definition update_aliases ::
  "'w bot \<Rightarrow> (rcpt_parser \<Rightarrow> rcpt_parser) \<Rightarrow> string \<Rightarrow> string \<Rightarrow> 'w bot_state \<Rightarrow> string \<times> 'w bot_state" where
  "update_aliases B f not_written written st =
     (let st1 = st\<lparr>bot_sys := (bot_sys st)\<lparr>sys_parser := f (sys_parser (bot_sys st))\<rparr>\<rparr> in
      case on_world (b_io B) st1 of
        (F, st2) \<Rightarrow>
          (case SaveAliases (b_encode B) F (SnapshotAliases (sys_parser (bot_sys st2))) (bot_file st2) of
             (Some err, fl) \<Rightarrow> (not_written @ Error (b_lib B) err, st2\<lparr>bot_file := fl\<rparr>)
           | (None, fl) \<Rightarrow> (written, st2\<lparr>bot_file := fl\<rparr>)))"

definition alias_command :: "'w command" where
  "alias_command B ctx chatID parts st =
     (if \<not> b_aliasAdmin B then (aliases_unavailable, st)
      else if length parts \<noteq> 3 then (usage_alias, st)
      else
        let name = normalizeAliasName (b_lib B) (parts ! 1) in
        if name = [] then (bad_alias_name, st)
        else
          (case normalizeAliasTarget (b_lib B) (parts ! 2) of
             Inl err \<Rightarrow> (Error (b_lib B) err, st)
           | Inr target \<Rightarrow>
               (case ValidateAliasTarget (b_lib B) target of
                  Some err \<Rightarrow> (bad_alias_target @ Error (b_lib B) err, st)
                | None \<Rightarrow>
                    update_aliases B (SetAliasGroup (b_lib B) name [target]) alias_not_written
                      (alias_saved @ name @ '' -> '' @ target) st)))"

text \<open>\<open>/alias_group\<close>, \<open>/alias_add\<close> and \<open>/alias_remove\<close>, which differ in the operation and the texts.\<close>

definition group_command ::
  "string \<Rightarrow> (golib \<Rightarrow> string \<Rightarrow> string list \<Rightarrow> rcpt_parser \<Rightarrow> rcpt_parser) \<Rightarrow> string \<Rightarrow> string \<Rightarrow> 'w command" where
  "group_command usage f not_written written B ctx chatID parts st =
     (if \<not> b_aliasAdmin B then (aliases_unavailable, st)
      else if length parts \<noteq> 3 then (usage, st)
      else
        let name = normalizeAliasName (b_lib B) (parts ! 1) in
        if name = [] then (bad_alias_name, st)
        else
          (case normalizeAliasTargetsArg (b_lib B) (parts ! 2) of
             Inl err \<Rightarrow> (Error (b_lib B) err, st)
           | Inr targets \<Rightarrow>
               update_aliases B (f (b_lib B) name targets) not_written
                 (written @ name @ '' -> '' @ Join targets '','') st))"

definition unalias_command :: "'w command" where
  "unalias_command B ctx chatID parts st =
     (if \<not> b_aliasAdmin B then (aliases_unavailable, st)
      else if length parts \<noteq> 2 then (usage_unalias, st)
      else
        let name = normalizeAliasName (b_lib B) (parts ! 1) in
        if name = [] then (bad_alias_name, st)
        else update_aliases B (DeleteAlias (b_lib B) name) unalias_not_written (alias_deleted @ name) st)"

definition aliases_command :: "'w command" where
  "aliases_command B ctx chatID parts st =
     (if \<not> b_aliasAdmin B then (aliases_unavailable, st)
      else
        (case on_world (b_keys B) st of
           (keys, st1) \<Rightarrow>
             (buildAliasesListReply (b_lib B) keys (SnapshotAliases (sys_parser (bot_sys st1))), st1)))"

section \<open>Dispatch\<close>

definition commands :: "(string \<times> 'w command) list" where
  "commands =
     [(''/dlq'', dlq_command), (''/dlq_list'', dlq_list_command), (''/dlq_show'', dlq_show_command),
      (''/replay_dry'', replay_dry_command), (''/replay'', replay_command), (''/replay_batch'', replay_batch_command),
      (''/confirm'', confirm_command), (''/stats7d'', stats_command 7), (''/stats30d'', stats_command 30),
      (''/alias'', alias_command),
      (''/alias_group'', group_command usage_alias_group SetAliasGroup group_not_written group_saved),
      (''/alias_add'', group_command usage_alias_add AddAliasTargets add_not_written targets_added),
      (''/alias_remove'', group_command usage_alias_remove RemoveAliasTargets remove_not_written targets_removed),
      (''/unalias'', unalias_command), (''/aliases'', aliases_command)]"

text \<open>\<open>maybeHandleAdminAliasCommandWithDLQ\<close>: the reply, or none for \<open>("", false)\<close>.\<close>

definition admin_command ::
  "'w bot \<Rightarrow> context_values \<Rightarrow> string \<Rightarrow> bot_user option \<Rightarrow> int \<Rightarrow> 'w bot_state \<Rightarrow> string option \<times> 'w bot_state" where
  "admin_command B ctx msg sender chatID st =
     (if b_adminChatID B = 0 then (None, st)
      else if sender = None \<or> chatID \<noteq> b_adminChatID B then (None, st)
      else
        let parts = Fields (TrimSpace msg) in
        if parts = [] then (None, st)
        else
          (case map_of commands (ToLower (b_lib B) (hd parts)) of
             None \<Rightarrow> (None, st)
           | Some f \<Rightarrow> (case f B ctx chatID parts st of (reply, st1) \<Rightarrow> (Some reply, st1))))"

definition replyForMessageText :: "'w bot \<Rightarrow> string \<Rightarrow> string \<Rightarrow> bot_user option \<Rightarrow> string option" where
  "replyForMessageText B msg chatID sender =
     (let cmd = ExtractCommand (b_lib B) msg in
      if cmd \<noteq> [] \<and> \<not> CommandTargetsBot (b_lib B) msg (b_Username B) then None
      else if cmd = ''hello'' then Some (BuildChatInfoReply (b_version B) chatID (b_Domain B))
      else if cmd = ''help'' then Some (BuildChatInfoReply (b_version B) chatID (b_Domain B))
      else if cmd = ''start'' then
        Some (BuildUserInfoReply (b_version B)
          (case sender of None \<Rightarrow> [] | Some u \<Rightarrow> if UserId u \<noteq> 0 then FormatInt (UserId u) else []) (b_Domain B))
      else if MessageMentionsBot (b_lib B) msg (b_Username B)
        then Some (BuildChatInfoReply (b_version B) chatID (b_Domain B))
      else None)"

text \<open>Whether a message comes from a bot, this one included.\<close>

definition from_bot :: "'w bot \<Rightarrow> bot_message \<Rightarrow> bool" where
  "from_bot B m \<longleftrightarrow>
     (case m_Sender m of
        None \<Rightarrow> False
      | Some u \<Rightarrow> IsBot u \<or> b_UserID B \<noteq> 0 \<and> UserId u = b_UserID B)"

text \<open>Sending the reply, with a timeout of ten seconds; an error is only logged.\<close>

definition send_reply :: "'w bot \<Rightarrow> context_values \<Rightarrow> int \<Rightarrow> string \<Rightarrow> 'w bot_state \<Rightarrow> 'w bot_state" where
  "send_reply B ctx chatID reply st =
     (case on_world (x_now (b_ext B)) st of
        (now, st1) \<Rightarrow>
          snd (on_sys (in_send
            (x_SendText (b_ext B) (WithTimeout now (10 * 1000000000) ctx) (FormatInt chatID) reply True)) st1))"

definition handleMessageCreatedUpdate ::
  "'w bot \<Rightarrow> context_values \<Rightarrow> bot_message \<Rightarrow> 'w bot_state \<Rightarrow> 'w bot_state" where
  "handleMessageCreatedUpdate B ctx m st =
     (if from_bot B m then st
      else if m_ChatId m = 0 then st
      else
        (case replyForMessageText B (m_Text m) (FormatInt (m_ChatId m)) (m_Sender m) of
           Some reply \<Rightarrow> send_reply B ctx (m_ChatId m) reply st
         | None \<Rightarrow>
             (case admin_command B ctx (m_Text m) (m_Sender m) (m_ChatId m) st of
                (None, st1) \<Rightarrow> st1
              | (Some reply, st1) \<Rightarrow> send_reply B ctx (m_ChatId m) reply st1)))"

fun handleBotUpdate :: "'w bot \<Rightarrow> context_values \<Rightarrow> bot_update \<Rightarrow> 'w bot_state \<Rightarrow> 'w bot_state" where
  "handleBotUpdate B ctx (MessageCreated None) st = st"
| "handleBotUpdate B ctx (MessageCreated (Some m)) st = handleMessageCreatedUpdate B ctx m st"
| "handleBotUpdate B ctx OtherUpdate st = st"

text \<open>\<open>RunBotLoopWithUsername\<close>: the updates it receives until the context is cancelled or the channel closed.\<close>

definition run_bot :: "'w bot \<Rightarrow> context_values \<Rightarrow> bot_update list \<Rightarrow> 'w bot_state \<Rightarrow> 'w bot_state" where
  "run_bot B ctx upds st = fold (handleBotUpdate B ctx) upds st"

definition SendStartupNotification ::
  "'w external \<Rightarrow> context_values \<Rightarrow> string \<Rightarrow> int \<Rightarrow> 'w send" where
  "SendStartupNotification X ctx version adminChatID w =
     (if adminChatID = 0 then ((None, []), w)
      else x_SendText X ctx (FormatInt adminChatID) (startup_text @ version) True w)"


section \<open>What a command changes\<close>

text \<open>The state apart from the outside world and the figures of the rate limiter.\<close>

definition core :: "'w bot_state \<Rightarrow> 'w sys pending \<times> string option \<times> rcpt_parser \<times> FileStore option \<times> Collector option" where
  "core st = (bot_pending st, bot_file st, sys_parser (bot_sys st), sys_dlq (bot_sys st), other_metrics (bot_sys st))"

lemma other_metrics_cong: "sys_metrics s' = sys_metrics s \<Longrightarrow> other_metrics s' = other_metrics s"
  by (simp add: other_metrics_def)

lemma other_metrics_sel [simp]:
  "other_metrics (s\<lparr>sys_world := w\<rparr>) = other_metrics s" "other_metrics (s\<lparr>sys_parser := p\<rparr>) = other_metrics s"
  "other_metrics (s\<lparr>sys_dlq := q\<rparr>) = other_metrics s"
  by (simp_all add: other_metrics_def)

lemma on_world_core: "on_world f st = (r, st') \<Longrightarrow> core st' = core st"
  by (auto simp: on_sys_def core_def split: prod.splits dest!: in_worldD intro: other_metrics_cong)

text \<open>A reply is sent through the rate limiter, which is all that the program notices of it.\<close>

definition limiter_only :: "'w bot_state \<Rightarrow> 'w bot_state \<Rightarrow> bool" where
  "limiter_only st st' \<longleftrightarrow> bot_pending st' = bot_pending st \<and> bot_file st' = bot_file st
     \<and> sys_parser (bot_sys st') = sys_parser (bot_sys st) \<and> sys_dlq (bot_sys st') = sys_dlq (bot_sys st)
     \<and> (\<exists>us. sys_metrics (bot_sys st') = map_option (fold apply_update us) (sys_metrics (bot_sys st)))"

lemma limiter_only_refl: "limiter_only st st"
  unfolding limiter_only_def by (auto intro!: exI [of _ "[]"] simp: option.map_id)

lemma limiter_only_core: "limiter_only st st' \<Longrightarrow> core st' = core st"
  by (auto simp: limiter_only_def core_def intro: other_metrics_send)

lemma send_reply_limiter: "limiter_only st (send_reply B ctx c reply st)"
proof -
  obtain now st1 where 1: "on_world (x_now (b_ext B)) st = (now, st1)" by fastforce
  let ?send = "in_send (x_SendText (b_ext B) (WithTimeout now (10 * 1000000000) ctx) (FormatInt c) reply True)"
  obtain r s2 where 2: "?send (bot_sys st1) = (r, s2)" by fastforce
  have st1: "bot_pending st1 = bot_pending st \<and> bot_file st1 = bot_file st \<and> sys_parser (bot_sys st1) = sys_parser (bot_sys st)
      \<and> sys_dlq (bot_sys st1) = sys_dlq (bot_sys st) \<and> sys_metrics (bot_sys st1) = sys_metrics (bot_sys st)"
    using 1 by (auto simp: on_sys_def split: prod.splits dest!: in_worldD)
  have "send_reply B ctx c reply st = st1\<lparr>bot_sys := s2\<rparr>"
    unfolding send_reply_def using 1 2 by (simp add: on_sys_def)
  then show ?thesis using st1 in_sendD [OF 2] unfolding limiter_only_def by auto
qed

lemma send_reply_core [simp]: "core (send_reply B ctx c reply st) = core st"
  by (rule limiter_only_core) (rule send_reply_limiter)

text \<open>
  C27: A message without a sender, or from a chat that is not the administrator's, or any message
  when there is no administrator, changes nothing in the program but the three figures that the
  rate limiter keeps in the metrics when a reply is sent: not the aliases or their file, not the
  queue, not the actions that wait for a confirmation, and nothing else in the metrics. A
  message from a bot changes nothing at all.
\<close>

theorem only_admin_changes:
  assumes "from_bot B m \<or> m_Sender m = None \<or> m_ChatId m \<noteq> b_adminChatID B \<or> b_adminChatID B = 0"
    and "st' = handleMessageCreatedUpdate B ctx m st"
  shows "bot_pending st' = bot_pending st \<and> bot_file st' = bot_file st
    \<and> sys_parser (bot_sys st') = sys_parser (bot_sys st) \<and> sys_dlq (bot_sys st') = sys_dlq (bot_sys st)
    \<and> map_option (\<lambda>c. c\<lparr>maxSendRateLimited := 0, maxSendQueueDepth := 0, maxSendQueueDrop := 0\<rparr>) (sys_metrics (bot_sys st'))
        = map_option (\<lambda>c. c\<lparr>maxSendRateLimited := 0, maxSendQueueDepth := 0, maxSendQueueDrop := 0\<rparr>) (sys_metrics (bot_sys st))
    \<and> (from_bot B m \<longrightarrow> st' = st)"
proof -
  have b: "st' = st" if "from_bot B m"
    using that by (simp add: assms(2) handleMessageCreatedUpdate_def)
  have "admin_command B ctx (m_Text m) (m_Sender m) (m_ChatId m) st = (None, st)" if "\<not> from_bot B m"
    using assms(1) that by (auto simp: admin_command_def)
  then have "st' = st \<or> (\<exists>reply. st' = send_reply B ctx (m_ChatId m) reply st)"
    unfolding assms(2) handleMessageCreatedUpdate_def by (simp split: option.split) blast
  then have l: "limiter_only st st'" using send_reply_limiter limiter_only_refl by blast
  from limiter_only_core [OF l] have "other_metrics (bot_sys st') = other_metrics (bot_sys st)"
    by (simp add: core_def)
  then show ?thesis
    using l b unfolding limiter_only_def other_metrics_def limiter_free_def by blast
qed

section \<open>Every command\<close>

lemma Summary_frame: "Summary A s = (r, s') \<Longrightarrow> sys_parser s' = sys_parser s \<and> sys_dlq s' = sys_dlq s \<and> sys_metrics s' = sys_metrics s"
proof (cases "sys_dlq s")
  case (Some store)
  assume r: "Summary A s = (r, s')"
  obtain E1 s1 where 1: "in_world (x_store (a_ext A)) s = (E1, s1)" by fastforce
  obtain now s2 where 2: "in_world (x_now (a_ext A)) s1 = (now, s2)" by fastforce
  obtain E2 s3 where 3: "in_world (x_store (a_ext A)) s2 = (E2, s3)" by fastforce
  have "s' = s3" using r Some 1 2 3 by (simp add: Summary_def Let_def)
  then show ?thesis using in_worldD [OF 1] in_worldD [OF 2] in_worldD [OF 3] by simp
qed (simp add: Summary_def)

lemma admin_List_frame:
  "admin_List A n s = (r, s') \<Longrightarrow> sys_parser s' = sys_parser s \<and> sys_dlq s' = sys_dlq s \<and> sys_metrics s' = sys_metrics s"
proof (cases "sys_dlq s")
  case (Some store)
  assume r: "admin_List A n s = (r, s')"
  obtain E s1 where 1: "in_world (x_store (a_ext A)) s = (E, s1)" by fastforce
  have "s' = s1" using r Some 1 by (simp add: admin_List_def Let_def split: if_splits)
  then show ?thesis using in_worldD [OF 1] by simp
qed (simp add: admin_List_def)

lemma on_sys_core:
  assumes "\<And>s r s'. f s = (r, s') \<Longrightarrow> sys_parser s' = sys_parser s \<and> sys_dlq s' = sys_dlq s \<and> sys_metrics s' = sys_metrics s"
  shows "core (snd (on_sys f st)) = core st"
proof -
  obtain r s' where r: "f (bot_sys st) = (r, s')" by fastforce
  from assms [OF r] show ?thesis by (simp add: on_sys_def core_def r other_metrics_def)
qed

text \<open>Commands that only report.\<close>

lemma report_commands_core:
  "core (snd (dlq_command B ctx c parts st)) = core st"
  "core (snd (dlq_list_command B ctx c parts st)) = core st"
  "core (snd (dlq_show_command B ctx c parts st)) = core st"
  "core (snd (replay_dry_command B ctx c parts st)) = core st"
  "core (snd (aliases_command B ctx c parts st)) = core st"
  using on_sys_core [OF Summary_frame] on_sys_core [OF admin_List_frame]
  by (auto simp: dlq_command_def dlq_list_command_def dlq_show_command_def replay_dry_command_def aliases_command_def
      split: option.splits sum.splits prod.splits dest: on_world_core)

lemma stats_command_core: "core (snd (stats_command days B ctx c parts st)) = core st"
proof (cases "sys_metrics (bot_sys st)")
  case (Some m)
  obtain now st1 where 1: "on_world (x_now (b_ext B)) st = (now, st1)" by fastforce
  obtain ka st2 where 2: "on_world (b_keys B) st1 = (ka, st2)" by fastforce
  obtain kr st3 where 3: "on_world (b_keys B) st2 = (kr, st3)" by fastforce
  obtain kg st4 where 4: "on_world (b_keys B) st3 = (kg, st4)" by fastforce
  show ?thesis
    using on_world_core [OF 1] on_world_core [OF 2] on_world_core [OF 3] on_world_core [OF 4] Some 1 2 3 4
    unfolding stats_command_def by simp
qed (simp add: stats_command_def)

text \<open>Commands that ask for a confirmation register a replay and change nothing else.\<close>

definition replay_action :: "'w bot \<Rightarrow> context_values \<Rightarrow> ('w sys \<Rightarrow> string \<times> 'w sys) \<Rightarrow> bool" where
  "replay_action B ctx act \<longleftrightarrow>
     (\<exists>A. b_dlqAdmin B = Some A \<and> ((\<exists>i. act = Replay A ctx i) \<or> (\<exists>n mode. act = ReplayBatch A ctx n mode)))"

definition asked :: "'w bot \<Rightarrow> context_values \<Rightarrow> int \<Rightarrow> 'w bot_state \<Rightarrow> 'w bot_state \<Rightarrow> bool" where
  "asked B ctx c st st' \<longleftrightarrow>
     (\<exists>token now act. replay_action B ctx act
        \<and> core st' = (registerConfirm token now c (5 * 60 * 1000000000) act (bot_pending st), snd (core st)))"

lemma new_token_core: "new_token B st = (tok, st') \<Longrightarrow> core st' = core st"
proof -
  assume tok: "new_token B st = (tok, st')"
  obtain rnd st1 where 1: "on_world (b_rand B) st = (rnd, st1)" by fastforce
  obtain now st2 where 2: "on_world (x_now (b_ext B)) st1 = (now, st2)" by fastforce
  show ?thesis
    using tok on_world_core [OF 1] on_world_core [OF 2] 1 2 unfolding new_token_def by (cases rnd) auto
qed

lemma ask_confirm_core:
  assumes "replay_action B ctx act"
  shows "asked B ctx c st (snd (ask_confirm B c act st))"
proof -
  obtain tok st1 where 1: "new_token B st = (tok, st1)" by fastforce
  obtain now st2 where 2: "on_world (x_now (b_ext B)) st1 = (now, st2)" by fastforce
  let ?p = "registerConfirm tok now c (5 * 60 * 1000000000) act (bot_pending st)"
  have "core st2 = core st" using new_token_core [OF 1] on_world_core [OF 2] by simp
  then have "core (snd (ask_confirm B c act st)) = (?p, snd (core st))"
    unfolding ask_confirm_def using 1 2 by (simp add: core_def)
  then show ?thesis using assms unfolding asked_def by blast
qed

lemma replay_actionI:
  "b_dlqAdmin B = Some A \<Longrightarrow> replay_action B ctx (Replay A ctx i)"
  "b_dlqAdmin B = Some A \<Longrightarrow> replay_action B ctx (ReplayBatch A ctx n mode)"
  by (auto simp: replay_action_def)

lemma replay_commands_ask:
  "core (snd (replay_command B ctx c parts st)) = core st \<or> asked B ctx c st (snd (replay_command B ctx c parts st))"
  "core (snd (replay_batch_command B ctx c parts st)) = core st \<or> asked B ctx c st (snd (replay_batch_command B ctx c parts st))"
  by (auto simp: replay_command_def replay_batch_command_def split: option.splits sum.splits
      intro!: disjI2 ask_confirm_core replay_actionI)


text \<open>Commands that change the alias table save it and change nothing else.\<close>

definition alias_update :: "golib \<Rightarrow> (rcpt_parser \<Rightarrow> rcpt_parser) \<Rightarrow> bool" where
  "alias_update L f \<longleftrightarrow>
     (\<exists>a ts. f = SetAliasGroup L a ts \<or> f = AddAliasTargets L a ts \<or> f = RemoveAliasTargets L a ts) \<or> (\<exists>a. f = DeleteAlias L a)"

definition saved :: "'w bot \<Rightarrow> 'w bot_state \<Rightarrow> 'w bot_state \<Rightarrow> bool" where
  "saved B st st' \<longleftrightarrow>
     (\<exists>f w. alias_update (b_lib B) f \<and> sys_parser (bot_sys st') = f (sys_parser (bot_sys st))
        \<and> bot_file st' = snd (SaveAliases (b_encode B) (fst (b_io B w)) (aliases (sys_parser (bot_sys st'))) (bot_file st))
        \<and> bot_pending st' = bot_pending st \<and> sys_dlq (bot_sys st') = sys_dlq (bot_sys st)
        \<and> other_metrics (bot_sys st') = other_metrics (bot_sys st))"

lemma update_aliases_saved:
  assumes "alias_update (b_lib B) f"
  shows "saved B st (snd (update_aliases B f nw wr st))"
proof -
  let ?st1 = "st\<lparr>bot_sys := (bot_sys st)\<lparr>sys_parser := f (sys_parser (bot_sys st))\<rparr>\<rparr>"
  obtain F st2 where 2: "on_world (b_io B) ?st1 = (F, st2)" by fastforce
  have F: "F = fst (b_io B (sys_world (bot_sys st)))"
    using 2 by (auto simp: on_sys_def in_world_def split: prod.splits)
  have c: "core st2 = core ?st1" by (rule on_world_core [OF 2])
  obtain e fl where s: "SaveAliases (b_encode B) F (SnapshotAliases (sys_parser (bot_sys st2))) (bot_file st2) = (e, fl)"
    by fastforce
  have "snd (update_aliases B f nw wr st) = st2\<lparr>bot_file := fl\<rparr>"
    unfolding update_aliases_def Let_def using 2 s by (cases e) simp_all
  then show ?thesis
    using assms c s F unfolding saved_def
    by (intro exI [of _ f] exI [of _ "sys_world (bot_sys st)"]) (auto simp: core_def SnapshotAliases_def)
qed

lemma alias_updateI:
  "alias_update L (SetAliasGroup L a ts)" "alias_update L (AddAliasTargets L a ts)"
  "alias_update L (RemoveAliasTargets L a ts)" "alias_update L (DeleteAlias L a)"
  by (auto simp: alias_update_def)

lemma alias_commands_save:
  "core (snd (alias_command B ctx c parts st)) = core st \<or> saved B st (snd (alias_command B ctx c parts st))"
  "core (snd (unalias_command B ctx c parts st)) = core st \<or> saved B st (snd (unalias_command B ctx c parts st))"
  by (auto simp: alias_command_def unalias_command_def Let_def split: option.splits sum.splits
      intro!: disjI2 update_aliases_saved alias_updateI)

lemma group_command_saves:
  assumes "\<And>a ts. alias_update (b_lib B) (f (b_lib B) a ts)"
  shows "core (snd (group_command u f nw wr B ctx c parts st)) = core st \<or> saved B st (snd (group_command u f nw wr B ctx c parts st))"
  using assms
  by (auto simp: group_command_def Let_def split: sum.splits intro!: disjI2 update_aliases_saved)

text \<open>So there are three kinds of commands besides \<open>/confirm\<close>.\<close>

lemma command_effect:
  assumes "map_of commands name = Some f" and "name \<noteq> ''/confirm''"
  shows "core (snd (f B ctx c parts st)) = core st \<or> asked B ctx c st (snd (f B ctx c parts st))
    \<or> saved B st (snd (f B ctx c parts st))"
proof -
  consider (report) "f \<in> {dlq_command, dlq_list_command, dlq_show_command, replay_dry_command, aliases_command}"
    | (stats) days where "f = stats_command days"
    | (ask) "f = replay_command \<or> f = replay_batch_command"
    | (single) "f = alias_command \<or> f = unalias_command"
    | (group) u g nw wr where "f = group_command u g nw wr" "g \<in> {SetAliasGroup, AddAliasTargets, RemoveAliasTargets}"
    using assms by (auto simp: commands_def split: if_splits)
  then show ?thesis
  proof cases
    case report
    then show ?thesis using report_commands_core [of B ctx c parts st] by auto
  next
    case stats
    then show ?thesis by (simp add: stats_command_core)
  next
    case ask
    then show ?thesis using replay_commands_ask [of B ctx c parts st] by auto
  next
    case single
    then show ?thesis using alias_commands_save [of B ctx c parts st] by auto
  next
    case group
    have "alias_update (b_lib B) (g (b_lib B) a ts)" for a ts using group(2) alias_updateI by auto
    then show ?thesis using group_command_saves group(1) by blast
  qed
qed


section \<open>Every update\<close>

text \<open>A confirmation in the administrator's chat, and what it does.\<close>

definition confirmation :: "'w bot \<Rightarrow> bot_update \<Rightarrow> string \<Rightarrow> bool" where
  "confirmation B u tok \<longleftrightarrow>
     (\<exists>m c. u = MessageCreated (Some m) \<and> b_adminChatID B \<noteq> 0 \<and> m_ChatId m = b_adminChatID B \<and> m_Sender m \<noteq> None
        \<and> \<not> from_bot B m \<and> Fields (TrimSpace (m_Text m)) = [c, tok] \<and> ToLower (b_lib B) c = ''/confirm'')"

definition confirmed :: "'w bot \<Rightarrow> string \<Rightarrow> 'w bot_state \<Rightarrow> 'w bot_state \<Rightarrow> bool" where
  "confirmed B tok st st' \<longleftrightarrow>
     (\<exists>now w reply p s. consumeConfirm now (b_adminChatID B) tok (bot_pending st) ((bot_sys st)\<lparr>sys_world := w\<rparr>) = (reply, p, s)
        \<and> core st' = (p, bot_file st, sys_parser s, sys_dlq s, other_metrics s))"

lemma confirm_command_effect:
  "core (snd (confirm_command B ctx (b_adminChatID B) parts st)) = core st
   \<or> (\<exists>c tok. parts = [c, tok] \<and> confirmed B tok st (snd (confirm_command B ctx (b_adminChatID B) parts st)))"
proof (cases "length parts = 2")
  case True
  then obtain c tok where parts: "parts = [c, tok]" by (auto simp: numeral_2_eq_2 length_Suc_conv)
  obtain now w where 1: "x_now (b_ext B) (sys_world (bot_sys st)) = (now, w)" by fastforce
  let ?s = "(bot_sys st)\<lparr>sys_world := w\<rparr>"
  obtain reply p s where 2: "consumeConfirm now (b_adminChatID B) tok (bot_pending st) ?s = (reply, p, s)"
    by (metis prod_cases3)
  have "core (snd (confirm_command B ctx (b_adminChatID B) parts st)) = (p, bot_file st, sys_parser s, sys_dlq s, other_metrics s)"
    using parts 1 2 by (simp add: confirm_command_def on_sys_def in_world_def core_def)
  then show ?thesis using parts 2 unfolding confirmed_def by blast
qed (simp add: confirm_command_def)

lemma saved_core: "core st1 = core st2 \<Longrightarrow> saved B st st1 = saved B st st2"
  by (auto simp: saved_def core_def)

lemma asked_core: "core st1 = core st2 \<Longrightarrow> asked B ctx c st st1 = asked B ctx c st st2"
  by (simp add: asked_def)

lemma confirmed_core: "core st1 = core st2 \<Longrightarrow> confirmed B tok st st1 = confirmed B tok st st2"
  by (simp add: confirmed_def)

definition update_effect :: "'w bot \<Rightarrow> context_values \<Rightarrow> bot_update \<Rightarrow> 'w bot_state \<Rightarrow> 'w bot_state \<Rightarrow> bool" where
  "update_effect B ctx u st st' \<longleftrightarrow>
     core st' = core st \<or> asked B ctx (b_adminChatID B) st st' \<or> saved B st st'
     \<or> (\<exists>tok. confirmation B u tok \<and> confirmed B tok st st')"

lemma update_effect_core: "core st1 = core st2 \<Longrightarrow> update_effect B ctx u st st1 = update_effect B ctx u st st2"
  using saved_core asked_core confirmed_core unfolding update_effect_def by metis

lemma admin_command_effect:
  assumes "\<not> from_bot B m"
  shows "update_effect B ctx (MessageCreated (Some m)) st (snd (admin_command B ctx (m_Text m) (m_Sender m) (m_ChatId m) st))"
proof (cases "b_adminChatID B = 0 \<or> m_Sender m = None \<or> m_ChatId m \<noteq> b_adminChatID B \<or> Fields (TrimSpace (m_Text m)) = []")
  case True
  then show ?thesis by (auto simp: admin_command_def update_effect_def)
next
  case False
  let ?parts = "Fields (TrimSpace (m_Text m))"
  let ?name = "ToLower (b_lib B) (hd ?parts)"
  show ?thesis
  proof (cases "map_of commands ?name :: 'a command option")
    case None
    then show ?thesis using False by (simp add: admin_command_def update_effect_def)
  next
    case (Some f)
    then have run: "snd (admin_command B ctx (m_Text m) (m_Sender m) (m_ChatId m) st)
        = snd (f B ctx (b_adminChatID B) ?parts st)"
      using False by (auto simp: admin_command_def split: prod.splits)
    show ?thesis
    proof (cases "?name = ''/confirm''")
      case True
      then have "f = confirm_command" using Some by (simp add: commands_def)
      then have "core (snd (f B ctx (b_adminChatID B) ?parts st)) = core st
          \<or> (\<exists>tok. confirmation B (MessageCreated (Some m)) tok \<and> confirmed B tok st (snd (f B ctx (b_adminChatID B) ?parts st)))"
        using confirm_command_effect [of B ctx ?parts st] False True assms
        by (auto simp: confirmation_def)
      then show ?thesis unfolding run update_effect_def by blast
    next
      case False
      then show ?thesis
        using command_effect [OF Some] unfolding run update_effect_def by blast
    qed
  qed
qed

lemma handle_effect: "update_effect B ctx u st (handleBotUpdate B ctx u st)"
proof (cases u)
  case (MessageCreated mo)
  show ?thesis
  proof (cases mo)
    case (Some m)
    let ?a = "admin_command B ctx (m_Text m) (m_Sender m) (m_ChatId m) st"
    have "core (handleMessageCreatedUpdate B ctx m st) = core st
        \<or> \<not> from_bot B m \<and> core (handleMessageCreatedUpdate B ctx m st) = core (snd ?a)"
      by (auto simp: handleMessageCreatedUpdate_def split: option.splits prod.splits)
    then show ?thesis
      using admin_command_effect update_effect_core MessageCreated Some
      by (metis handleBotUpdate.simps(2) update_effect_def)
  qed (simp add: MessageCreated update_effect_def)
qed (simp add: update_effect_def)


section \<open>Runs of the bot\<close>

text \<open>Everything that waits for a confirmation is a replay of the queue, for the administrator's chat.\<close>

definition pending_ok :: "'w bot \<Rightarrow> context_values \<Rightarrow> 'w bot_state \<Rightarrow> bool" where
  "pending_ok B ctx st \<longleftrightarrow>
     (\<forall>k act. bot_pending st k = Some act \<longrightarrow>
        replay_action B ctx (execute act) \<and> (\<exists>tok. k = confirmKey (b_adminChatID B) tok))"

lemma consumeConfirm_subset:
  "consumeConfirm now c tok m s = (reply, p, s') \<Longrightarrow> p k = Some a \<Longrightarrow> m k = Some a"
  by (auto simp: consumeConfirm_def take_confirm_def Let_def split: option.splits prod.splits if_splits)

lemma pending_ok_update:
  assumes "pending_ok B ctx st" and "update_effect B ctx u st st'"
  shows "pending_ok B ctx st'"
  using assms(2) unfolding update_effect_def
proof (elim disjE)
  assume "asked B ctx (b_adminChatID B) st st'"
  then show ?thesis
    using assms(1)
    by (auto simp: asked_def pending_ok_def core_def registerConfirm_def purgeExpiredLocked_def Let_def
        split: if_splits option.splits)
next
  assume "\<exists>tok. confirmation B u tok \<and> confirmed B tok st st'"
  then show ?thesis
    using assms(1) consumeConfirm_subset by (fastforce simp: confirmed_def pending_ok_def core_def)
qed (use assms(1) in \<open>auto simp: pending_ok_def core_def saved_def\<close>)

lemma run_bot_Cons [simp]: "run_bot B ctx (u # us) st = run_bot B ctx us (handleBotUpdate B ctx u st)"
  by (simp add: run_bot_def)

lemma run_bot_Nil [simp]: "run_bot B ctx [] st = st"
  by (simp add: run_bot_def)

lemma run_pending_ok: "pending_ok B ctx st \<Longrightarrow> pending_ok B ctx (run_bot B ctx upds st)"
  by (induction upds arbitrary: st) (auto intro: pending_ok_update handle_effect)

lemma pending_ok_empty: "bot_pending st = Map.empty \<Longrightarrow> pending_ok B ctx st"
  by (simp add: pending_ok_def)

lemma confirmed_changes:
  "confirmed B tok st st' \<Longrightarrow> sys_dlq (bot_sys st') \<noteq> sys_dlq (bot_sys st) \<Longrightarrow>
     bot_pending st (confirmKey (b_adminChatID B) tok) \<noteq> None"
  by (auto simp: confirmed_def core_def consumeConfirm_def take_confirm_def Let_def split: option.splits)

text \<open>
  C9: The bot changes the queue only on a confirmation: at any moment of a run, a message after
  which the queue is not as before is a \<open>/confirm\<close> of a user in the administrator's chat, with
  the token of a replay that was asked for and is still waiting.
\<close>

theorem queue_needs_confirmation:
  assumes "bot_pending st0 = Map.empty" and "st = run_bot B ctx upds st0"
    and "sys_dlq (bot_sys (handleBotUpdate B ctx u st)) \<noteq> sys_dlq (bot_sys st)"
  shows "\<exists>tok act. confirmation B u tok \<and> bot_pending st (confirmKey (b_adminChatID B) tok) = Some act
    \<and> replay_action B ctx (execute act)"
proof -
  have "update_effect B ctx u st (handleBotUpdate B ctx u st)" by (rule handle_effect)
  then obtain tok where tok: "confirmation B u tok" "confirmed B tok st (handleBotUpdate B ctx u st)"
    using assms(3) by (auto simp: update_effect_def core_def asked_def saved_def)
  from confirmed_changes [OF tok(2) assms(3)] obtain act where
    "bot_pending st (confirmKey (b_adminChatID B) tok) = Some act" by blast
  moreover have "pending_ok B ctx st" using assms(1,2) by (simp add: run_pending_ok pending_ok_empty)
  ultimately show ?thesis using tok(1) unfolding pending_ok_def by blast
qed

section \<open>The alias file follows the alias table\<close>

text \<open>The interface \<open>AliasAdmin\<close> shares the alias table with the relay: a relay function leaves it alone.\<close>

locale routing_relay =
  fixes relay :: "'w relay_func"
  assumes parser_kept: "relay ctx rc raw s = (r, s') \<Longrightarrow> sys_parser s' = sys_parser s"
begin

lemma Replay_parser:
  assumes "a_Relay A = Some relay" and "Replay A ctx i s = (r, s')"
  shows "sys_parser s' = sys_parser s"
  using assms
  by (auto simp: Replay_def Let_def with_store_def
      split: option.splits prod.splits if_splits dest!: in_worldD parser_kept)

lemma batch_loop_parser:
  assumes "a_Relay A = Some relay"
  shows "batch_loop A ctx its n s = (r, s') \<Longrightarrow> sys_parser s' = sys_parser s"
proof (induction its arbitrary: n s)
  case Nil
  then show ?case by (cases n) simp
next
  case (Cons it its)
  obtain res s1 where 1: "Replay A ctx (ID it) s = (res, s1)" by fastforce
  obtain n' where "batch_loop A ctx its n' s1 = (r, s')"
    using Cons.prems 1 by (cases n) (auto split: if_splits)
  then show ?case using Cons.IH Replay_parser [OF assms 1] by simp
qed

lemma ReplayBatch_parser:
  assumes "a_Relay A = Some relay" and "ReplayBatch A ctx n mode s = (r, s')"
  shows "sys_parser s' = sys_parser s"
  using assms
  by (auto simp: ReplayBatch_def Let_def split: option.splits sum.splits prod.splits if_splits
      dest!: in_worldD batch_loop_parser [OF assms(1)])

end

interpretation relay_routing: routing_relay "Relay S" for S
  by unfold_locales (rule Relay_parser)


text \<open>
  What is needed of the queue administration: its relay is that of some relay service. Which one
  \<open>main\<close> takes is shown of the start of the program, in the theory \<open>Wiring\<close>.
\<close>

definition wired :: "'w bot \<Rightarrow> bool" where
  "wired B \<longleftrightarrow> (case b_dlqAdmin B of None \<Rightarrow> True | Some A \<Rightarrow> \<exists>S. a_Relay A = Some (Relay S))"

lemma replay_action_parser:
  assumes "wired B" "replay_action B ctx act" "act s = (r, s')"
  shows "sys_parser s' = sys_parser s"
proof -
  from assms(1,2) obtain A S where A: "b_dlqAdmin B = Some A" "a_Relay A = Some (Relay S)"
    by (auto simp: wired_def replay_action_def)
  with assms(2,3) show ?thesis
    using relay_routing.Replay_parser [OF A(2)] relay_routing.ReplayBatch_parser [OF A(2)]
    by (auto simp: replay_action_def)
qed

text \<open>The file holds the table as it is.\<close>

definition synced :: "'w bot \<Rightarrow> 'w bot_state \<Rightarrow> bool" where
  "synced B st \<longleftrightarrow>
     (\<exists>data. b_encode B (aliases (sys_parser (bot_sys st))) = Inr data \<and> bot_file st = Some (data @ [CHR 0x0A]))"

definition writes_succeed :: "'w bot \<Rightarrow> bool" where
  "writes_succeed B \<longleftrightarrow> (\<forall>w. io_succeeds (fst (b_io B w))) \<and> (\<forall>al. \<exists>data. b_encode B al = Inr data)"

lemma saved_synced:
  assumes "writes_succeed B" and "saved B st st'"
  shows "synced B st'"
proof -
  obtain data where "b_encode B (aliases (sys_parser (bot_sys st'))) = Inr data"
    using assms(1) by (auto simp: writes_succeed_def)
  then show ?thesis
    using assms by (auto simp: saved_def synced_def writes_succeed_def SaveAliases_def io_succeeds_def)
qed

lemma saved_alias_inv:
  "saved B st st' \<Longrightarrow> alias_inv (b_lib B) (aliases (sys_parser (bot_sys st)))
     \<Longrightarrow> alias_inv (b_lib B) (aliases (sys_parser (bot_sys st')))"
  by (auto simp: saved_def alias_update_def alias_inv_ops)

lemma confirmed_frame:
  assumes "wired B" "pending_ok B ctx st" "confirmed B tok st st'"
  shows "sys_parser (bot_sys st') = sys_parser (bot_sys st) \<and> bot_file st' = bot_file st"
proof -
  obtain now w reply p s where c: "consumeConfirm now (b_adminChatID B) tok (bot_pending st) ((bot_sys st)\<lparr>sys_world := w\<rparr>) = (reply, p, s)"
    and core: "core st' = (p, bot_file st, sys_parser s, sys_dlq s, other_metrics s)"
    using assms(3) unfolding confirmed_def by blast
  have "sys_parser s = sys_parser (bot_sys st)"
  proof (cases "take_confirm now (b_adminChatID B) tok (bot_pending st)")
    case (Pair a p')
    show ?thesis
    proof (cases a)
      case None
      then show ?thesis using c Pair by (auto simp: consumeConfirm_def)
    next
      case (Some act)
      then have "bot_pending st (confirmKey (b_adminChatID B) tok) = Some act"
        using Pair by (auto simp: take_confirm_def Let_def split: option.splits if_splits)
      then have "replay_action B ctx (execute act)" using assms(2) by (auto simp: pending_ok_def)
      then show ?thesis
        using c Pair Some replay_action_parser [OF assms(1)] by (fastforce simp: consumeConfirm_def split: prod.splits)
    qed
  qed
  then show ?thesis using core by (simp add: core_def)
qed

lemma update_synced:
  assumes "wired B" "pending_ok B ctx st" "update_effect B ctx u st st'" "writes_succeed B"
  shows "synced B st \<Longrightarrow> synced B st'"
    and "alias_inv (b_lib B) (aliases (sys_parser (bot_sys st))) \<Longrightarrow> alias_inv (b_lib B) (aliases (sys_parser (bot_sys st')))"
  using assms(3) saved_synced [OF assms(4)] saved_alias_inv confirmed_frame [OF assms(1,2)] unfolding update_effect_def
  by (auto simp: core_def asked_def synced_def)

text \<open>
  C26: As long as the writes succeed, the alias file holds the alias table at every moment of a run
  of the bot, whatever commands it gets, and the table stays well formed.
\<close>

theorem alias_file_synced:
  assumes "wired B" "writes_succeed B" "bot_pending st = Map.empty"
    and "alias_inv (b_lib B) (aliases (sys_parser (bot_sys st)))" and "synced B st"
  shows "synced B (run_bot B ctx upds st)
    \<and> alias_inv (b_lib B) (aliases (sys_parser (bot_sys (run_bot B ctx upds st))))"
proof -
  have "pending_ok B ctx st" using assms(3) by (rule pending_ok_empty)
  then show ?thesis
    using assms(4,5)
  proof (induction upds arbitrary: st)
    case (Cons u us)
    let ?st = "handleBotUpdate B ctx u st"
    have "pending_ok B ctx ?st" "synced B ?st" "alias_inv (b_lib B) (aliases (sys_parser (bot_sys ?st)))"
      using Cons.prems update_synced [OF assms(1) Cons.prems(1) handle_effect assms(2)]
        pending_ok_update [OF Cons.prems(1) handle_effect] by blast+
    then show ?case using Cons.IH by simp
  qed simp
qed


section \<open>A bot\<close>

definition demo_admin :: "unit relay_func \<Rightarrow> unit Admin" where
  "demo_admin relay = \<lparr>a_lib = ascii_golib, a_codec = demo_codec [], a_ext = calm,
     a_Relay = Some relay, a_DryRun = None, a_WithReplay = Some WithDLQBypass,
     a_MaxRetries = 3, a_BaseDelay = 1, a_MaxDelay = 9\<rparr>"

definition demo_bot :: "unit relay_func \<Rightarrow> unit bot" where
  "demo_bot relay = \<lparr>b_lib = ascii_golib, b_ext = calm, b_encode = (\<lambda>_. Inr ''{}''), b_io = (\<lambda>w. (io_ok, w)),
     b_rand = (\<lambda>w. (Some ''r'', w)), b_base36 = (\<lambda>_. ''0''), b_keys = (\<lambda>w. ([], w)), b_version = ''0.2.0'',
     b_UserID = 1, b_Username = ''relaybot'', b_Domain = ''d'', b_aliasAdmin = True,
     b_dlqAdmin = Some (demo_admin relay), b_adminChatID = 7\<rparr>"

definition demo_state :: "unit bot_state" where
  "demo_state = \<lparr>bot_sys = (demo_sys ())\<lparr>sys_dlq := Some demo_store\<rparr>, bot_pending = Map.empty, bot_file = Some (''{}'' @ [CHR 0x0A])\<rparr>"

definition demo_says :: "int \<Rightarrow> string \<Rightarrow> bot_update" where
  "demo_says chat t = MessageCreated (Some \<lparr>m_Sender = Some \<lparr>UserId = 5, IsBot = False\<rparr>, m_ChatId = chat, m_Text = t\<rparr>)"

theorem only_admin_changes_witness:
  "sys_parser (bot_sys (handleMessageCreatedUpdate (demo_bot (Relay (demo_service calm))) Background
     \<lparr>m_Sender = Some \<lparr>UserId = 5, IsBot = False\<rparr>, m_ChatId = 8, m_Text = ''/unalias ops''\<rparr> demo_state))
   = sys_parser (bot_sys demo_state)"
  by (intro conjunct1 [OF conjunct2 [OF conjunct2 [OF only_admin_changes [OF _ refl]]]]) (simp add: demo_bot_def)

theorem alias_file_synced_witness:
  "synced (demo_bot (Relay (demo_service calm)))
     (run_bot (demo_bot (Relay (demo_service calm))) Background [demo_says 7 ''/alias ops 42''] demo_state)"
proof (rule conjunct1 [OF alias_file_synced])
  show "wired (demo_bot (Relay (demo_service calm)))" by (auto simp: wired_def demo_bot_def demo_admin_def)
  show "writes_succeed (demo_bot (Relay (demo_service calm)))" by (simp add: writes_succeed_def demo_bot_def)
  show "alias_inv (b_lib (demo_bot (Relay (demo_service calm)))) (aliases (sys_parser (bot_sys demo_state)))"
    by (simp add: demo_state_def demo_sys_def NewParser_def alias_inv_def)
qed (simp_all add: demo_state_def synced_def demo_bot_def)

text \<open>The administrator asks for the replay of an item and confirms it; the relay delivers it.\<close>

definition queued_status :: "unit bot_state \<Rightarrow> status option" where
  "queued_status st = Option.bind (sys_dlq (bot_sys st)) (\<lambda>f. map_option Status (items f ''a''))"

theorem queue_needs_confirmation_witness:
  "\<exists>tok act. confirmation (demo_bot (\<lambda>_ _ _ s. (None, s))) (demo_says 7 ''/confirm 72'') tok
     \<and> bot_pending (run_bot (demo_bot (\<lambda>_ _ _ s. (None, s))) Background [demo_says 7 ''/replay a''] demo_state) (confirmKey 7 tok) = Some act"
proof -
  let ?B = "demo_bot (\<lambda>_ _ _ s. (None, s))"
  let ?st = "run_bot ?B Background [demo_says 7 ''/replay a''] demo_state"
  have "queued_status (handleBotUpdate ?B Background (demo_says 7 ''/confirm 72'') ?st) \<noteq> queued_status ?st"
    by code_simp
  then have "sys_dlq (bot_sys (handleBotUpdate ?B Background (demo_says 7 ''/confirm 72'') ?st)) \<noteq> sys_dlq (bot_sys ?st)"
    by (auto simp: queued_status_def)
  moreover have "bot_pending demo_state = Map.empty" by (simp add: demo_state_def)
  moreover have "b_adminChatID ?B = 7" by (simp add: demo_bot_def)
  ultimately show ?thesis using queue_needs_confirmation [of demo_state ?st ?B Background] by metis
qed

end
