(* ===== verification/Wiring.thy ===== *)
theory Wiring
  imports Config Max_Sender Limited_Sender Smtp Smtp_Accept Bot_Runtime
begin

text \<open>
  \<open>cmd/smtp-to-max-relay/main.go\<close>: the configuration is read, the parts are built from it and
  connected, and the goroutines are started. The model ends with the parts as they are started;
  what they do is the subject of their own theories.
\<close>

section \<open>The surroundings\<close>

text \<open>
  What the program finds outside: its libraries, the calls that leave it (\<open>pf_ext\<close>, whose two
  send functions are replaced by the sender built here), the MAX API, standard output, the path
  that a call of the rate limiter takes among the other callers, and the files.
\<close>

record 'w platform =
  pf_lib :: golib
  pf_mime :: mime_lib
  pf_codec :: codec
  pf_ext :: "'w external"
  pf_api :: "'w max_api"
  pf_GetBot :: "context_values \<Rightarrow> 'w \<Rightarrow> (int \<times> string) result \<times> 'w"
  pf_url_ok :: "string \<Rightarrow> bool"
  pf_print :: "string \<Rightarrow> 'w \<Rightarrow> 'w"
  pf_acquire :: "limits \<Rightarrow> context_values \<Rightarrow> 'w \<Rightarrow> acquire_path \<times> 'w"
  pf_decode :: "string \<Rightarrow> (string \<times> json) list result"
  pf_encode :: "(string \<rightharpoonup> string list) \<Rightarrow> string result"
  pf_read :: "string \<Rightarrow> string result"
  pf_io :: "'w \<Rightarrow> fs_io \<times> 'w"
  pf_rand :: "'w \<Rightarrow> string option \<times> 'w"
  pf_base36 :: "time \<Rightarrow> string"
  pf_keys :: "'w \<Rightarrow> string list \<times> 'w"
  pf_version :: string

text \<open>The parts as they are started.\<close>

record 'w app =
  app_service :: "'w service"
  app_sys :: "'w sys"
  app_worker :: "'w Worker option"
  app_admin :: "'w Admin option"
  app_server :: Server
  app_sessions :: nat
  app_bot :: "'w bot option"

section \<open>The dry run of a replay\<close>

definition route_valid :: string where
  "route_valid =
     [CHR 0xD0, CHR 0xBC, CHR 0xD0, CHR 0xB0, CHR 0xD1, CHR 0x80, CHR 0xD1, CHR 0x88, CHR 0xD1,
     CHR 0x80, CHR 0xD1, CHR 0x83, CHR 0xD1, CHR 0x82, CHR 0x20, CHR 0xD0, CHR 0xB2, CHR 0xD0,
     CHR 0xB0, CHR 0xD0, CHR 0xBB, CHR 0xD0, CHR 0xB8, CHR 0xD0, CHR 0xB4, CHR 0xD0, CHR 0xB5,
     CHR 0xD0, CHR 0xBD] @ '': route=''"

text \<open>The verb \<open>%+v\<close> for the two structures of the parser.\<close>

definition show_target :: "RecipientTarget \<Rightarrow> string" where
  "show_target t = ''{ChatID:'' @ ChatID t @ '' Silent:'' @ bool_text (Silent t) @ '' Local:'' @ Local t @ ''}''"

definition show_recipient :: "ParsedRecipient \<Rightarrow> string" where
  "show_recipient pr =
     ''{Targets:['' @ Join (map show_target (Targets pr)) '' '' @ ''] RawLocal:'' @ RawLocal pr @ '' RawAddr:'' @ RawAddr pr
       @ '' SourceLocal:'' @ SourceLocal pr @ '' AliasUsed:'' @ bool_text (AliasUsed pr) @ ''}''"

definition DryRun :: "'w service \<Rightarrow> context_values \<Rightarrow> string \<Rightarrow> string \<Rightarrow> 'w sys \<Rightarrow> string result" where
  "DryRun S ctx rcpt raw s =
     (case Parse (s_lib S) (sys_parser s) rcpt of
        Inl err \<Rightarrow> Inl err
      | Inr parsedRecipient \<Rightarrow>
          (case email_Parse (s_lib S) (s_mime S) (s_Email S) raw of
             Inl err \<Rightarrow> Inl err
           | Inr parsedEmail \<Rightarrow>
               Inr (route_valid @ show_recipient parsedRecipient @ '', attachments=''
                      @ FormatInt (int (length (Attachments parsedEmail))))))"

section \<open>Building the parts\<close>

definition rate_config :: "Config \<Rightarrow> RateLimiterConfig" where
  "rate_config cfg = \<lparr>RPS = MaxSendRPS cfg, Burst = MaxBurst cfg, QueueCapacity = MaxQueueCapacity cfg, QueueWait = MaxQueueWait cfg\<rparr>"

text \<open>
  The sender of the configured mode behind the rate limiter, if the rate is limited; and what the
  limiter records in the metrics when it is created.
\<close>

definition wire_sender :: "'w platform \<Rightarrow> Config \<Rightarrow> 'w metered_sender" where
  "wire_sender P cfg =
     (let next = (if MaxSenderMode cfg = ''botapi'' then BotSender (pf_lib P) (pf_api P) else StubSender (pf_lib P) (pf_print P)) in
      case NewRateLimitedSender (rate_config cfg) of
        None \<Rightarrow> unlimited_sender next
      | Some lim \<Rightarrow> limited_sender lim (pf_acquire P lim) next)"

definition limiter_created :: "Config \<Rightarrow> limiter_update list" where
  "limiter_created cfg = (case NewRateLimitedSender (rate_config cfg) of None \<Rightarrow> [] | Some _ \<Rightarrow> [QueueDepth 0])"

definition wire_external :: "'w platform \<Rightarrow> Config \<Rightarrow> 'w external" where
  "wire_external P cfg =
     (pf_ext P)\<lparr>x_SendText := SendText (wire_sender P cfg), x_SendFile := SendFile (wire_sender P cfg)\<rparr>"

definition wire_service :: "'w platform \<Rightarrow> Config \<Rightarrow> 'w service" where
  "wire_service P cfg = \<lparr>s_lib = pf_lib P, s_mime = pf_mime P, s_codec = pf_codec P, s_ext = wire_external P cfg,
     s_Email = \<lparr>maxBytes = SMTPMaxMessageBytes cfg\<rparr>, MaxSendRetries = RelayMaxRetries cfg, RetryBaseDelay = RelayRetryDelay cfg\<rparr>"

definition wire_worker :: "'w platform \<Rightarrow> Config \<Rightarrow> 'w Worker" where
  "wire_worker P cfg = \<lparr>w_lib = pf_lib P, w_codec = pf_codec P, w_ext = wire_external P cfg,
     w_Relay = Relay (wire_service P cfg), BaseDelay = DLQBaseDelay cfg, MaxDelay = DLQMaxDelay cfg,
     MaxRetries = DLQMaxRetries cfg, BatchSize = 10, WithReplay = Some WithDLQBypass, RandomJitter = 0,
     AttemptTimeout = MaxSendTimeout cfg\<rparr>"

definition wire_admin :: "'w platform \<Rightarrow> Config \<Rightarrow> 'w Admin" where
  "wire_admin P cfg = \<lparr>a_lib = pf_lib P, a_codec = pf_codec P, a_ext = wire_external P cfg,
     a_Relay = Some (Relay (wire_service P cfg)), a_DryRun = Some (DryRun (wire_service P cfg)),
     a_WithReplay = Some WithDLQBypass, a_MaxRetries = DLQMaxRetries cfg, a_BaseDelay = DLQBaseDelay cfg,
     a_MaxDelay = DLQMaxDelay cfg\<rparr>"

definition wire_bot :: "'w platform \<Rightarrow> Config \<Rightarrow> int \<Rightarrow> string \<Rightarrow> 'w Admin option \<Rightarrow> 'w bot" where
  "wire_bot P cfg userID username admin = \<lparr>b_lib = pf_lib P, b_ext = wire_external P cfg, b_encode = pf_encode P,
     b_io = pf_io P, b_rand = pf_rand P, b_base36 = pf_base36 P, b_keys = pf_keys P, b_version = pf_version P,
     b_UserID = userID, b_Username = username, b_Domain = SMTPAllowedDomain cfg, b_aliasAdmin = True,
     b_dlqAdmin = admin, b_adminChatID = AdminChatID cfg\<rparr>"

text \<open>
  The start of the bot sender: it can be created, the administrator is told, and the bot's own
  identity is asked for; errors of the last two are only logged. Each call has the send timeout.
\<close>

definition start_botapi :: "'w platform \<Rightarrow> Config \<Rightarrow> 'w \<Rightarrow> ((int \<times> string) \<times> limiter_update list \<times> 'w) result" where
  "start_botapi P cfg w =
     (case NewBotSender (pf_url_ok P) (MaxAPIBaseURL cfg) (MaxBotToken cfg) (MaxSendTimeout cfg) of
        Inl err \<Rightarrow> Inl (WrapError ''max sender error: '' err [])
      | Inr _ \<Rightarrow>
          (case x_now (pf_ext P) w of
             (now1, w1) \<Rightarrow>
               (case SendStartupNotification (wire_external P cfg) (WithTimeout now1 (MaxSendTimeout cfg) Background)
                       (pf_version P) (AdminChatID cfg) w1 of
                  ((_, us), w2) \<Rightarrow>
                    (case x_now (pf_ext P) w2 of
                       (now2, w3) \<Rightarrow>
                         (case pf_GetBot P (WithTimeout now2 (MaxSendTimeout cfg) Background) w3 of
                            (Inl _, w4) \<Rightarrow> Inr ((0, []), us, w4)
                          | (Inr info, w4) \<Rightarrow> Inr (info, us, w4))))))"

text \<open>\<open>log.Fatalf\<close> ends the program with the text of an error.\<close>

definition or_fatal :: "string \<Rightarrow> 'a result \<Rightarrow> ('a \<Rightarrow> 'b result) \<Rightarrow> 'b result" where
  "or_fatal what r f = (case r of Inl err \<Rightarrow> Inl (WrapError what err []) | Inr x \<Rightarrow> f x)"

definition start :: "'w platform \<Rightarrow> environment \<Rightarrow> 'w \<Rightarrow> 'w app result" where
  "start P env w0 =
     or_fatal ''config error: '' (Load env) (\<lambda>cfg.
     or_fatal ''aliases error: '' (LoadAliases (pf_lib P) (pf_decode P) (pf_read P (AliasFilePath cfg))) (\<lambda>al.
     and_then (if MaxSenderMode cfg = ''botapi'' then start_botapi P cfg w0 else Inr ((0, []), [], w0)) (\<lambda>((userID, username), us, w).
     or_fatal ''dlq init error: ''
       (if DLQEnabled cfg
        then (let r = pf_read P (DLQFilePath cfg) in
              map_sum (\<lambda>e. e) Some
                (NewFileStore (pf_lib P) (pf_codec P) r (case r of Inl _ \<Rightarrow> None | Inr data \<Rightarrow> Some data) None))
        else Inr None) (\<lambda>dlq.
       let admin = (if DLQEnabled cfg then Some (wire_admin P cfg) else None) in
       Inr \<lparr>app_service = wire_service P cfg,
            app_sys = \<lparr>sys_parser = NewParser (pf_lib P) (SMTPAllowedDomain cfg) al,
                       sys_metrics = Some (fold apply_update (limiter_created cfg @ us) NewCollector),
                       sys_dlq = dlq, sys_world = w\<rparr>,
            app_worker = (if DLQEnabled cfg then Some (wire_worker P cfg) else None),
            app_admin = admin,
            app_server = \<lparr>srv_domain = SMTPAllowedDomain cfg, srv_maxBytes = SMTPMaxMessageBytes cfg\<rparr>,
            app_sessions = nat (SMTPMaxSessions cfg),
            app_bot = (if MaxSenderMode cfg = ''botapi'' then Some (wire_bot P cfg userID username admin) else None)\<rparr>))))"


section \<open>A dry run predicts the replay\<close>

lemma sendWithRetry_ok: "(\<And>w. fst (fst (fn w)) = None) \<Longrightarrow> fst (sendWithRetry S ctx fn s) = None"
proof -
  assume ok: "\<And>w. fst (fst (fn w)) = None"
  obtain us w where "fn (sys_world s) = ((None, us), w)" using ok [of "sys_world s"] by (metis prod.collapse)
  then have "fst (in_send fn s) = None" by (simp add: in_send_def in_world_def)
  then show ?thesis by (auto simp: sendWithRetry_def Let_def attempt_loop.simps split: prod.splits option.splits)
qed

lemma send_one_ok: "(\<And>w. fst (fst (fn w)) = None) \<Longrightarrow> fst (send_one S ctx rcpt raw src chat pre fn s) = None"
proof -
  assume ok: "\<And>w. fst (fst (fn w)) = None"
  obtain t s1 where 1: "in_world (x_now (s_ext S)) s = (t, s1)" by fastforce
  obtain r s2 where 2: "sendWithRetry S ctx fn s1 = (r, s2)" by fastforce
  have "r = None" using sendWithRetry_ok [of fn S ctx s1] ok 2 by simp
  then show ?thesis using 1 2 by (simp add: send_one_def Let_def)
qed

definition sends_succeed :: "'w external \<Rightarrow> bool" where
  "sends_succeed X \<longleftrightarrow> (\<forall>ctx c t q w. fst (fst (x_SendText X ctx c t q w)) = None)
     \<and> (\<forall>ctx c a q w. fst (fst (x_SendFile X ctx c a q w)) = None)"

lemma send_chunks_ok: "sends_succeed (s_ext S) \<Longrightarrow> fst (send_chunks S ctx rcpt raw src tg chunks s) = None"
proof (induction chunks arbitrary: s)
  case (Cons c chunks)
  then show ?case
    using send_one_ok [of "x_SendText (s_ext S) ctx (ChatID tg) c (Silent tg)" S ctx rcpt raw src "ChatID tg" "''send text: ''" s]
    by (auto simp: sends_succeed_def split: prod.splits option.splits)
qed simp

lemma send_files_ok: "sends_succeed (s_ext S) \<Longrightarrow> fst (send_files S ctx rcpt raw src tg atts s) = None"
proof (induction atts arbitrary: s)
  case (Cons a atts)
  then show ?case
    using send_one_ok [of "x_SendFile (s_ext S) ctx (ChatID tg) a (Silent tg)" S ctx rcpt raw src "ChatID tg"
        "''send file '' @ Filename a @ '': ''" s]
    by (auto simp: sends_succeed_def split: prod.splits option.splits)
qed simp

lemma relay_targets_ok:
  "sends_succeed (s_ext S) \<Longrightarrow> fst (relay_targets S ctx rcpt raw src chunks atts tgs s) = None"
proof (induction tgs arbitrary: s)
  case (Cons tg tgs)
  obtain s1 where 1: "send_chunks S ctx rcpt raw src tg chunks s = (None, s1)"
    using send_chunks_ok [OF Cons.prems] by (metis prod.collapse)
  obtain s2 where 2: "send_files S ctx rcpt raw src tg atts (with_metrics IncTextSent s1) = (None, s2)"
    using send_files_ok [OF Cons.prems] by (metis prod.collapse)
  show ?case using Cons 1 2 by simp
qed simp

lemma relay_body_ok:
  assumes "sends_succeed (s_ext S)"
  shows "fst (relay_body S ctx rcpt raw s) = None \<longleftrightarrow>
    (\<exists>pr em. Parse (s_lib S) (sys_parser s) rcpt = Inr pr \<and> email_Parse (s_lib S) (s_mime S) (s_Email S) raw = Inr em)"
  using relay_targets_ok [OF assms]
  by (auto simp: relay_body_def Let_def split: sum.splits prod.splits)

lemma Relay_ok:
  assumes "sends_succeed (s_ext S)"
  shows "fst (Relay S ctx rcpt raw s) = None \<longleftrightarrow>
    (\<exists>pr em. Parse (s_lib S) (sys_parser s) rcpt = Inr pr \<and> email_Parse (s_lib S) (s_mime S) (s_Email S) raw = Inr em)"
proof -
  obtain t s1 where 1: "in_world (x_now (s_ext S)) s = (t, s1)" by fastforce
  then have "fst (Relay S ctx rcpt raw s) = fst (relay_body S ctx rcpt raw s1)"
    by (simp add: Relay_def split: prod.splits)
  then show ?thesis using relay_body_ok [OF assms, of ctx rcpt raw s1] in_worldD [OF 1] by simp
qed

text \<open>
  C29: A dry run approves a queued message exactly if its replay succeeds when the sends do; so it
  reports everything but the sending itself.
\<close>

theorem dry_run_predicts:
  assumes "sends_succeed (s_ext S)"
  shows "(\<exists>msg. DryRun S ctx rcpt raw s = Inr msg) \<longleftrightarrow> fst (Relay S ctx' rcpt raw s) = None"
  unfolding Relay_ok [OF assms] by (auto simp: DryRun_def split: sum.splits)

theorem dry_run_predicts_witness:
  "(\<exists>msg. DryRun (demo_service calm) Background ''chatid12@d'' ''hi'' (demo_sys ()) = Inr msg)
     \<longleftrightarrow> fst (Relay (demo_service calm) (WithDLQBypass Background) ''chatid12@d'' ''hi'' (demo_sys ())) = None"
  by (rule dry_run_predicts) (simp add: sends_succeed_def calm_def)


section \<open>The state at the start\<close>

lemma or_fatal_Inr: "or_fatal what r f = Inr y \<longleftrightarrow> (\<exists>x. r = Inr x \<and> f x = Inr y)"
  by (cases r) (auto simp: or_fatal_def)

definition idle :: "FileStore \<Rightarrow> bool" where
  "idle st \<longleftrightarrow> (\<forall>it \<in> ran (items st). Status it \<noteq> StatusProcessing)"

lemma load_loop_idle:
  "\<forall>it \<in> ran m. Status it \<noteq> StatusProcessing \<Longrightarrow> \<forall>it \<in> ran (load_loop L its m). Status it \<noteq> StatusProcessing"
proof (induction its arbitrary: m)
  case (Cons it its)
  have "Status (load_item L it) \<noteq> StatusProcessing" by (simp add: load_item_def Let_def)
  then have "\<forall>it \<in> ran (m(ID it \<mapsto> load_item L it)). Status it \<noteq> StatusProcessing"
    using Cons.prems by (auto simp: ran_def split: if_splits)
  then show ?case using Cons.IH by simp
qed simp

lemma store_inv_empty: "store_inv Map.empty"
  by (simp add: store_inv_def)

lemma map_sum_Inr: "map_sum f g x = Inr y \<longleftrightarrow> (\<exists>z. x = Inr z \<and> y = g z)"
  by (cases x) auto

lemma NewFileStore_start:
  assumes "NewFileStore L C r f tmp = Inr st"
  shows "store_inv (items st) \<and> idle st"
proof -
  have "store_inv (load_loop L its Map.empty) \<and> (\<forall>it \<in> ran (load_loop L its Map.empty). Status it \<noteq> StatusProcessing)" for its
    using load_loop_inv [of Map.empty L its] load_loop_idle [of Map.empty L its] by (simp add: store_inv_empty)
  then show ?thesis
    using assms store_inv_empty by (auto simp: NewFileStore_def idle_def Let_def split: sum.splits if_splits)
qed

lemma LoadAliases_alias_inv: "LoadAliases L decode r = Inr al \<Longrightarrow> alias_inv L al"
  using LoadAliases_inv [of L decode r] by simp

lemma wire_bot_wired [simp]:
  "wired (wire_bot P cfg u n (Some (wire_admin P cfg)))" "wired (wire_bot P cfg u n None)"
  by (auto simp: wired_def wire_bot_def wire_admin_def)

text \<open>
  C28: A program that starts is in order: the alias table is well formed, the queue is well formed
  with no item left in work, the metrics are empty but for the three figures of the rate
  limiter, which the start-up notification may have used, at least one session and a positive
  message size are allowed, and the queue, its worker and its administration are there together
  or not at all. Everything goes through one relay service, that of the SMTP sessions: the
  worker and the administration replay through it, without queueing again, and the
  administration's dry run is its dry run; the bot's administration is that administration, and
  the bot sends through the sender of that service. The service and the server have the
  configured retries, pauses, size limit and domain.
\<close>

theorem start_establishes:
  assumes "start P env w = Inr app"
  shows "alias_inv (pf_lib P) (aliases (sys_parser (app_sys app)))
    \<and> pred_option (\<lambda>st. store_inv (items st) \<and> idle st) (sys_dlq (app_sys app))
    \<and> map_option (\<lambda>c. c\<lparr>maxSendRateLimited := 0, maxSendQueueDepth := 0, maxSendQueueDrop := 0\<rparr>) (sys_metrics (app_sys app))
        = Some NewCollector
    \<and> 0 < app_sessions app \<and> 0 < srv_maxBytes (app_server app)
    \<and> (sys_dlq (app_sys app) = None \<longleftrightarrow> app_worker app = None) \<and> (app_worker app = None \<longleftrightarrow> app_admin app = None)
    \<and> pred_option (\<lambda>W. w_Relay W = Relay (app_service app) \<and> WithReplay W = Some WithDLQBypass
        \<and> w_ext W = s_ext (app_service app)) (app_worker app)
    \<and> pred_option (\<lambda>A. a_Relay A = Some (Relay (app_service app)) \<and> a_WithReplay A = Some WithDLQBypass
        \<and> a_DryRun A = Some (DryRun (app_service app)) \<and> a_ext A = s_ext (app_service app)) (app_admin app)
    \<and> pred_option (\<lambda>B. b_dlqAdmin B = app_admin app \<and> b_ext B = s_ext (app_service app) \<and> wired B) (app_bot app)
    \<and> (\<exists>cfg. Load env = Inr cfg \<and> MaxSendRetries (app_service app) = RelayMaxRetries cfg
         \<and> RetryBaseDelay (app_service app) = RelayRetryDelay cfg
         \<and> maxBytes (s_Email (app_service app)) = SMTPMaxMessageBytes cfg
         \<and> srv_maxBytes (app_server app) = SMTPMaxMessageBytes cfg \<and> srv_domain (app_server app) = SMTPAllowedDomain cfg)"
proof -
  obtain cfg al u n us w1 dlq where cfg: "Load env = Inr cfg"
    and al: "LoadAliases (pf_lib P) (pf_decode P) (pf_read P (AliasFilePath cfg)) = Inr al"
    and dlq: "(if DLQEnabled cfg
        then (let r = pf_read P (DLQFilePath cfg) in
              map_sum (\<lambda>e. e) Some
                (NewFileStore (pf_lib P) (pf_codec P) r (case r of Inl _ \<Rightarrow> None | Inr data \<Rightarrow> Some data) None))
        else Inr None) = Inr dlq"
    and app: "app = \<lparr>app_service = wire_service P cfg,
            app_sys = \<lparr>sys_parser = NewParser (pf_lib P) (SMTPAllowedDomain cfg) al,
                       sys_metrics = Some (fold apply_update (limiter_created cfg @ us) NewCollector),
                       sys_dlq = dlq, sys_world = w1\<rparr>,
            app_worker = (if DLQEnabled cfg then Some (wire_worker P cfg) else None),
            app_admin = (if DLQEnabled cfg then Some (wire_admin P cfg) else None),
            app_server = \<lparr>srv_domain = SMTPAllowedDomain cfg, srv_maxBytes = SMTPMaxMessageBytes cfg\<rparr>,
            app_sessions = nat (SMTPMaxSessions cfg),
            app_bot = (if MaxSenderMode cfg = ''botapi''
              then Some (wire_bot P cfg u n (if DLQEnabled cfg then Some (wire_admin P cfg) else None)) else None)\<rparr>"
    using assms by (auto simp: start_def or_fatal_Inr and_then_Inr Let_def)
  have ok: "config_ok cfg" by (rule Load_config_ok [OF cfg])
  have q: "pred_option (\<lambda>st. store_inv (items st) \<and> idle st) dlq \<and> (dlq = None \<longleftrightarrow> \<not> DLQEnabled cfg)"
    using dlq NewFileStore_start by (auto simp: Let_def map_sum_Inr split: if_splits)
  have m: "limiter_free (fold apply_update us' NewCollector) = NewCollector" for us'
    by simp (simp add: limiter_free_def NewCollector_def)
  have S: "s_ext (wire_service P cfg) = wire_external P cfg" "MaxSendRetries (wire_service P cfg) = RelayMaxRetries cfg"
    "RetryBaseDelay (wire_service P cfg) = RelayRetryDelay cfg"
    "maxBytes (s_Email (wire_service P cfg)) = SMTPMaxMessageBytes cfg"
    by (simp_all add: wire_service_def)
  show ?thesis
    using q ok LoadAliases_alias_inv [OF al] m [of "limiter_created cfg @ us"] cfg
    unfolding app limiter_free_def
    by (simp add: NewParser_def config_ok_def wire_worker_def wire_admin_def wire_bot_def wired_def S) blast
qed


text \<open>A machine on which nothing is configured and there are no files yet.\<close>

definition demo_platform :: "unit platform" where
  "demo_platform = \<lparr>pf_lib = ascii_golib, pf_mime = demo_mime, pf_codec = demo_codec [], pf_ext = calm, pf_api = busy_api,
     pf_GetBot = (\<lambda>_ w. (Inr (1, ''relaybot''), w)), pf_url_ok = (\<lambda>_. True), pf_print = (\<lambda>_ w. w),
     pf_acquire = (\<lambda>_ _ w. (Immediate, w)), pf_decode = (\<lambda>_. Inr []), pf_encode = (\<lambda>_. Inr ''{}''),
     pf_read = (\<lambda>_. Inl (OSError True ''no such file'')), pf_io = (\<lambda>w. (io_ok, w)), pf_rand = (\<lambda>w. (Some ''r'', w)),
     pf_base36 = (\<lambda>_. ''0''), pf_keys = (\<lambda>w. ([], w)), pf_version = ''0.2.0''\<rparr>"

theorem start_establishes_witness:
  "\<exists>app. start demo_platform (\<lambda>_. []) () = Inr app \<and> 0 < app_sessions app \<and> app_worker app \<noteq> None"
proof -
  have mode: "MaxSenderMode (config_of (\<lambda>_. [])) = ''stub''" "DLQEnabled (config_of (\<lambda>_. []))"
    by (simp_all add: config_of_def getEnv_def bool_setting_def)
  have "\<exists>app. start demo_platform (\<lambda>_. []) () = Inr app \<and> sys_dlq (app_sys app) \<noteq> None"
    by (simp add: start_def or_fatal_def Load_defaults mode demo_platform_def LoadAliases_def NewFileStore_def Let_def)
  then obtain app where app: "start demo_platform (\<lambda>_. []) () = Inr app" "sys_dlq (app_sys app) \<noteq> None" by blast
  show ?thesis using start_establishes [OF app(1)] app by blast
qed

end
