(* ===== verification/Delivery.thy ===== *)
theory Delivery
  imports Wiring
begin

text \<open>
  The contract of the relay's sender, kept by the senders that \<open>main.go\<close> builds on the MAX API:
  what a chat gets is read off the requests that the API accepted. So what the relay theory shows
  of any sender holds of the program with its bot sender behind its rate limiter.
\<close>

section \<open>What the chats get\<close>

text \<open>A message in a chat; a file is the name and the content of the upload it refers to.\<close>

record post =
  to_chat :: int
  post_text :: string
  post_files :: "(string \<times> string) option list"
  with_sound :: bool

definition post_of :: "(string \<rightharpoonup> string \<times> string) \<Rightarrow> max_message \<Rightarrow> post" where
  "post_of uploads m = \<lparr>to_chat = msg_chatID m, post_text = msg_Text m,
     post_files = map (\<lambda>(_, token). uploads token) (msg_Attachments m), with_sound = msg_Notify m\<rparr>"

text \<open>The uploads by their tokens and the messages so far, from the record of the requests.\<close>

fun see :: "api_event \<Rightarrow> (string \<rightharpoonup> string \<times> string) \<times> post list \<Rightarrow> (string \<rightharpoonup> string \<times> string) \<times> post list" where
  "see (Posted m None) (u, ps) = (u, ps @ [post_of u m])"
| "see (Uploaded data name (Inr token)) (u, ps) = (u(token \<mapsto> (name, data)), ps)"
| "see _ (u, ps) = (u, ps)"

definition seen :: "'w \<times> api_event list \<Rightarrow> (string \<rightharpoonup> string \<times> string) \<times> post list" where
  "seen w = fold see (snd w) (Map.empty, [])"

definition chats :: "'w \<times> api_event list \<Rightarrow> post list" where
  "chats w = snd (seen w)"

lemma see_other:
  "see (Posted m (Some e)) up = up" "see (Waited d r) up = up" "see (Uploaded data name (Inl e)) up = up"
  by (cases up; simp)+

section \<open>The senders\<close>

text \<open>The chat a call addresses, and the posts a call is to make.\<close>

definition chat_of :: "golib \<Rightarrow> string \<Rightarrow> int" where
  "chat_of L chatID = (case parseChatID L chatID of Inl _ \<Rightarrow> chat_number chatID | Inr n \<Rightarrow> n)"

definition text_post :: "golib \<Rightarrow> string \<Rightarrow> string \<Rightarrow> bool \<Rightarrow> post" where
  "text_post L chatID t silent = \<lparr>to_chat = chat_of L chatID, post_text = t, post_files = [], with_sound = (\<not> silent)\<rparr>"

definition file_post :: "golib \<Rightarrow> string \<Rightarrow> Attachment \<Rightarrow> bool \<Rightarrow> post" where
  "file_post L chatID a silent = \<lparr>to_chat = chat_of L chatID, post_text = [],
     post_files = [Some (if TrimSpace (Filename a) = [] then ''attachment.bin'' else TrimSpace (Filename a), Data a)],
     with_sound = (\<not> silent)\<rparr>"

lemma chat_of_canonical: "canonical_chat_id cid \<Longrightarrow> chat_of L cid = chat_number cid"
  by (simp add: chat_of_def parseChatID_canonical)

lemma api_wait_seen: "api_wait (logged_api A) ctx d w = (r, w') \<Longrightarrow> seen w' = seen w"
  by (cases w) (auto simp: logged_api_def record_event_def seen_def see_other split: prod.splits)

lemma messages_Send_seen:
  "messages_Send (logged_api A) ctx msg w = (r, w') \<Longrightarrow>
     seen w' = (fst (seen w), snd (seen w) @ (if r = None then [post_of (fst (seen w)) msg] else []))"
  by (cases w; cases "seen w"; cases r)
    (auto simp: messages_Send_def logged_api_def record_event_def seen_def see_other split: prod.splits if_splits)

lemma api_upload_seen:
  "api_upload (logged_api A) ctx d name w = (r, w') \<Longrightarrow>
     seen w' = (case r of Inl _ \<Rightarrow> seen w | Inr token \<Rightarrow> ((fst (seen w))(token \<mapsto> (name, d)), snd (seen w)))"
  by (cases w; cases "seen w"; cases r)
    (auto simp: logged_api_def record_event_def seen_def see_other split: prod.splits)

lemma file_attempts_seen:
  "file_attempts L (logged_api A) ctx msg d n w = (r, w') \<Longrightarrow>
     seen w' = (fst (seen w), snd (seen w) @ (if r = None then [post_of (fst (seen w)) msg] else []))"
proof (induction n arbitrary: d w)
  case (Suc n)
  obtain r1 w1 where 1: "messages_Send (logged_api A) ctx msg w = (r1, w1)" by (rule prod.exhaust)
  obtain r2 w2 where 2: "api_wait (logged_api A) ctx d w1 = (r2, w2)" by (rule prod.exhaust)
  note m = messages_Send_seen [OF 1] and q = api_wait_seen [OF 2]
  show ?case
  proof (cases r1)
    case (Some e)
    then show ?thesis
      using Suc.prems Suc.IH [of "if d < 2000000000 then d * 2 else d" w2] 1 2 m q
      by (cases r2) (auto split: if_splits)
  qed (use Suc.prems 1 m in simp)
qed auto

text \<open>
  The contract of \<open>Sender\<close> alone. It passes from a sender to the rate-limited one in front of it,
  as long as waiting for a token sends nothing.
\<close>

locale chat_sender =
  fixes next_sender :: "'w plain_sender" and inbox :: "'w \<Rightarrow> 'p list"
    and text_of :: "string \<Rightarrow> string \<Rightarrow> bool \<Rightarrow> 'p" and file_of :: "string \<Rightarrow> Attachment \<Rightarrow> bool \<Rightarrow> 'p"
  assumes text_ok: "SendText next_sender ctx chat t q w = (r, w') \<Longrightarrow> inbox w' = inbox w @ (if r = None then [text_of chat t q] else [])"
    and file_ok: "SendFile next_sender ctx chat a q w = (r, w') \<Longrightarrow> inbox w' = inbox w @ (if r = None then [file_of chat a q] else [])"
begin

lemma limited_text:
  assumes "\<And>ctx w p w'. acquire ctx w = (p, w') \<Longrightarrow> inbox w' = inbox w"
    and "SendText (limited_sender lim acquire next_sender) ctx chat t q w = ((r, us), w')"
  shows "inbox w' = inbox w @ (if r = None then [text_of chat t q] else [])"
proof -
  obtain p w1 where 1: "acquire ctx w = (p, w1)" by (rule prod.exhaust)
  obtain r2 w2 where 2: "SendText next_sender ctx chat t q w1 = (r2, w2)" by (rule prod.exhaust)
  have "inbox w1 = inbox w" by (rule assms(1) [OF 1])
  then show ?thesis
    using assms(2) 1 2 text_ok [OF 2] by (cases "acquire_result lim p"; cases r; auto simp: limited_sender_def)
qed

lemma limited_file:
  assumes "\<And>ctx w p w'. acquire ctx w = (p, w') \<Longrightarrow> inbox w' = inbox w"
    and "SendFile (limited_sender lim acquire next_sender) ctx chat a q w = ((r, us), w')"
  shows "inbox w' = inbox w @ (if r = None then [file_of chat a q] else [])"
proof -
  obtain p w1 where 1: "acquire ctx w = (p, w1)" by (rule prod.exhaust)
  obtain r2 w2 where 2: "SendFile next_sender ctx chat a q w1 = (r2, w2)" by (rule prod.exhaust)
  have "inbox w1 = inbox w" by (rule assms(1) [OF 1])
  then show ?thesis
    using assms(2) 1 2 file_ok [OF 2] by (cases "acquire_result lim p"; cases r; auto simp: limited_sender_def)
qed

lemma unlimited:
  "SendText (unlimited_sender next_sender) ctx chat t q w = ((r, us), w')
      \<Longrightarrow> inbox w' = inbox w @ (if r = None then [text_of chat t q] else [])"
  "SendFile (unlimited_sender next_sender) ctx chat a q w = ((r, us), w')
      \<Longrightarrow> inbox w' = inbox w @ (if r = None then [file_of chat a q] else [])"
  using text_ok file_ok by (auto simp: unlimited_sender_def split: prod.splits)

end

interpretation bot_sender: chat_sender "BotSender L (logged_api A)" chats "text_post L" "file_post L" for L A
proof
  fix ctx chat t q w r and w' :: "'a \<times> api_event list"
  assume "SendText (BotSender L (logged_api A)) ctx chat t q w = (r, w')"
  then show "chats w' = chats w @ (if r = None then [text_post L chat t q] else [])"
    by (auto simp: BotSender_def bot_SendText_def chats_def text_post_def chat_of_def post_of_def message_defs
        split: sum.splits prod.splits option.splits dest!: messages_Send_seen)
next
  fix ctx chat a q w r and w' :: "'a \<times> api_event list"
  assume "SendFile (BotSender L (logged_api A)) ctx chat a q w = (r, w')"
  then show "chats w' = chats w @ (if r = None then [file_post L chat a q] else [])"
    by (auto simp: BotSender_def bot_SendFile_def sendFileMessage_def chats_def file_post_def chat_of_def post_of_def
        message_defs Let_def split: sum.splits prod.splits option.splits dest!: api_upload_seen file_attempts_seen)
qed

section \<open>The program's sender\<close>

text \<open>
  A platform whose MAX API records its requests, and in which nothing else writes that record:
  not the clock, the waits and the files, and not the token bucket.
\<close>

definition quiet :: "('w \<times> 'e \<Rightarrow> 'a \<times> 'w \<times> 'e) \<Rightarrow> bool" where
  "quiet f \<longleftrightarrow> (\<forall>w. snd (snd (f w)) = snd w)"

definition watched :: "('w \<times> api_event list) platform \<Rightarrow> 'w max_api \<Rightarrow> bool" where
  "watched P A \<longleftrightarrow> pf_api P = logged_api A \<and> quiet (x_now (pf_ext P)) \<and> (\<forall>ctx d. quiet (x_wait (pf_ext P) ctx d))
     \<and> quiet (x_store (pf_ext P)) \<and> (\<forall>lim ctx. quiet (pf_acquire P lim ctx))"

lemma quiet_chats: "quiet f \<Longrightarrow> f w = (r, w') \<Longrightarrow> chats w' = chats w"
  unfolding quiet_def by (drule spec [of _ w]) (simp add: chats_def seen_def)

lemma watched_quiet:
  assumes "watched P A"
  shows "x_now (pf_ext P) w = (now, w') \<Longrightarrow> chats w' = chats w"
    and "x_wait (pf_ext P) ctx d w = (r, w') \<Longrightarrow> chats w' = chats w"
    and "x_store (pf_ext P) w = (E, w') \<Longrightarrow> chats w' = chats w"
    and "pf_acquire P lim ctx w = (path, w') \<Longrightarrow> chats w' = chats w"
  using assms unfolding watched_def by (blast intro: quiet_chats)+

lemma wire_sender_posts:
  assumes "watched P A" and "MaxSenderMode cfg = ''botapi''"
  shows "SendText (wire_sender P cfg) ctx chat t q w = ((r, us), w')
      \<Longrightarrow> chats w' = chats w @ (if r = None then [text_post (pf_lib P) chat t q] else [])"
    and "SendFile (wire_sender P cfg) ctx chat a q w = ((r, us), w')
      \<Longrightarrow> chats w' = chats w @ (if r = None then [file_post (pf_lib P) chat a q] else [])"
proof -
  have w: "wire_sender P cfg = (case NewRateLimitedSender (rate_config cfg) of
      None \<Rightarrow> unlimited_sender (BotSender (pf_lib P) (logged_api A))
    | Some lim \<Rightarrow> limited_sender lim (pf_acquire P lim) (BotSender (pf_lib P) (logged_api A)))"
    using assms by (simp add: wire_sender_def watched_def Let_def)
  note q = watched_quiet(4) [OF assms(1)]
  show "SendText (wire_sender P cfg) ctx chat t q w = ((r, us), w')
      \<Longrightarrow> chats w' = chats w @ (if r = None then [text_post (pf_lib P) chat t q] else [])"
    unfolding w by (cases "NewRateLimitedSender (rate_config cfg)")
      (use bot_sender.unlimited(1) bot_sender.limited_text [OF q] in \<open>simp_all only: option.case\<close>)
  show "SendFile (wire_sender P cfg) ctx chat a q w = ((r, us), w')
      \<Longrightarrow> chats w' = chats w @ (if r = None then [file_post (pf_lib P) chat a q] else [])"
    unfolding w by (cases "NewRateLimitedSender (rate_config cfg)")
      (use bot_sender.unlimited(2) bot_sender.limited_file [OF q] in \<open>simp_all only: option.case\<close>)
qed

lemma wired_message_sender:
  assumes "watched P A" and "MaxSenderMode cfg = ''botapi''"
  shows "message_sender (wire_external P cfg) chats (text_post (pf_lib P)) (file_post (pf_lib P))"
proof -
  note posts = wire_sender_posts [OF assms]
  show ?thesis
    using posts watched_quiet(1-3) [OF assms(1)]
    by unfold_locales (simp_all add: wire_external_def)
qed

text \<open>What the chats of an address are to get of a message.\<close>

definition mail_posts :: "golib \<Rightarrow> rcpt_parser \<Rightarrow> ParsedEmail \<Rightarrow> string \<Rightarrow> post list" where
  "mail_posts L p em rcpt =
     (case Parse L p rcpt of
        Inl _ \<Rightarrow> []
      | Inr pr \<Rightarrow>
          concat (map (\<lambda>t.
            map (\<lambda>ch. \<lparr>to_chat = chat_number (ChatID t), post_text = ch, post_files = [], with_sound = (\<not> Silent t)\<rparr>)
              (splitTextMessage (message_text em) maxTextMessageBytes)
            @ map (\<lambda>a. \<lparr>to_chat = chat_number (ChatID t), post_text = [],
                       post_files = [Some (if TrimSpace (Filename a) = [] then ''attachment.bin'' else TrimSpace (Filename a), Data a)],
                       with_sound = (\<not> Silent t)\<rparr>) (Attachments em)) (Targets pr)))"

lemma posts_for_mail:
  assumes "message_sender X chats (text_post L) (file_post L)" and "Parse L p rcpt = Inr pr"
  shows "concat (map (message_sender.posts_for (text_post L) (file_post L)
      (splitTextMessage (message_text em) maxTextMessageBytes) (Attachments em)) (Targets pr)) = mail_posts L p em rcpt"
proof -
  have "chat_of L (ChatID t) = chat_number (ChatID t)" if "t \<in> set (Targets pr)" for t
    using Parse_canonical [OF assms(2) that] by (rule chat_of_canonical)
  then show ?thesis
    using assms(2)
    by (auto simp: mail_posts_def message_sender.posts_for_def [OF assms(1)] text_post_def file_post_def
        intro!: arg_cong [where f = concat])
qed

end
