(* ===== verification/Spec2Isabelle.thy ===== *)
theory Spec2Isabelle
  imports Delivery
begin

text \<open>
  \<^bold>\<open>Verification of smtp-to-max-relay.\<close>

  The program is an SMTP server that relays the mail it receives to chats of the MAX messenger. A
  client hands a message over (\<open>internal/smtp\<close>); its recipient address is parsed into chats
  (\<open>internal/recipient\<close>); the message is parsed, split into chunks and sent with retries
  (\<open>internal/email\<close>, \<open>internal/relay\<close>) through a rate limiter and the bot API (\<open>internal/max\<close>); what
  cannot be sent is queued and replayed by a worker or an administrator (\<open>internal/dlq\<close>). A bot
  answers messages and takes the administrator's commands (\<open>internal/max\<close>), metrics are kept
  (\<open>internal/metrics\<close>), and \<open>main.go\<close> reads the configuration (\<open>internal/config\<close>) and connects the
  parts. This development models these parts operation by operation and proves what makes them
  correct, each alone and together.

  \<^bold>\<open>The theories.\<close> Base: \<open>Prelude\<close> (64-bit arithmetic, maps and their iteration order, sorting, the
  locale \<open>slice_order\<close>), \<open>Go_Strings\<close>, \<open>Go_Text\<close>, \<open>Go_Search\<close>, \<open>Go_Conv\<close>, \<open>Go_Os\<close>, \<open>Go_Sort\<close> (what the
  program uses of Go's standard library, on byte strings). Components:

  \<^item> \<open>Recipient\<close>: \<open>parser.go\<close> and \<open>alias.go\<close>. The alias map is a partial function in the record
    \<open>rcpt_parser\<close>; \<open>Parse\<close>, the alias operations and the alias file follow the code. The lemmas give
    the accepted language, the form of every target, a refinement of the alias operations to sets
    (locale \<open>alias_admin\<close>, the interface the bot uses) and the round trip through the file.
  \<^item> \<open>Dlq_Store\<close>: \<open>store.go\<close>. The record \<open>FileStore\<close> holds the items in memory and the contents of the
    queue file and its temporary file; every operation ends in \<open>persistLocked\<close>. The lemmas give the
    effect of each operation also when saving fails, the invariant \<open>store_inv\<close>, atomic saving, the
    recovery at a restart, and, over the step relation \<open>store_step\<close> of all operations, that nothing
    stored is lost, duplicated or picked twice.
  \<^item> \<open>Context\<close>, \<open>Email\<close>, \<open>Metrics\<close>, \<open>Metrics_Report\<close>: \<open>trace/context.go\<close> with \<open>WithDLQBypass\<close>; what is
    taken from a parsed message; counters, events and histograms, which are shown to be exact after
    any sequence of recordings (\<open>observation\<close>), and their two renderings (the locale
    \<open>keyed_slice_order\<close> makes them independent of map iteration).
  \<^item> \<open>System\<close>: the state the parts share (\<open>sys\<close>) and the outside world (\<open>external\<close>), and the recording
    of the calls that leave the program (\<open>logged\<close>). A send (\<open>in_send\<close>) also applies to the shared
    metrics what the rate limiter records on its way, a list of \<open>limiter_update\<close>.
  \<^item> \<open>Text_Split\<close>, \<open>Relay\<close>: \<open>service.go\<close>. The locale \<open>message_sender\<close> is the contract of \<open>max.Sender\<close>: a
    send puts one post into a chat exactly if it succeeds. Inside it, \<open>Relay\<close> is shown to deliver all
    of a message or a proper beginning of it; the other lemmas count attempts and metrics and show
    what is queued.
  \<^item> \<open>Dlq_Worker\<close>, \<open>Dlq_Admin\<close>: \<open>worker.go\<close> and \<open>admin.go\<close>. The locale \<open>replayer\<close> is what both need of the
    relay: a replay leaves the queue alone. The lemmas show that a round settles every item it took,
    the bounds of the delays with 64-bit overflow, and that both compute the same delay.
  \<^item> \<open>Smtp\<close>, \<open>Smtp_Accept\<close>: \<open>server.go\<close>. A session is a function from everything the client sends, in
    segments that end in a read error each, to the events of the session; the accept loop with its
    semaphore is the step relation \<open>accept_step\<close> over all interleavings of the loop, the sessions and the shutdown, with the phases
    of a session as a linear order that no step goes back in.
  \<^item> \<open>Limited_Sender\<close>: \<open>limited_sender.go\<close>, the step relation \<open>lim_step\<close> of any number of callers of
    \<open>acquire\<close> and the refilling goroutine, one step per channel operation or atomic update; and the
    paths one call can take (\<open>acquire_path\<close>) with the result and the updates of the metrics on each,
    which are those of the step relation (\<open>solo_acquire\<close>).
  \<^item> \<open>Max_Sender\<close>: \<open>sender.go\<close>, \<open>bot_sender.go\<close>, the sending methods of \<open>limited_sender.go\<close> (which path
    a call of \<open>acquire\<close> takes is an argument, what it does to the metrics is not), and the message
    builder of the vendored API client.
  \<^item> \<open>Config\<close>, \<open>Bot_Help\<close>, \<open>Admin_Confirm\<close>, \<open>Bot_Texts\<close>, \<open>Bot_Runtime\<close>: \<open>config.go\<close>, \<open>bot_help.go\<close>,
    \<open>admin_confirm.go\<close> and \<open>bot_runtime.go\<close> with every command and reply text. The bot's lemmas rest on
    a case distinction over the commands and the locale \<open>routing_relay\<close>.
  \<^item> \<open>Wiring\<close>: \<open>main.go\<close>, from the environment to the parts as they are started, and the dry run.
  \<^item> \<open>Delivery\<close>: the senders that \<open>main.go\<close> builds keep the contract \<open>message_sender\<close> (through the locale
    \<open>chat_sender\<close>), read off the requests the MAX API accepted; so the results on \<open>Relay\<close> hold of them.

  \<^bold>\<open>Conventions.\<close> A Go \<open>error\<close> is a value of the type \<open>error\<close>, a function with a result and an error is
  an \<open>error + 'a\<close>, a nil pointer is \<open>None\<close>, a panic is a value of its own. Strings are byte strings, so
  non-ASCII texts are written as their UTF-8 bytes. Integers are mathematical ones wrapped to 64
  bits where the code computes (\<open>wrap64\<close>), counters are words. Functions that leave the program take
  the world and return it changed. Operations under one mutex are one step. The shared state \<open>sys\<close> is
  passed through a run of \<open>Relay\<close>, a worker round or a command without another goroutine changing it
  in between; what holds under every interleaving of the goroutines is stated over step relations:
  \<open>store_step\<close> for the queue, \<open>lim_step\<close> for the rate limiter, \<open>accept_step\<close> for the server.

  \<^bold>\<open>Loops and bounds.\<close> All loops of the code that end are structural or come with a termination proof
  (\<open>split_loop\<close>, \<open>readData\<close>, \<open>session_loop\<close>); no fuel is used. The loop of \<open>sendWithRetry\<close> runs over the
  retries left, that of \<open>sendFileMessage\<close> over its five attempts. The endless loops are the list of
  updates of the bot, the rounds of the worker one by one, and the two step relations.

  \<^bold>\<open>Parameters.\<close> Unicode case mapping, quoting, rendering of times, SHA-256 (\<open>golib\<close>), MIME parsing and
  file extensions (\<open>mime_lib\<close>), \<open>encoding/json\<close> (\<open>codec\<close>, with its round trip as the hypothesis
  \<open>codec_ok\<close>), the answers of the file system (\<open>fs_io\<close>), the clock, random numbers, the requests to the
  MAX service (\<open>max_api\<close>), the path of a call of the rate limiter among the other callers and the iteration order of maps are arguments. Theorems about the queue
  that compare payloads assume that the digests of the payloads involved do not collide.

  \<^bold>\<open>Not modelled.\<close> Log lines; the HTTP requests, JSON and long polling inside the vendored API client;
  sockets below the bytes and the read errors of a session; the listener of the metrics server;
  signals; tests. They compute nothing the parts above depend on except through the parameters.
\<close>

section \<open>From the SMTP client to the chat or the queue\<close>



















end
